(* ===== verification/Prelude.thy ===== *)
theory Prelude
  imports Main "HOL-Library.AList" "HOL-Library.Multiset" "HOL-Library.Sublist" "HOL-Library.List_Lexorder"
    "HOL-Library.Char_ord"
begin

text \<open>
  Shared vocabulary of the development: Go errors and panics as values, the result type of
  fallible functions with its bind, Go strings (byte lists) with decimal formatting, and the
  generic lemmas on strings, separators and association lists that the component theories use.
\<close>

section \<open>Errors, panics and results\<close>

text \<open>
  An error value of the program. \<open>NotFound\<close> and \<open>NoMatch\<close> are the API errors that
  \<open>apierrors.IsNotFound\<close> and \<open>apimeta.IsNoMatchError\<close> recognise; \<open>Failure\<close> is any other
  error returned by code outside the repository; \<open>Errorf\<close> is an error the program formats itself,
  \<open>Wrap\<close> is \<open>errors.Wrap\<close> / \<open>errors.Wrapf\<close>, and \<open>Retriable\<close> is the value built by
  \<open>NewRetriableError\<close> with its optional retry delay in nanoseconds.
\<close>

datatype error =
    NotFound string
  | NoMatch string
  | Failure string
  | Errorf string
  | Wrap error string
  | Retriable error "int option"

datatype fault = Err error | Panic string

type_synonym 'a result = "fault + 'a"

fun IsNotFound :: "error \<Rightarrow> bool" where
  "IsNotFound (NotFound _) = True"
| "IsNotFound _ = False"

fun IsNoMatchError :: "error \<Rightarrow> bool" where
  "IsNoMatchError (NoMatch _) = True"
| "IsNoMatchError _ = False"

fun rbind :: "'e + 'a \<Rightarrow> ('a \<Rightarrow> 'e + 'b) \<Rightarrow> 'e + 'b" where
  "rbind (Inl e) f = Inl e"
| "rbind (Inr x) f = f x"

text \<open>A value of an external call, which can only fail with an error, seen as a result.\<close>

fun lift_error :: "error + 'a \<Rightarrow> 'a result" where
  "lift_error (Inl e) = Inl (Err e)"
| "lift_error (Inr x) = Inr x"

named_theorems result_iff "characterisations of successful and failing results"

lemma rbind_Inr_iff [result_iff]: "rbind m f = Inr y \<longleftrightarrow> (\<exists>x. m = Inr x \<and> f x = Inr y)"
  by (cases m) auto

lemma rbind_Inl_iff [result_iff]:
  "rbind m f = Inl e \<longleftrightarrow> m = Inl e \<or> (\<exists>x. m = Inr x \<and> f x = Inl e)"
  by (cases m) auto

lemma lift_error_Inr_iff [result_iff]: "lift_error m = Inr y \<longleftrightarrow> m = Inr y"
  by (cases m) auto

lemma lift_error_Inl_iff [result_iff]: "lift_error m = Inl f \<longleftrightarrow> (\<exists>e. m = Inl e \<and> f = Err e)"
  by (cases m) auto

lemma rbind_cong [fundef_cong]:
  "m = n \<Longrightarrow> (\<And>x. n = Inr x \<Longrightarrow> f x = g x) \<Longrightarrow> rbind m f = rbind n g"
  by (cases n) auto

text \<open>Go durations are counted in nanoseconds.\<close>

abbreviation second :: int where "second \<equiv> 1000000000"
abbreviation minute :: int where "minute \<equiv> 60000000000"

section \<open>Decimal formatting\<close>

definition digit_char :: "nat \<Rightarrow> char" where
  "digit_char n = char_of (48 + n)"

fun nat_str :: "nat \<Rightarrow> string" where
  "nat_str n = (if n < 10 then [digit_char n] else nat_str (n div 10) @ [digit_char (n mod 10)])"

declare nat_str.simps [simp del]

definition int_str :: "int \<Rightarrow> string" where
  "int_str i = (if i < 0 then CHR ''-'' # nat_str (nat (- i)) else nat_str (nat i))"

definition digits :: "char set" where
  "digits = {c. 48 \<le> (of_char c :: nat) \<and> (of_char c :: nat) < 58}"

definition digit_val :: "char \<Rightarrow> nat" where
  "digit_val c = of_char c - 48"

lemma of_digit_char: "n < 10 \<Longrightarrow> of_char (digit_char n) = (48 + n :: nat)"
  by (simp add: digit_char_def of_char_of)

lemma digit_char_in_digits: "n < 10 \<Longrightarrow> digit_char n \<in> digits"
  by (simp add: digits_def of_digit_char)

lemma digit_val_char: "n < 10 \<Longrightarrow> digit_val (digit_char n) = n"
  by (simp add: digit_val_def of_digit_char)

lemma nat_str_digits: "set (nat_str n) \<subseteq> digits"
proof (induction n rule: nat_str.induct)
  case (1 n)
  then show ?case by (subst nat_str.simps) (auto simp: digit_char_in_digits)
qed

lemma nat_str_nonempty [simp]: "nat_str n \<noteq> []"
  by (subst nat_str.simps) simp

definition str_nat :: "string \<Rightarrow> nat" where
  "str_nat s = foldl (\<lambda>a c. 10 * a + digit_val c) 0 s"

lemma str_nat_nat_str: "str_nat (nat_str n) = n"
proof (induction n rule: nat_str.induct)
  case (1 n)
  show ?case
  proof (cases "n < 10")
    case True
    then show ?thesis by (subst nat_str.simps) (simp add: str_nat_def digit_val_char)
  next
    case False
    with 1 have "str_nat (nat_str (n div 10)) = n div 10" by simp
    with False show ?thesis
      by (subst nat_str.simps) (simp add: str_nat_def digit_val_char)
  qed
qed

lemma nat_str_inject [simp]: "nat_str m = nat_str n \<longleftrightarrow> m = n"
  by (metis str_nat_nat_str)

lemma minus_not_digit: "CHR ''-'' \<notin> digits"
  by (simp add: digits_def)

lemma nat_str_no_minus: "nat_str n \<noteq> CHR ''-'' # s"
proof
  assume "nat_str n = CHR ''-'' # s"
  then have "CHR ''-'' \<in> set (nat_str n)" by simp
  with nat_str_digits minus_not_digit show False by blast
qed

lemma int_str_inject [simp]: "int_str i = int_str j \<longleftrightarrow> i = j"
  using nat_str_no_minus nat_str_no_minus [symmetric]
  by (auto simp: int_str_def split: if_splits)

lemma int_str_nonempty [simp]: "int_str i \<noteq> []"
  by (simp add: int_str_def)

lemma int_str_chars: "set (int_str i) \<subseteq> insert (CHR ''-'') digits"
  using nat_str_digits by (auto simp: int_str_def)

section \<open>Separators\<close>

text \<open>
  Two strings joined by a separator determine their parts when the separator does not occur in
  the first parts (\<open>sep_inject\<close>) or in the last parts (\<open>sep_inject_last\<close>).
\<close>

lemma sep_inject:
  assumes "c \<notin> set a" "c \<notin> set a'"
  shows "a @ c # b = a' @ c # b' \<longleftrightarrow> a = a' \<and> b = b'"
proof
  assume eq: "a @ c # b = a' @ c # b'"
  have "takeWhile (\<lambda>x. x \<noteq> c) (a @ c # b) = a" using assms(1)
    by (subst takeWhile_append2) auto
  moreover have "takeWhile (\<lambda>x. x \<noteq> c) (a' @ c # b') = a'" using assms(2)
    by (subst takeWhile_append2) auto
  ultimately have "a = a'" using eq by simp
  with eq show "a = a' \<and> b = b'" by simp
qed simp

lemma sep_inject_last:
  assumes "c \<notin> set b" "c \<notin> set b'"
  shows "a @ c # b = a' @ c # b' \<longleftrightarrow> a = a' \<and> b = b'"
proof
  assume "a @ c # b = a' @ c # b'"
  then have "rev (a @ c # b) = rev (a' @ c # b')" by (rule arg_cong)
  then have "rev b @ c # rev a = rev b' @ c # rev a'" by simp
  then show "a = a' \<and> b = b'" using assms by (subst (asm) sep_inject) auto
qed simp

text \<open>
  A run of characters from a set, followed by a character outside it (or the end), is determined
  by the whole string.
\<close>

lemma span_inject:
  assumes "a @ r = b @ s" "set a \<subseteq> D" "set b \<subseteq> D"
    and "r = [] \<or> hd r \<notin> D" "s = [] \<or> hd s \<notin> D"
  shows "a = b \<and> r = s"
proof -
  have tw: "takeWhile (\<lambda>x. x \<in> D) (c @ t) = c" if "set c \<subseteq> D" "t = [] \<or> hd t \<notin> D" for c t
    using that by (induction c) (auto simp: takeWhile_eq_Nil_iff)
  from tw [of a r] tw [of b s] assms have "a = b" by simp
  with assms(1) show ?thesis by simp
qed

section \<open>Splitting and joining strings\<close>

fun split_on :: "char \<Rightarrow> string \<Rightarrow> string list" where
  "split_on c [] = [[]]"
| "split_on c (x # xs) =
     (if x = c then [] # split_on c xs
      else (case split_on c xs of [] \<Rightarrow> [[x]] | w # ws \<Rightarrow> (x # w) # ws))"

fun join_with :: "string \<Rightarrow> string list \<Rightarrow> string" where
  "join_with sep [] = []"
| "join_with sep [w] = w"
| "join_with sep (w # ws) = w @ sep @ join_with sep ws"

lemma split_on_nonempty [simp]: "split_on c s \<noteq> []"
  by (induction s) (auto split: list.splits)

lemma split_on_no_sep: "w \<in> set (split_on c s) \<Longrightarrow> c \<notin> set w"
  by (induction s arbitrary: w) (auto split: if_splits list.splits)

lemma split_on_single: "c \<notin> set s \<Longrightarrow> split_on c s = [s]"
  by (induction s) auto

lemma split_on_append: "c \<notin> set a \<Longrightarrow> split_on c (a @ c # s) = a # split_on c s"
  by (induction a) auto

lemma join_with_Cons: "ws \<noteq> [] \<Longrightarrow> join_with sep (w # ws) = w @ sep @ join_with sep ws"
  by (cases ws) auto

lemma split_on_join:
  "ws \<noteq> [] \<Longrightarrow> (\<And>w. w \<in> set ws \<Longrightarrow> c \<notin> set w) \<Longrightarrow> split_on c (join_with [c] ws) = ws"
  by (induction "[c]" ws rule: join_with.induct) (auto simp: split_on_single split_on_append)

lemma join_with_split: "join_with [c] (split_on c s) = s"
proof (induction s)
  case (Cons x s)
  then show ?case
  proof (cases "split_on c s")
    case (Cons w ws)
    with \<open>join_with [c] (split_on c s) = s\<close> show ?thesis
      by (cases ws) (auto simp: join_with_Cons)
  qed simp
qed simp

lemma split_on_append_gen:
  "split_on c (a @ c # b) = split_on c a @ split_on c b"
  by (induction a) (auto split: list.splits)

section \<open>Association lists as Go maps\<close>

text \<open>
  A Go map whose iteration matters is an association list: its order is the order in which one
  \<open>range\<close> loop visits the keys, which Go leaves unspecified. Well-formed means distinct keys.
\<close>

abbreviation distinct_keys :: "('k \<times> 'v) list \<Rightarrow> bool" where
  "distinct_keys m \<equiv> distinct (map fst m)"

lemma map_of_update [simp]: "map_of (AList.update k v m) = (map_of m)(k \<mapsto> v)"
  by (simp add: update_conv')

lemma distinct_keys_update: "distinct_keys m \<Longrightarrow> distinct_keys (AList.update k v m)"
  by (rule distinct_update)

text \<open>Sorting by key, as \<open>encoding/json\<close> does with map keys, forgets the iteration order.\<close>

lemma sort_key_unique:
  fixes m n :: "(string \<times> 'v) list"
  assumes "distinct_keys m" "distinct_keys n" "map_of m = map_of n"
  shows "sort_key fst m = sort_key fst n"
proof (rule sort_key_inj_key_eq)
  have "set m = set n" using assms by (simp add: map_of_inject_set)
  moreover have "distinct m" "distinct n" using assms(1,2) by (auto simp: distinct_map)
  ultimately show "mset m = mset (sort_key fst n)"
    by (simp add: set_eq_iff_mset_eq_distinct [symmetric])
  show "inj_on fst (set m)" using assms(1) by (simp add: distinct_map)
qed simp

lemma distinct_keys_sort [simp]: "distinct_keys (sort_key fst (m :: (string \<times> 'v) list)) = distinct_keys m"
proof -
  have "mset (map fst (sort_key fst m)) = mset (map fst m)"
    by simp
  then show ?thesis by (rule mset_eq_imp_distinct_iff)
qed

lemma map_of_sort_key [simp]:
  fixes m :: "(string \<times> 'v) list"
  shows "distinct_keys m \<Longrightarrow> map_of (sort_key fst m) = map_of m"
  by (simp add: map_of_inject_set)

end
