(* ===== verification/Sha256.thy ===== *)
theory Sha256
  imports Prelude "HOL-Library.Word"
begin

text \<open>
  The standard library functions behind \<open>sha256hex\<close>: SHA-256 (\<open>crypto/sha256\<close>, as FIPS 180-4
  specifies it) on byte strings, and \<open>hex.EncodeToString\<close>. The functions are executable; the
  facts the development uses are the shape of the hex digest and the injectivity of the encoding.
\<close>

unbundle bit_operations_syntax

section \<open>SHA-256\<close>

type_synonym w32 = "32 word"

definition sha_K :: "w32 list" where
  "sha_K = [
    1116352408, 1899447441, 3049323471, 3921009573, 961987163, 1508970993, 2453635748, 2870763221,
    3624381080, 310598401, 607225278, 1426881987, 1925078388, 2162078206, 2614888103, 3248222580,
    3835390401, 4022224774, 264347078, 604807628, 770255983, 1249150122, 1555081692, 1996064986,
    2554220882, 2821834349, 2952996808, 3210313671, 3336571891, 3584528711, 113926993, 338241895,
    666307205, 773529912, 1294757372, 1396182291, 1695183700, 1986661051, 2177026350, 2456956037,
    2730485921, 2820302411, 3259730800, 3345764771, 3516065817, 3600352804, 4094571909, 275423344,
    430227734, 506948616, 659060556, 883997877, 958139571, 1322822218, 1537002063, 1747873779,
    1955562222, 2024104815, 2227730452, 2361852424, 2428436474, 2756734187, 3204031479, 3329325298]"

definition rotr :: "nat \<Rightarrow> w32 \<Rightarrow> w32" where
  "rotr n x = (drop_bit n x) OR (push_bit (32 - n) x)"

definition small_sigma0 :: "w32 \<Rightarrow> w32" where
  "small_sigma0 x = rotr 7 x XOR rotr 18 x XOR drop_bit 3 x"

definition small_sigma1 :: "w32 \<Rightarrow> w32" where
  "small_sigma1 x = rotr 17 x XOR rotr 19 x XOR drop_bit 10 x"

definition big_sigma0 :: "w32 \<Rightarrow> w32" where
  "big_sigma0 x = rotr 2 x XOR rotr 13 x XOR rotr 22 x"

definition big_sigma1 :: "w32 \<Rightarrow> w32" where
  "big_sigma1 x = rotr 6 x XOR rotr 11 x XOR rotr 25 x"

definition ch :: "w32 \<Rightarrow> w32 \<Rightarrow> w32 \<Rightarrow> w32" where
  "ch x y z = (x AND y) XOR (NOT x AND z)"

definition maj :: "w32 \<Rightarrow> w32 \<Rightarrow> w32 \<Rightarrow> w32" where
  "maj x y z = (x AND y) XOR (x AND z) XOR (y AND z)"

text \<open>
  The message schedule is a window of the last sixteen words; each round consumes the oldest
  and appends the next.
\<close>

fun sha_rounds :: "w32 list \<Rightarrow> w32 list \<Rightarrow> w32 list \<Rightarrow> w32 list" where
  "sha_rounds (k # ks) (w0 # ws) [a, b, c, d, e, f, g, h] =
     (let t1 = h + big_sigma1 e + ch e f g + k + w0;
          t2 = big_sigma0 a + maj a b c;
          wn = small_sigma1 (ws ! 13) + (ws ! 8) + small_sigma0 (ws ! 0) + w0
      in sha_rounds ks (ws @ [wn]) [t1 + t2, a, b, c, d + t1, e, f, g])"
| "sha_rounds _ _ st = st"

definition sha_block :: "w32 list \<Rightarrow> w32 list \<Rightarrow> w32 list" where
  "sha_block st block = map2 (+) st (sha_rounds sha_K block st)"

fun be_words :: "string \<Rightarrow> w32 list" where
  "be_words (a # b # c # d # r) =
     word_of_nat (of_char a * 16777216 + of_char b * 65536 + of_char c * 256 + of_char d) # be_words r"
| "be_words _ = []"

definition word_bytes :: "w32 \<Rightarrow> string" where
  "word_bytes w = (let n = unat w in
     [char_of (n div 16777216), char_of (n div 65536), char_of (n div 256), char_of n])"

definition sha_pad :: "string \<Rightarrow> string" where
  "sha_pad s = (let l = length s; z = (119 - l mod 64) mod 64; bits = 8 * l in
     s @ [CHR 0x80] @ replicate z (CHR 0x00) @
     map (\<lambda>i. char_of (bits div 256 ^ i mod 256)) [7, 6, 5, 4, 3, 2, 1, 0])"

fun sha_blocks :: "nat \<Rightarrow> w32 list \<Rightarrow> w32 list \<Rightarrow> w32 list" where
  "sha_blocks 0 st ws = st"
| "sha_blocks (Suc n) st ws = sha_blocks n (sha_block st (take 16 ws)) (drop 16 ws)"

definition sha_H0 :: "w32 list" where
  "sha_H0 = [0x6a09e667, 0xbb67ae85, 0x3c6ef372, 0xa54ff53a, 0x510e527f, 0x9b05688c, 0x1f83d9ab, 0x5be0cd19]"

definition Sum256 :: "string \<Rightarrow> string" where
  "Sum256 s = (let ws = be_words (sha_pad s) in
     concat (map word_bytes (sha_blocks (length ws div 16) sha_H0 ws)))"

lemma length_sha_rounds: "length (sha_rounds ks ws st) = length st"
  by (induction ks ws st rule: sha_rounds.induct) (auto simp: Let_def)

lemma length_sha_blocks: "length st = 8 \<Longrightarrow> length (sha_blocks n st ws) = 8"
  by (induction n st ws rule: sha_blocks.induct) (auto simp: sha_block_def length_sha_rounds)

lemma length_Sum256: "length (Sum256 s) = 32"
proof -
  have "length (concat (map word_bytes ws)) = 4 * length ws" for ws
    by (induction ws) (auto simp: word_bytes_def Let_def)
  then show ?thesis
    by (simp add: Sum256_def Let_def length_sha_blocks sha_H0_def)
qed

section \<open>Hexadecimal encoding\<close>

definition hex_digit :: "nat \<Rightarrow> char" where
  "hex_digit n = ''0123456789abcdef'' ! (n mod 16)"

definition hex_byte :: "char \<Rightarrow> string" where
  "hex_byte c = (let n = of_char c in [hex_digit (n div 16), hex_digit (n mod 16)])"

definition EncodeToString :: "string \<Rightarrow> string" where
  "EncodeToString s = concat (map hex_byte s)"

definition hex_chars :: "char set" where
  "hex_chars = set ''0123456789abcdef''"

lemma hex_digit_in: "hex_digit n \<in> hex_chars"
proof -
  have "n mod 16 < length ''0123456789abcdef''" by simp
  then show ?thesis unfolding hex_digit_def hex_chars_def by (rule nth_mem)
qed

lemma hex_digit_inject: "m < 16 \<Longrightarrow> n < 16 \<Longrightarrow> hex_digit m = hex_digit n \<longleftrightarrow> m = n"
proof -
  have "distinct ''0123456789abcdef''" by simp
  then show "m < 16 \<Longrightarrow> n < 16 \<Longrightarrow> ?thesis"
    by (simp only: hex_digit_def mod_less nth_eq_iff_index_eq) (simp add: nth_eq_iff_index_eq)
qed

lemma hex_byte_inject: "hex_byte c = hex_byte d \<longleftrightarrow> c = d"
proof
  assume "hex_byte c = hex_byte d"
  then have "(of_char c :: nat) div 16 = of_char d div 16" "(of_char c :: nat) mod 16 = of_char d mod 16"
    by (auto simp: hex_byte_def Let_def hex_digit_inject div_less_iff_less_mult)
  then have "(of_char c :: nat) = of_char d" by (metis div_mult_mod_eq)
  then show "c = d" by simp
qed simp

lemma hex_byte_length: "length (hex_byte c) = 2"
  by (simp add: hex_byte_def Let_def)

lemma EncodeToString_inject: "EncodeToString s = EncodeToString t \<longleftrightarrow> s = t"
proof
  show "EncodeToString s = EncodeToString t \<Longrightarrow> s = t"
  proof (induction s arbitrary: t)
    case Nil
    then show ?case by (cases t) (auto simp: EncodeToString_def hex_byte_def Let_def)
  next
    case (Cons c s)
    then obtain d t' where "t = d # t'"
      by (cases t) (auto simp: EncodeToString_def hex_byte_def Let_def)
    with Cons show ?case
      by (auto simp: EncodeToString_def hex_byte_length hex_byte_inject)
  qed
qed simp

lemma EncodeToString_chars: "set (EncodeToString s) \<subseteq> hex_chars"
  by (auto simp: EncodeToString_def hex_byte_def Let_def hex_digit_in)

lemma EncodeToString_length: "length (EncodeToString s) = 2 * length s"
  by (induction s) (auto simp: EncodeToString_def hex_byte_length)

end
