(* ===== verification/Json.thy ===== *)
theory Json
  imports Sha256
begin

text \<open>
  The part of \<open>encoding/json\<close> that \<open>calculateDigest\<close> uses: \<open>json.Marshal\<close> on the values the
  program hashes (strings, 64-bit integers, string maps, byte slices, one struct). The escaping
  follows the library byte by byte, with HTML escaping on and invalid UTF-8 replaced. The main
  result is that the text determines the value as long as its strings are valid UTF-8.
\<close>

section \<open>UTF-8 runes\<close>

definition cont_byte :: "char \<Rightarrow> bool" where
  "cont_byte c = (let n = (of_char c :: nat) in 128 \<le> n \<and> n < 192)"

definition between :: "nat \<Rightarrow> char \<Rightarrow> nat \<Rightarrow> bool" where
  "between lo c hi = (lo \<le> of_char c \<and> of_char c \<le> hi)"

text \<open>The first byte of a rune determines its length (4 for bytes that start no rune).\<close>

definition first_len :: "char \<Rightarrow> nat" where
  "first_len a = (if between 0 a 127 then 1 else if between 194 a 223 then 2
                  else if between 224 a 239 then 3 else 4)"

text \<open>The byte sequences that encode one rune, with the library's accept ranges.\<close>

fun is_rune :: "string \<Rightarrow> bool" where
  "is_rune [a] = between 0 a 127"
| "is_rune [a, b] = (between 194 a 223 \<and> cont_byte b)"
| "is_rune [a, b, c] = (between 224 a 239 \<and> cont_byte c \<and>
     between (if of_char a = (224::nat) then 160 else 128) b
             (if of_char a = (237::nat) then 159 else 191))"
| "is_rune [a, b, c, d] = (between 240 a 244 \<and> cont_byte c \<and> cont_byte d \<and>
     between (if of_char a = (240::nat) then 144 else 128) b
             (if of_char a = (244::nat) then 143 else 191))"
| "is_rune _ = False"

text \<open>Size of the rune at the start of a byte string; 0 if the bytes are not valid UTF-8.\<close>

definition rune_size :: "string \<Rightarrow> nat" where
  "rune_size s = (case s of [] \<Rightarrow> 0 | a # _ \<Rightarrow>
     if is_rune (take (first_len a) s) then first_len a else 0)"

lemma is_rune_length: "is_rune u \<Longrightarrow> length u = first_len (hd u)"
  by (induction u rule: is_rune.induct) (simp_all add: first_len_def between_def)

lemma is_rune_nonempty: "is_rune u \<Longrightarrow> u \<noteq> []"
  by (cases u) auto

lemma rune_size_append: "is_rune u \<Longrightarrow> rune_size (u @ r) = length u"
  using is_rune_length [of u, symmetric] is_rune_nonempty [of u]
  by (cases u) (simp_all add: rune_size_def)

lemma is_rune_take: "rune_size s \<noteq> 0 \<Longrightarrow> is_rune (take (rune_size s) s)"
  by (cases s) (auto simp: rune_size_def split: if_splits)

lemma is_rune_ascii: "is_rune (a # u) \<Longrightarrow> between 0 a 127 \<Longrightarrow> u = []"
  using is_rune_length [of "a # u"] by (simp add: first_len_def)

lemma is_rune_single: "is_rune [a] \<longleftrightarrow> between 0 a 127"
  by simp

section \<open>String literals\<close>

abbreviation quote_char :: char where "quote_char \<equiv> CHR 0x22"
abbreviation backslash :: char where "backslash \<equiv> CHR 0x5C"

text \<open>\<open>htmlSafeSet\<close>: printable ASCII other than the quote, the backslash and \<open><\<close>, \<open>>\<close>, \<open>&\<close>.\<close>

definition html_safe :: "char \<Rightarrow> bool" where
  "html_safe c \<longleftrightarrow> between 32 c 127 \<and> c \<notin> {quote_char, backslash, CHR ''<'', CHR ''>'', CHR ''&''}"

definition esc_ascii :: "char \<Rightarrow> string" where
  "esc_ascii c =
     (if html_safe c then [c]
      else if c = backslash \<or> c = quote_char then [backslash, c]
      else if c = CHR 0x08 then [backslash, CHR ''b'']
      else if c = CHR 0x0C then [backslash, CHR ''f'']
      else if c = CHR 0x0A then [backslash, CHR ''n'']
      else if c = CHR 0x0D then [backslash, CHR ''r'']
      else if c = CHR 0x09 then [backslash, CHR ''t'']
      else backslash # ''u00'' @ hex_byte c)"

definition line_sep :: string where "line_sep = [CHR 0xE2, CHR 0x80, CHR 0xA8]"
definition par_sep :: string where "par_sep = [CHR 0xE2, CHR 0x80, CHR 0xA9]"

definition esc_rune :: "string \<Rightarrow> string" where
  "esc_rune u =
     (if between 0 (hd u) 127 then esc_ascii (hd u)
      else if u = line_sep then backslash # ''u2028''
      else if u = par_sep then backslash # ''u2029''
      else u)"

function esc_string :: "string \<Rightarrow> string" where
  "esc_string [] = []"
| "esc_string (a # r) =
     (if rune_size (a # r) = 0 then (backslash # ''ufffd'') @ esc_string r
      else esc_rune (take (rune_size (a # r)) (a # r)) @ esc_string (drop (rune_size (a # r)) (a # r)))"
  by pat_completeness auto
termination
  by (relation "measure length") (auto simp: Suc_le_eq)

function valid_utf8 :: "string \<Rightarrow> bool" where
  "valid_utf8 [] = True"
| "valid_utf8 (a # r) =
     (rune_size (a # r) \<noteq> 0 \<and> valid_utf8 (if rune_size (a # r) = 0 then [] else drop (rune_size (a # r)) (a # r)))"
  by pat_completeness auto
termination
  by (relation "measure length") (auto simp: Suc_le_eq)

declare esc_string.simps(2) [simp del] valid_utf8.simps(2) [simp del]

definition json_string :: "string \<Rightarrow> string" where
  "json_string s = quote_char # esc_string s @ [quote_char]"

lemma esc_string_rune: "is_rune u \<Longrightarrow> esc_string (u @ r) = esc_rune u @ esc_string r"
  using rune_size_append [of u r] is_rune_nonempty [of u]
  by (cases u) (auto simp: esc_string.simps(2))

lemma valid_utf8_rune: "is_rune u \<Longrightarrow> valid_utf8 (u @ r) \<longleftrightarrow> valid_utf8 r"
  using rune_size_append [of u r] is_rune_nonempty [of u]
  by (cases u) (auto simp: valid_utf8.simps(2))

text \<open>A valid string is a sequence of runes: an induction principle.\<close>

lemma valid_utf8_induct [consumes 1, case_names Nil Rune]:
  assumes "valid_utf8 s" and "P []"
    and "\<And>u r. is_rune u \<Longrightarrow> valid_utf8 r \<Longrightarrow> P r \<Longrightarrow> P (u @ r)"
  shows "P s"
  using assms(1)
proof (induction s rule: valid_utf8.induct)
  case 1
  show ?case by (rule assms(2))
next
  case (2 a r)
  let ?k = "rune_size (a # r)"
  from "2.prems" have k: "?k \<noteq> 0" and v: "valid_utf8 (drop ?k (a # r))"
    by (auto simp: valid_utf8.simps(2))
  from k have "is_rune (take ?k (a # r))" by (rule is_rune_take)
  moreover from 2 k v have "P (drop ?k (a # r))" by simp
  ultimately have "P (take ?k (a # r) @ drop ?k (a # r))" using v by (intro assms(3))
  then show ?case by simp
qed

lemma valid_utf8_cases [consumes 1, case_names Nil Rune]:
  assumes "valid_utf8 s"
  obtains "s = []" | u r where "s = u @ r" "is_rune u" "valid_utf8 r"
  using assms by (induction s rule: valid_utf8_induct) auto

section \<open>Decoding one escaped rune\<close>

definition hex_val :: "char \<Rightarrow> nat" where
  "hex_val c = (let n = of_char c in if n < 58 then n - 48 else n - 87)"

lemma hex_val_digit: "n < 16 \<Longrightarrow> hex_val (hex_digit n) = n"
proof -
  assume "n < 16"
  then have "n \<in> {0, 1, 2, 3, 4, 5, 6, 7, 8, 9, 10, 11, 12, 13, 14, 15}" by (simp, arith)
  then show ?thesis by (auto simp: hex_digit_def hex_val_def)
qed

fun dec_rune :: "string \<Rightarrow> (string \<times> string) option" where
  "dec_rune [] = None"
| "dec_rune (c # r) =
     (if c = backslash then
        (case r of
           [] \<Rightarrow> None
         | e # t \<Rightarrow>
           if e = CHR ''u'' then
             (if t ! 0 = CHR ''0'' then Some ([char_of (16 * hex_val (t ! 2) + hex_val (t ! 3))], drop 4 t)
              else Some (if t ! 3 = CHR ''8'' then line_sep else par_sep, drop 4 t))
           else if e = CHR ''b'' then Some ([CHR 0x08], t)
           else if e = CHR ''f'' then Some ([CHR 0x0C], t)
           else if e = CHR ''n'' then Some ([CHR 0x0A], t)
           else if e = CHR ''r'' then Some ([CHR 0x0D], t)
           else if e = CHR ''t'' then Some ([CHR 0x09], t)
           else Some ([e], t))
      else Some (take (first_len c) (c # r), drop (first_len c) (c # r)))"

lemma dec_rune_ascii: "between 0 c 127 \<Longrightarrow> dec_rune (esc_ascii c @ r) = Some ([c], r)"
  by (auto simp: esc_ascii_def html_safe_def first_len_def between_def hex_byte_def Let_def
      hex_val_digit div_less_iff_less_mult mult.commute)

lemma dec_rune_esc:
  assumes "is_rune u"
  shows "dec_rune (esc_rune u @ r) = Some (u, r)"
proof (cases u)
  case Nil
  with assms show ?thesis by simp
next
  case (Cons a v)
  show ?thesis
  proof (cases "between 0 a 127")
    case True
    with Cons assms is_rune_ascii have "u = [a]" by simp
    with True show ?thesis by (simp add: esc_rune_def dec_rune_ascii)
  next
    case False
    then have "a \<noteq> backslash" by (auto simp: between_def)
    then have "dec_rune (u @ r) = Some (u, r)"
      using Cons is_rune_length [OF assms, symmetric] by simp
    with False Cons show ?thesis
      by (auto simp: esc_rune_def line_sep_def par_sep_def)
  qed
qed

lemma esc_rune_not_quote: "is_rune u \<Longrightarrow> \<exists>c t. esc_rune u = c # t \<and> c \<noteq> quote_char"
  by (cases u) (auto simp: esc_rune_def esc_ascii_def html_safe_def between_def)

lemma esc_string_inject:
  assumes "valid_utf8 s" "valid_utf8 t"
    and "esc_string s @ quote_char # r = esc_string t @ quote_char # r'"
  shows "s = t \<and> r = r'"
  using assms
proof (induction s arbitrary: t rule: valid_utf8_induct)
  case Nil
  from \<open>valid_utf8 t\<close> show ?case
  proof (cases t rule: valid_utf8_cases)
    case (Rune u v)
    with Nil esc_rune_not_quote [of u] show ?thesis by (auto simp: esc_string_rune)
  qed (use Nil in simp)
next
  case (Rune u s)
  from \<open>valid_utf8 t\<close> show ?case
  proof (cases t rule: valid_utf8_cases)
    case Nil
    with Rune esc_rune_not_quote [of u] show ?thesis by (auto simp: esc_string_rune)
  next
    case (Rune u' t')
    let ?x = "esc_string s @ quote_char # r" and ?y = "esc_string t' @ quote_char # r'"
    from Rune \<open>is_rune u\<close> \<open>esc_string (u @ s) @ _ = _\<close>
    have "esc_rune u @ ?x = esc_rune u' @ ?y" by (simp add: esc_string_rune)
    then have "dec_rune (esc_rune u @ ?x) = dec_rune (esc_rune u' @ ?y)" by simp
    then have "u = u' \<and> ?x = ?y" using Rune(2) \<open>is_rune u\<close> by (simp add: dec_rune_esc)
    with Rune Rune.IH [of t'] show ?thesis by simp
  qed
qed

lemma json_string_inject:
  "valid_utf8 s \<Longrightarrow> valid_utf8 t \<Longrightarrow> json_string s @ r = json_string t @ r' \<Longrightarrow> s = t \<and> r = r'"
  by (rule esc_string_inject) (auto simp: json_string_def)

lemma valid_utf8_ascii: "(\<And>c. c \<in> set s \<Longrightarrow> between 0 c 127) \<Longrightarrow> valid_utf8 s"
proof (induction s)
  case (Cons a s)
  then show ?case using valid_utf8_rune [of "[a]" s] by (simp add: is_rune_single)
qed simp

section \<open>Byte slices\<close>

text \<open>\<open>json.Marshal\<close> writes a byte slice as a standard base64 string.\<close>

definition b64_alphabet :: string where
  "b64_alphabet = ''ABCDEFGHIJKLMNOPQRSTUVWXYZabcdefghijklmnopqrstuvwxyz0123456789+/''"

definition b64_char :: "nat \<Rightarrow> char" where
  "b64_char n = b64_alphabet ! (n mod 64)"

fun base64 :: "string \<Rightarrow> string" where
  "base64 [] = []"
| "base64 [a] = (let n = of_char a in [b64_char (n div 4), b64_char (n mod 4 * 16), CHR ''='', CHR ''=''])"
| "base64 [a, b] = (let n = of_char a; m = of_char b in
     [b64_char (n div 4), b64_char (n mod 4 * 16 + m div 16), b64_char (m mod 16 * 4), CHR ''=''])"
| "base64 (a # b # c # r) = (let n = of_char a; m = of_char b; k = of_char c in
     [b64_char (n div 4), b64_char (n mod 4 * 16 + m div 16), b64_char (m mod 16 * 4 + k div 64),
      b64_char (k mod 64)]) @ base64 r"

lemma b64_char_inject: "m < 64 \<Longrightarrow> n < 64 \<Longrightarrow> b64_char m = b64_char n \<longleftrightarrow> m = n"
proof -
  have "distinct b64_alphabet" "length b64_alphabet = 64" by (simp_all add: b64_alphabet_def)
  then show "m < 64 \<Longrightarrow> n < 64 \<Longrightarrow> ?thesis"
    by (simp add: b64_char_def nth_eq_iff_index_eq)
qed

lemma b64_char_in: "b64_char n \<in> set b64_alphabet"
proof -
  have "n mod 64 < length b64_alphabet" by (simp add: b64_alphabet_def)
  then show ?thesis unfolding b64_char_def by (rule nth_mem)
qed

lemma b64_char_not_pad [simp]: "b64_char n \<noteq> CHR ''=''" "CHR ''='' \<noteq> b64_char n"
proof -
  have "CHR ''='' \<notin> set b64_alphabet" by (simp add: b64_alphabet_def)
  with b64_char_in [of n] show "b64_char n \<noteq> CHR ''=''" by metis
  then show "CHR ''='' \<noteq> b64_char n" by metis
qed

lemma of_char_eqI: "(of_char a :: nat) div k = of_char b div k \<Longrightarrow> (of_char a :: nat) mod k = of_char b mod k \<Longrightarrow> a = b"
proof -
  assume "(of_char a :: nat) div k = of_char b div k" "(of_char a :: nat) mod k = of_char b mod k"
  then have "(of_char a :: nat) = of_char b" by (metis div_mult_mod_eq)
  then show "a = b" by simp
qed

lemma of_char_div_bounds:
  "(of_char c :: nat) div 4 < 64" "(of_char c :: nat) div 16 < 16" "(of_char c :: nat) div 64 < 4"
proof -
  have "(of_char c :: nat) < 256" by (rule nat_of_char_less_256)
  then show "(of_char c :: nat) div 4 < 64" "(of_char c :: nat) div 16 < 16" "(of_char c :: nat) div 64 < 4"
    by (simp_all add: div_less_iff_less_mult)
qed

lemma mix_inject:
  fixes a b c d k :: nat
  assumes "b < k" "d < k" "a * k + b = c * k + d"
  shows "a = c \<and> b = d"
proof -
  have "a = (a * k + b) div k" using assms(1) by simp
  also have "\<dots> = (c * k + d) div k" by (simp only: assms(3))
  also have "\<dots> = c" using assms(2) by simp
  finally show ?thesis using assms(3) by simp
qed

lemma b64_quad_bounds:
  "(of_char a :: nat) mod 4 * 16 + of_char b div 16 < 64"
  "(of_char a :: nat) mod 16 * 4 + of_char b div 64 < 64"
  "(of_char a :: nat) mod 4 * 16 < 64" "(of_char a :: nat) mod 16 * 4 < 64"
proof -
  have "(of_char a :: nat) mod 4 < 4" "(of_char a :: nat) mod 16 < 16" by simp_all
  with of_char_div_bounds [of b] show
    "(of_char a :: nat) mod 4 * 16 + of_char b div 16 < 64"
    "(of_char a :: nat) mod 16 * 4 + of_char b div 64 < 64"
    "(of_char a :: nat) mod 4 * 16 < 64" "(of_char a :: nat) mod 16 * 4 < 64"
    by linarith+
qed

lemmas b64_inject = b64_char_inject [OF of_char_div_bounds(1) of_char_div_bounds(1)]
  b64_char_inject [OF b64_quad_bounds(1) b64_quad_bounds(1)]
  b64_char_inject [OF b64_quad_bounds(2) b64_quad_bounds(2)]
  b64_char_inject [OF b64_quad_bounds(3) b64_quad_bounds(3)]
  b64_char_inject [OF b64_quad_bounds(4) b64_quad_bounds(4)]

lemma base64_inject: "base64 s = base64 t \<longleftrightarrow> s = t"
proof
  show "base64 s = base64 t \<Longrightarrow> s = t"
  proof (induction s arbitrary: t rule: base64.induct)
    case 1
    then show ?case by (cases t rule: base64.cases) (auto simp: Let_def)
  next
    case (2 a)
    then show ?case
      by (cases t rule: base64.cases) (auto simp: Let_def b64_inject intro!: of_char_eqI [of _ 4])
  next
    case (3 a b)
    show ?case
    proof (cases t rule: base64.cases)
      case (3 x y)
      with "3.prems" have h: "(of_char a :: nat) div 4 = of_char x div 4"
        "(of_char a :: nat) mod 4 * 16 + of_char b div 16 = of_char x mod 4 * 16 + of_char y div 16"
        "(of_char b :: nat) mod 16 = of_char y mod 16"
        by (auto simp: Let_def b64_inject)
      note m = mix_inject [OF of_char_div_bounds(2) of_char_div_bounds(2) h(2)]
      have "a = x" using h(1) m by (intro of_char_eqI [of _ 4]) auto
      moreover have "b = y" using h(3) m by (intro of_char_eqI [of _ 16]) auto
      ultimately show ?thesis using 3 by simp
    qed (use "3.prems" in \<open>auto simp: Let_def\<close>)
  next
    case (4 a b c r)
    show ?case
    proof (cases t rule: base64.cases)
      case (4 x y z q)
      have k: "b64_char (of_char c mod 64) = b64_char (of_char z mod 64) \<longleftrightarrow>
          (of_char c :: nat) mod 64 = of_char z mod 64"
        by (rule b64_char_inject) simp_all
      from "4.prems" 4 k have h: "r = q" "(of_char a :: nat) div 4 = of_char x div 4"
        "(of_char a :: nat) mod 4 * 16 + of_char b div 16 = of_char x mod 4 * 16 + of_char y div 16"
        "(of_char b :: nat) mod 16 * 4 + of_char c div 64 = of_char y mod 16 * 4 + of_char z div 64"
        "(of_char c :: nat) mod 64 = of_char z mod 64"
        using "4.IH" by (auto simp: Let_def b64_inject)
      note m = mix_inject [OF of_char_div_bounds(2) of_char_div_bounds(2) h(3)]
        mix_inject [OF of_char_div_bounds(3) of_char_div_bounds(3) h(4)]
      have "a = x" using h(2) m by (intro of_char_eqI [of _ 4]) auto
      moreover have "b = y" using m by (intro of_char_eqI [of _ 16]) auto
      moreover have "c = z" using h(5) m by (intro of_char_eqI [of _ 64]) auto
      ultimately show ?thesis using 4 h(1) by simp
    qed (use "4.prems" in \<open>auto simp: Let_def\<close>)
  qed
qed simp

section \<open>Values and Marshal\<close>

lemma b64_char_ascii [simp]: "between 0 (b64_char n) 127"
proof -
  have "length b64_alphabet = 64" by (simp add: b64_alphabet_def)
  then have "b64_char n \<in> set b64_alphabet" by (simp add: b64_char_def)
  moreover have "list_all (\<lambda>c. between 0 c 127) b64_alphabet" by (simp add: b64_alphabet_def between_def)
  ultimately show ?thesis by (simp add: list_all_iff)
qed

lemma base64_utf8 [simp]: "valid_utf8 (base64 s)"
proof (rule valid_utf8_ascii)
  have pad: "between 0 (CHR ''='') 127" by (simp add: between_def)
  show "between 0 c 127" if "c \<in> set (base64 s)" for c
    using that pad by (induction s rule: base64.induct) (auto simp: Let_def)
qed

text \<open>
  The values handed to \<open>json.Marshal\<close>. Object fields are listed in the order in which they are
  written: declaration order for structs, key order for maps (\<open>json_map\<close>).
\<close>

datatype jval =
    JNull
  | JString string
  | JInt int
  | JArr "jval list"
  | JObj "(string \<times> jval) list"

definition json_map :: "(string \<times> jval) list \<Rightarrow> jval" where
  "json_map m = JObj (sort_key fst m)"

fun marshal :: "jval \<Rightarrow> string" and marshal_elems :: "jval list \<Rightarrow> string"
  and marshal_fields :: "(string \<times> jval) list \<Rightarrow> string" where
  "marshal JNull = ''null''"
| "marshal (JString s) = json_string s"
| "marshal (JInt i) = int_str i"
| "marshal (JArr vs) = CHR ''['' # marshal_elems vs"
| "marshal (JObj kvs) = CHR ''{'' # marshal_fields kvs"
| "marshal_elems [] = '']''"
| "marshal_elems [v] = marshal v @ '']''"
| "marshal_elems (v # vs) = marshal v @ '','' @ marshal_elems vs"
| "marshal_fields [] = ''}''"
| "marshal_fields [(k, v)] = json_string k @ '':'' @ marshal v @ ''}''"
| "marshal_fields ((k, v) # kvs) = json_string k @ '':'' @ marshal v @ '','' @ marshal_fields kvs"

fun jval_ok :: "jval \<Rightarrow> bool" where
  "jval_ok JNull = True"
| "jval_ok (JString s) = valid_utf8 s"
| "jval_ok (JInt i) = True"
| "jval_ok (JArr vs) = (\<forall>v \<in> set vs. jval_ok v)"
| "jval_ok (JObj kvs) = (\<forall>kv \<in> set kvs. valid_utf8 (fst kv) \<and> jval_ok (snd kv))"

definition ends_number :: "string \<Rightarrow> bool" where
  "ends_number r \<longleftrightarrow> r = [] \<or> hd r \<notin> insert (CHR ''-'') digits"

text \<open>The first character of a marshalled value tells its kind.\<close>

definition kind_char :: "jval \<Rightarrow> char \<Rightarrow> bool" where
  "kind_char v c = (case v of
     JNull \<Rightarrow> c = CHR ''n''
   | JString _ \<Rightarrow> c = quote_char
   | JInt _ \<Rightarrow> c \<in> insert (CHR ''-'') digits
   | JArr _ \<Rightarrow> c = CHR ''[''
   | JObj _ \<Rightarrow> c = CHR ''{'')"

lemma marshal_head: "\<exists>c t. marshal v = c # t \<and> kind_char v c"
proof (cases v)
  case (JInt i)
  with int_str_chars [of i] show ?thesis by (cases "int_str i") (auto simp: kind_char_def)
qed (auto simp: kind_char_def json_string_def)

lemma kind_char_same:
  assumes "kind_char v c" "kind_char w c"
  shows "(\<exists>i j. v = JInt i \<and> w = JInt j) \<or> (\<exists>s t. v = JString s \<and> w = JString t) \<or>
    (\<exists>s t. v = JArr s \<and> w = JArr t) \<or> (\<exists>s t. v = JObj s \<and> w = JObj t) \<or> (v = JNull \<and> w = JNull)"
proof -
  have "quote_char \<notin> digits" "CHR ''n'' \<notin> digits" "CHR ''['' \<notin> digits" "CHR ''{'' \<notin> digits"
    by (simp_all add: digits_def)
  with assms show ?thesis by (auto simp: kind_char_def split: jval.splits)
qed

lemma marshal_not_bracket: "marshal v @ r \<noteq> CHR '']'' # s"
proof
  assume "marshal v @ r = CHR '']'' # s"
  with marshal_head [of v] have "kind_char v (CHR '']'')" by auto
  then show False by (auto simp: kind_char_def digits_def split: jval.splits)
qed

lemma ends_number_simps [simp]:
  "ends_number (CHR '','' # r)" "ends_number (CHR '']'' # r)" "ends_number (CHR ''}'' # r)" "ends_number []"
  by (simp_all add: ends_number_def digits_def)

lemma marshal_elems_Cons: "marshal_elems (v # vs) = marshal v @ (if vs = [] then '']'' else '','' @ marshal_elems vs)"
  by (cases vs) auto

lemma marshal_fields_Cons: "marshal_fields ((k, v) # kvs) =
    json_string k @ '':'' @ marshal v @ (if kvs = [] then ''}'' else '','' @ marshal_fields kvs)"
  by (cases kvs) auto

lemma marshal_elems_inject:
  assumes "marshal_elems vs @ r' = marshal_elems ws @ s'"
    and "\<forall>v \<in> set vs. jval_ok v" "\<forall>v \<in> set ws. jval_ok v"
    and "\<And>x w r s. x \<in> set vs \<Longrightarrow> jval_ok x \<Longrightarrow> jval_ok w \<Longrightarrow> ends_number r \<Longrightarrow>
      ends_number s \<Longrightarrow> marshal x @ r = marshal w @ s \<Longrightarrow> x = w \<and> r = s"
  shows "vs = ws \<and> r' = s'"
  using assms
proof (induction vs arbitrary: ws)
  case Nil
  show ?case
  proof (cases ws)
    case (Cons w' ws')
    with Nil have "marshal w' @ (if ws' = [] then '']'' else '','' @ marshal_elems ws') @ s' = CHR '']'' # r'"
      by (simp add: marshal_elems_Cons)
    then show ?thesis using marshal_not_bracket by metis
  qed (use Nil in simp)
next
  case (Cons v vs)
  note CP = Cons.prems and CI = Cons.IH
  show ?case
  proof (cases ws)
    case Nil
    with CP(1) have "marshal v @ (if vs = [] then '']'' else '','' @ marshal_elems vs) @ r' = CHR '']'' # s'"
      by (simp add: marshal_elems_Cons)
    then show ?thesis using marshal_not_bracket by metis
  next
    case (Cons w' ws')
    let ?R = "\<lambda>xs r. (if xs = [] then '']'' else '','' @ marshal_elems xs) @ r"
    from CP(1) Cons have e: "marshal v @ ?R vs r' = marshal w' @ ?R ws' s'"
      by (simp add: marshal_elems_Cons)
    have vw: "v = w'" "?R vs r' = ?R ws' s'"
      using CP(4) [OF _ _ _ _ _ e] CP(2,3) Cons by simp_all
    show ?thesis
    proof (cases "vs = [] \<or> ws' = []")
      case True
      with vw Cons show ?thesis by (auto split: if_splits)
    next
      case False
      with vw have e': "marshal_elems vs @ r' = marshal_elems ws' @ s'" by simp
      have "vs = ws' \<and> r' = s'"
      proof (rule CI [OF e'])
        show "\<And>x w r s. x \<in> set vs \<Longrightarrow> jval_ok x \<Longrightarrow> jval_ok w \<Longrightarrow> ends_number r \<Longrightarrow>
            ends_number s \<Longrightarrow> marshal x @ r = marshal w @ s \<Longrightarrow> x = w \<and> r = s"
          by (rule CP(4)) simp_all
      qed (use CP(2,3) Cons in simp_all)
      with vw Cons show ?thesis by simp
    qed
  qed
qed

lemma marshal_fields_inject:
  assumes "marshal_fields vs @ r' = marshal_fields ws @ s'"
    and "\<forall>kv \<in> set vs. valid_utf8 (fst kv) \<and> jval_ok (snd kv)"
    and "\<forall>kv \<in> set ws. valid_utf8 (fst kv) \<and> jval_ok (snd kv)"
    and "\<And>x y w r s. x \<in> set vs \<Longrightarrow> y \<in> Basic_BNFs.snds x \<Longrightarrow> jval_ok y \<Longrightarrow> jval_ok w \<Longrightarrow>
      ends_number r \<Longrightarrow> ends_number s \<Longrightarrow> marshal y @ r = marshal w @ s \<Longrightarrow> y = w \<and> r = s"
  shows "vs = ws \<and> r' = s'"
  using assms
proof (induction vs arbitrary: ws)
  case Nil
  then show ?case by (cases ws) (auto simp: marshal_fields_Cons json_string_def)
next
  case (Cons kv vs)
  note CP = Cons.prems and CI = Cons.IH
  obtain k v where kv: "kv = (k, v)" by (cases kv)
  show ?case
  proof (cases ws)
    case Nil
    with CP(1) kv show ?thesis by (simp add: marshal_fields_Cons json_string_def)
  next
    case (Cons kw ws')
    obtain l w' where kw: "kw = (l, w')" by (cases kw)
    let ?R = "\<lambda>xs r. (if xs = [] then ''}'' else '','' @ marshal_fields xs) @ r"
    from CP(1) Cons kv kw have "json_string k @ CHR '':'' # marshal v @ ?R vs r' =
        json_string l @ CHR '':'' # marshal w' @ ?R ws' s'"
      by (simp add: marshal_fields_Cons)
    moreover have "valid_utf8 k" "valid_utf8 l" using CP(2,3) Cons kv kw by simp_all
    ultimately have "k = l \<and> CHR '':'' # marshal v @ ?R vs r' = CHR '':'' # marshal w' @ ?R ws' s'"
      by (intro json_string_inject)
    then have kl: "k = l" and e: "marshal v @ ?R vs r' = marshal w' @ ?R ws' s'" by simp_all
    have vw: "v = w'" "?R vs r' = ?R ws' s'"
      using CP(4) [OF _ _ _ _ _ _ e, of kv] CP(2,3) Cons kv kw by simp_all
    show ?thesis
    proof (cases "vs = [] \<or> ws' = []")
      case True
      with vw Cons kl kv kw show ?thesis by (auto split: if_splits)
    next
      case False
      with vw have e': "marshal_fields vs @ r' = marshal_fields ws' @ s'" by simp
      have "vs = ws' \<and> r' = s'"
      proof (rule CI [OF e'])
        show "\<And>x y w r s. x \<in> set vs \<Longrightarrow> y \<in> Basic_BNFs.snds x \<Longrightarrow> jval_ok y \<Longrightarrow> jval_ok w \<Longrightarrow>
            ends_number r \<Longrightarrow> ends_number s \<Longrightarrow> marshal y @ r = marshal w @ s \<Longrightarrow> y = w \<and> r = s"
          by (rule CP(4)) simp_all
      qed (use CP(2,3) Cons in simp_all)
      with vw Cons kl kv kw show ?thesis by simp
    qed
  qed
qed

lemma marshal_inject_gen:
  "jval_ok v \<Longrightarrow> jval_ok w \<Longrightarrow> ends_number r \<Longrightarrow> ends_number s \<Longrightarrow>
     marshal v @ r = marshal w @ s \<Longrightarrow> v = w \<and> r = s"
proof (induction v arbitrary: w r s)
  case JNull
  obtain c t where "marshal w = c # t" "kind_char w c" using marshal_head by blast
  with JNull have "kind_char JNull c" by (simp add: kind_char_def)
  with \<open>kind_char w c\<close> kind_char_same have "w = JNull" by blast
  with JNull show ?case by simp
next
  case (JString x)
  obtain c t where c: "marshal w = c # t" "kind_char w c" using marshal_head by blast
  with JString have "kind_char (JString x) c" by (simp add: kind_char_def json_string_def)
  with c kind_char_same [of "JString x" c w] obtain y where "w = JString y" by blast
  with JString show ?case using json_string_inject [of x y r s] by simp
next
  case (JInt x)
  obtain c t where c: "marshal (JInt x) = c # t" "kind_char (JInt x) c" using marshal_head by blast
  obtain d u where d: "marshal w = d # u" "kind_char w d" using marshal_head by blast
  from c d JInt.prems have "c = d" by (metis append_Cons list.inject)
  with c d kind_char_same [of "JInt x" c w] obtain y where y: "w = JInt y" by blast
  with JInt have "int_str x = int_str y \<and> r = s"
    using int_str_chars
    by (intro span_inject [where D = "insert (CHR ''-'') digits"]) (auto simp: ends_number_def)
  with y show ?case by simp
next
  case (JArr vs)
  obtain d u where d: "marshal w = d # u" "kind_char w d" using marshal_head by blast
  with JArr have "kind_char (JArr vs) d" by (simp add: kind_char_def)
  with d kind_char_same [of "JArr vs" d w] obtain ws where w: "w = JArr ws" by blast
  have "vs = ws \<and> r = s"
  proof (rule marshal_elems_inject)
    show "marshal_elems vs @ r = marshal_elems ws @ s" using JArr.prems w by simp
  qed (use JArr.prems w in simp, use JArr.prems w in simp, rule JArr.IH)
  with w show ?case by simp
next
  case (JObj vs)
  obtain d u where d: "marshal w = d # u" "kind_char w d" using marshal_head by blast
  with JObj have "kind_char (JObj vs) d" by (simp add: kind_char_def)
  with d kind_char_same [of "JObj vs" d w] obtain ws where w: "w = JObj ws" by blast
  have "vs = ws \<and> r = s"
  proof (rule marshal_fields_inject)
    show "marshal_fields vs @ r = marshal_fields ws @ s" using JObj.prems w by simp
  qed (use JObj.prems w in simp, use JObj.prems w in simp, rule JObj.IH)
  with w show ?case by simp
qed

lemma marshal_inject: "jval_ok v \<Longrightarrow> jval_ok w \<Longrightarrow> marshal v = marshal w \<longleftrightarrow> v = w"
  using marshal_inject_gen [of v w "[]" "[]"] by auto

end
