(* ===== verification/ApiTypes.thy ===== *)
theory ApiTypes
  imports Json
begin

text \<open>
  The API types of \<open>api/v1alpha1/types.go\<close> and \<open>api/v1alpha1/util.go\<close>: components, blueprints,
  blueprint versions, source references, and the pure methods on them. Times are nanoseconds
  since Go's zero time, pointers are options, Go maps are association lists in iteration order.
  Embedded structs of the component-operator-runtime library are represented by the fields the
  program reads; \<open>rsReady\<close> is the value that the library's \<open>Status.IsReady()\<close> returns.
\<close>

section \<open>Digests\<close>

definition sha256hex :: "string \<Rightarrow> string" where
  "sha256hex data = EncodeToString (Sum256 data)"

text \<open>A variadic call without arguments passes a nil slice, which is marshalled as \<open>null\<close>.\<close>

definition digest_text :: "jval list \<Rightarrow> string" where
  "digest_text values = marshal (if values = [] then JNull else JArr values)"

definition calculateDigest :: "jval list \<Rightarrow> string" where
  "calculateDigest values = sha256hex (digest_text values)"

text \<open>Two concrete texts collide if SHA-256 does not tell them apart.\<close>

definition sha_collision :: "string \<Rightarrow> string \<Rightarrow> bool" where
  "sha_collision s t \<longleftrightarrow> s \<noteq> t \<and> Sum256 s = Sum256 t"

lemma sha256hex_length: "length (sha256hex s) = 64"
  by (simp add: sha256hex_def EncodeToString_length length_Sum256)

lemma sha256hex_chars: "set (sha256hex s) \<subseteq> hex_chars"
  by (simp add: sha256hex_def EncodeToString_chars)

lemma calculateDigest_length: "length (calculateDigest vs) = 64"
  by (simp add: calculateDigest_def sha256hex_length)

lemma calculateDigest_nonempty [simp]: "calculateDigest vs \<noteq> []" "[] \<noteq> calculateDigest vs"
  using calculateDigest_length [of vs] by auto

lemma calculateDigest_chars: "set (calculateDigest vs) \<subseteq> hex_chars"
  by (simp add: calculateDigest_def sha256hex_chars)

lemma hex_chars_plain: "CHR ''/'' \<notin> hex_chars" "CHR ''-'' \<notin> hex_chars" "CHR 0x0A \<notin> hex_chars"
  by (simp_all add: hex_chars_def)

lemma calculateDigest_plain:
  "CHR ''/'' \<notin> set (calculateDigest vs)" "CHR ''-'' \<notin> set (calculateDigest vs)"
  "CHR 0x0A \<notin> set (calculateDigest vs)"
  using calculateDigest_chars [of vs] hex_chars_plain by auto

lemma digest_text_inject:
  assumes "\<forall>v \<in> set vs. jval_ok v" "\<forall>w \<in> set ws. jval_ok w"
  shows "digest_text vs = digest_text ws \<longleftrightarrow> vs = ws"
  using assms marshal_inject [of "if vs = [] then JNull else JArr vs" "if ws = [] then JNull else JArr ws"]
  by (auto simp: digest_text_def split: if_splits)

lemma calculateDigest_eq_iff:
  assumes "\<forall>v \<in> set vs. jval_ok v" "\<forall>w \<in> set ws. jval_ok w"
  shows "calculateDigest vs = calculateDigest ws \<longleftrightarrow>
    vs = ws \<or> sha_collision (digest_text vs) (digest_text ws)"
  using digest_text_inject [OF assms]
  by (auto simp: calculateDigest_def sha256hex_def EncodeToString_inject sha_collision_def)

section \<open>Names and references\<close>

record NamespacedName =
  nnNamespace :: string
  nnName :: string

definition WithDefaultNamespace :: "NamespacedName \<Rightarrow> string \<Rightarrow> NamespacedName" where
  "WithDefaultNamespace n namespace =
     (if nnNamespace n = [] then n\<lparr>nnNamespace := namespace\<rparr> else n)"

definition NamespacedName_String :: "NamespacedName \<Rightarrow> string" where
  "NamespacedName_String n =
     (if nnNamespace n = [] then nnName n else nnNamespace n @ ''/'' @ nnName n)"

type_synonym BlueprintReference = NamespacedName
type_synonym FluxGitRepositoryReference = NamespacedName
type_synonym FluxOciRepositoryReference = NamespacedName
type_synonym FluxBucketReference = NamespacedName
type_synonym FluxHelmChartReference = NamespacedName
type_synonym Dependency = NamespacedName

record HttpRepository =
  hrUrl :: string
  hrDigestHeader :: string
  hrRevisionHeader :: string

record Artifact =
  artUrl :: string
  artDigest :: string
  artRevision :: string

definition emptyArtifact :: Artifact where
  "emptyArtifact = \<lparr>artUrl = [], artDigest = [], artRevision = []\<rparr>"

record SourceReference =
  srBlueprint :: "BlueprintReference option"
  srHttpRepository :: "HttpRepository option"
  srFluxGitRepository :: "FluxGitRepositoryReference option"
  srFluxOciRepository :: "FluxOciRepositoryReference option"
  srFluxBucket :: "FluxBucketReference option"
  srFluxHelmChart :: "FluxHelmChartReference option"
  srArtifact :: Artifact
  srDigest :: string
  srLoaded :: bool

definition equal_ptr :: "'a option \<Rightarrow> 'a option \<Rightarrow> bool" where
  "equal_ptr x y \<longleftrightarrow> x = None \<and> y = None \<or> x \<noteq> None \<and> y \<noteq> None \<and> the x = the y"

definition SourceReference_Digest :: "SourceReference \<Rightarrow> string" where
  "SourceReference_Digest r = (if \<not> srLoaded r then [] else srDigest r)"

definition SourceReference_Artifact :: "SourceReference \<Rightarrow> Artifact result" where
  "SourceReference_Artifact r =
     (if \<not> srLoaded r then Inl (Panic ''access to unloaded reference'') else Inr (srArtifact r))"

definition SourceReference_Equals :: "SourceReference \<Rightarrow> SourceReference \<Rightarrow> bool" where
  "SourceReference_Equals r s \<longleftrightarrow>
     equal_ptr (srBlueprint r) (srBlueprint s) \<and>
     equal_ptr (srHttpRepository r) (srHttpRepository s) \<and>
     equal_ptr (srFluxGitRepository r) (srFluxGitRepository s) \<and>
     equal_ptr (srFluxOciRepository r) (srFluxOciRepository s) \<and>
     equal_ptr (srFluxBucket r) (srFluxBucket s) \<and>
     equal_ptr (srFluxHelmChart r) (srFluxHelmChart s)"

section \<open>Components\<close>

record ObjectMeta =
  omNamespace :: string
  omName :: string
  omUID :: string
  omGeneration :: int
  omDeletionTimestamp :: "int option"
  omFinalizers :: "string list"
  omAnnotations :: "(string \<times> string) list"

text \<open>\<open>metav1.Time.IsZero\<close>, defined on nil pointers too.\<close>

definition IsZero :: "int option \<Rightarrow> bool" where
  "IsZero t = (case t of None \<Rightarrow> True | Some n \<Rightarrow> n = 0)"

record SecretReference =
  secName :: string
  secData :: "(string \<times> string) list"

record SecretKeyReference =
  skName :: string
  skValue :: string

record Decryption =
  decProvider :: string
  decSecretRef :: SecretReference

type_synonym KustomizePatch = string
type_synonym KustomizeImage = string

record PostBuild =
  pbSubstitute :: "(string \<times> string) list"
  pbSubstituteFrom :: "SecretReference list"
  pbPatches :: "KustomizePatch list"
  pbImages :: "KustomizeImage list"

record ComponentSpec =
  spRequeueInterval :: "int option"
  spTimeout :: "int option"
  spSourceRef :: SourceReference
  spDigest :: string
  spRevision :: string
  spSticky :: bool
  spPath :: string
  spValues :: "string option"
  spValuesFrom :: "SecretKeyReference list"
  spDecryption :: "Decryption option"
  spPostBuild :: "PostBuild option"
  spDependencies :: "Dependency list"

record RuntimeStatus =
  rsObservedGeneration :: int
  rsLastObservedAt :: "int option"
  rsProcessingSince :: "int option"
  rsReady :: bool

record SourceReferenceStatus =
  srsArtifact :: Artifact
  srsDigest :: string

record ComponentStatus =
  csStatus :: RuntimeStatus
  csSourceRef :: "SourceReferenceStatus option"
  csLastAttemptedDigest :: string
  csLastAttemptedRevision :: string
  csLastAppliedDigest :: string
  csLastAppliedRevision :: string

record Component =
  coMeta :: ObjectMeta
  coSpec :: ComponentSpec
  coStatus :: ComponentStatus

abbreviation coNamespace :: "Component \<Rightarrow> string" where "coNamespace c \<equiv> omNamespace (coMeta c)"
abbreviation coName :: "Component \<Rightarrow> string" where "coName c \<equiv> omName (coMeta c)"
abbreviation coSourceRef :: "Component \<Rightarrow> SourceReference" where
  "coSourceRef c \<equiv> spSourceRef (coSpec c)"

definition Component_NamespacedName :: "Component \<Rightarrow> NamespacedName" where
  "Component_NamespacedName c = \<lparr>nnNamespace = coNamespace c, nnName = coName c\<rparr>"

definition Component_IsReady :: "Component \<Rightarrow> bool" where
  "Component_IsReady c \<longleftrightarrow>
     rsObservedGeneration (csStatus (coStatus c)) = omGeneration (coMeta c) \<and> rsReady (csStatus (coStatus c))"

definition GetSpec :: "Component \<Rightarrow> ComponentSpec" where
  "GetSpec c = coSpec c"

definition GetStatus :: "Component \<Rightarrow> RuntimeStatus" where
  "GetStatus c = csStatus (coStatus c)"

definition GroupVersion_Group :: string where "GroupVersion_Group = ''core.cs.sap.com''"
definition GroupVersion_Version :: string where "GroupVersion_Version = ''v1alpha1''"

text \<open>The converter of the runtime library is a parameter; its error is a panic with the error's text.\<close>

definition ToUnstructured :: "(ComponentSpec \<Rightarrow> error + 'u) \<Rightarrow> (error \<Rightarrow> string) \<Rightarrow> ComponentSpec \<Rightarrow> 'u result" where
  "ToUnstructured converter message s =
     (case converter s of Inl err \<Rightarrow> Inl (Panic (message err)) | Inr unstructured \<Rightarrow> Inr unstructured)"

text \<open>The annotation keys of the flux event library are parameters.\<close>

definition GetEventAnnotations ::
  "string \<Rightarrow> string \<Rightarrow> Component \<Rightarrow> string \<Rightarrow> (string \<times> string) list" where
  "GetEventAnnotations MetaRevisionKey MetaTokenKey c componentDigest =
     (let annotations = [];
          annotations = AList.update (GroupVersion_Group @ ''/'' @ MetaRevisionKey)
                          (csLastAttemptedRevision (coStatus c)) annotations;
          annotations = AList.update (GroupVersion_Group @ ''/'' @ MetaTokenKey)
                          (omUID (coMeta c) @ '':'' @ componentDigest) annotations
      in annotations)"

text \<open>\<open>time.Time.Sub\<close> saturates at the bounds of a 64-bit duration.\<close>

definition time_Sub :: "int \<Rightarrow> int \<Rightarrow> int" where
  "time_Sub t u = max (- (2 ^ 63)) (min (2 ^ 63 - 1) (t - u))"

text \<open>
  \<open>isComponentProcessing\<close> dereferences \<open>status.lastObservedAt\<close> once \<open>status.processingSince\<close>
  is set; a nil pointer there is a panic.
\<close>

definition processing_timeout :: "ComponentSpec \<Rightarrow> int" where
  "processing_timeout spec =
     (let timeout = 10 * minute;
          timeout = (case spRequeueInterval spec of None \<Rightarrow> timeout | Some d \<Rightarrow> d);
          timeout = (case spTimeout spec of None \<Rightarrow> timeout | Some d \<Rightarrow> d)
      in timeout)"

definition isComponentProcessing :: "Component \<Rightarrow> bool result" where
  "isComponentProcessing c =
     (case rsProcessingSince (csStatus (coStatus c)) of
        None \<Rightarrow> Inr False
      | Some since \<Rightarrow>
        (case rsLastObservedAt (csStatus (coStatus c)) of
           None \<Rightarrow> Inl (Panic ''nil pointer dereference'')
         | Some observed \<Rightarrow> Inr (time_Sub observed since < processing_timeout (coSpec c))))"

section \<open>Blueprints\<close>

record BlueprintSpec =
  bsFiles :: "(string \<times> string) list"

record Blueprint =
  bpMeta :: ObjectMeta
  bpSpec :: BlueprintSpec

record BlueprintVersionSpec =
  bvsBlueprint :: string
  bvsDigest :: string
  bvsRevision :: string
  bvsSpec :: BlueprintSpec

record BlueprintVersion =
  bvKind :: string
  bvGroupVersion :: "string \<times> string"
  bvMeta :: ObjectMeta
  bvSpec :: BlueprintVersionSpec

abbreviation bpNamespace :: "Blueprint \<Rightarrow> string" where "bpNamespace b \<equiv> omNamespace (bpMeta b)"
abbreviation bpName :: "Blueprint \<Rightarrow> string" where "bpName b \<equiv> omName (bpMeta b)"
abbreviation bvNamespace :: "BlueprintVersion \<Rightarrow> string" where "bvNamespace v \<equiv> omNamespace (bvMeta v)"
abbreviation bvName :: "BlueprintVersion \<Rightarrow> string" where "bvName v \<equiv> omName (bvMeta v)"

definition KindComponent :: string where "KindComponent = ''Component''"
definition KindBlueprint :: string where "KindBlueprint = ''Blueprint''"
definition KindBlueprintVersion :: string where "KindBlueprintVersion = ''BlueprintVersion''"

text \<open>The JSON form of \<open>BlueprintSpec\<close>: an empty \<open>files\<close> map is omitted.\<close>

definition BlueprintSpec_json :: "BlueprintSpec \<Rightarrow> jval" where
  "BlueprintSpec_json s =
     JObj (if bsFiles s = [] then []
           else [(''files'', json_map (map (\<lambda>(k, v). (k, JString v)) (bsFiles s)))])"

definition GetDigest :: "Blueprint \<Rightarrow> string" where
  "GetDigest b = calculateDigest [BlueprintSpec_json (bpSpec b)]"

definition GetRevision :: "Blueprint \<Rightarrow> string" where
  "GetRevision b = ''generation:'' @ int_str (omGeneration (bpMeta b))"

section \<open>Facts about names\<close>

lemma WithDefaultNamespace_simps [simp]:
  "nnName (WithDefaultNamespace n ns) = nnName n"
  "nnNamespace (WithDefaultNamespace n ns) = (if nnNamespace n = [] then ns else nnNamespace n)"
  by (simp_all add: WithDefaultNamespace_def)

lemma WithDefaultNamespace_idem [simp]:
  "WithDefaultNamespace (WithDefaultNamespace n ns) ns' = (if ns = [] then WithDefaultNamespace n ns' else WithDefaultNamespace n ns)"
  by (simp add: WithDefaultNamespace_def)

text \<open>Kubernetes names and namespaces contain no slash, so the printed form is unambiguous.\<close>

definition plain_name :: "NamespacedName \<Rightarrow> bool" where
  "plain_name n \<longleftrightarrow> nnNamespace n \<noteq> [] \<and> CHR ''/'' \<notin> set (nnNamespace n)"

lemma String_inject:
  "plain_name m \<Longrightarrow> plain_name n \<Longrightarrow>
     NamespacedName_String m = NamespacedName_String n \<longleftrightarrow> nnNamespace m = nnNamespace n \<and> nnName m = nnName n"
  by (simp add: plain_name_def NamespacedName_String_def sep_inject)

lemma equal_ptr_iff [simp]: "equal_ptr x y \<longleftrightarrow> x = y"
  by (cases x; cases y) (auto simp: equal_ptr_def)

lemma Equals_iff:
  "SourceReference_Equals r s \<longleftrightarrow>
     srBlueprint r = srBlueprint s \<and> srHttpRepository r = srHttpRepository s \<and>
     srFluxGitRepository r = srFluxGitRepository s \<and> srFluxOciRepository r = srFluxOciRepository s \<and>
     srFluxBucket r = srFluxBucket s \<and> srFluxHelmChart r = srFluxHelmChart s"
  by (simp add: SourceReference_Equals_def)

section \<open>Content addressing of blueprints\<close>

definition files_ok :: "BlueprintSpec \<Rightarrow> bool" where
  "files_ok s \<longleftrightarrow> distinct_keys (bsFiles s) \<and> (\<forall>(k, v) \<in> set (bsFiles s). valid_utf8 k \<and> valid_utf8 v)"

lemma ascii_files [simp]: "valid_utf8 ''files''"
  by (rule valid_utf8_ascii) (auto simp: between_def)

lemma json_map_strings_ok:
  "(\<forall>(k, v) \<in> set m. valid_utf8 k \<and> valid_utf8 v) \<Longrightarrow> jval_ok (json_map (map (\<lambda>(k, v). (k, JString v)) m))"
  by (auto simp: json_map_def)

lemma BlueprintSpec_json_ok: "files_ok s \<Longrightarrow> jval_ok (BlueprintSpec_json s)"
  using json_map_strings_ok by (auto simp: BlueprintSpec_json_def files_ok_def)

lemma json_map_strings_eq:
  assumes "distinct_keys m" "distinct_keys n"
  shows "json_map (map (\<lambda>(k, v). (k, JString v)) m) = json_map (map (\<lambda>(k, v). (k, JString v)) n)
    \<longleftrightarrow> map_of m = map_of n"
proof -
  let ?f = "map (\<lambda>(k, v). (k, JString v))"
  have k: "map fst (?f m) = map fst m" for m by (induction m) auto
  have d: "distinct_keys (?f m)" "distinct_keys (?f n)" using assms by (simp_all only: k)
  have mo: "map_of (?f m) = map_option JString \<circ> map_of m" for m
    by (rule ext, induction m) auto
  have inj: "map_of (?f m) = map_of (?f n) \<longleftrightarrow> map_of m = map_of n"
    unfolding mo by (metis (no_types, lifting) comp_apply ext jval.inject(1) option.inj_map_strong)
  show ?thesis
  proof
    assume "json_map (?f m) = json_map (?f n)"
    then have "map_of (sort_key fst (?f m)) = map_of (sort_key fst (?f n))" by (simp add: json_map_def)
    with d inj show "map_of m = map_of n" by simp
  next
    assume "map_of m = map_of n"
    with d inj have "sort_key fst (?f m) = sort_key fst (?f n)" by (intro sort_key_unique) simp_all
    then show "json_map (?f m) = json_map (?f n)" by (simp add: json_map_def)
  qed
qed

lemma BlueprintSpec_json_eq:
  assumes "files_ok s" "files_ok t"
  shows "BlueprintSpec_json s = BlueprintSpec_json t \<longleftrightarrow> map_of (bsFiles s) = map_of (bsFiles t)"
proof -
  let ?f = "map (\<lambda>(k, v). (k, JString v))"
  have e: "map_of (bsFiles s) = map_of [] \<longleftrightarrow> bsFiles s = []" "map_of [] = map_of (bsFiles t) \<longleftrightarrow> bsFiles t = []"
    by (auto simp: eq_commute [of Map.empty])
  show ?thesis
    using json_map_strings_eq [of "bsFiles s" "bsFiles t"] assms e
    by (auto simp: BlueprintSpec_json_def files_ok_def)
qed

end
