(* ===== verification/Informers.thy ===== *)
theory Informers
  imports ApiTypes
begin

text \<open>
  The shared informer factory of the generated client (\<open>pkg/client/informers/externalversions\<close>): one informer
  per type, created on demand, started at most once, and a shutdown that waits for the started ones. The
  informers themselves, their goroutines and the clients they call are library code: an informer is the
  configuration it is created with, a goroutine the informer and context it runs, and a call to the API the
  resource, namespace, context and options it is made with.
\<close>

section \<open>Informers\<close>

text \<open>The Go type of an object, as \<open>reflect.TypeOf\<close> tells it.\<close>

datatype obj_type = ComponentType | BlueprintType | BlueprintVersionType | OtherType string

text \<open>A call on the typed client; without a context of its own it uses \<open>context.Background()\<close>.\<close>

datatype ('o, 'x) api_call =
    ListCall obj_type string "'x option" 'o
  | WatchCall obj_type string "'x option" 'o

record ('o, 'x) ListWatch =
  lwListFunc :: "'o \<Rightarrow> ('o, 'x) api_call"
  lwWatchFunc :: "'o \<Rightarrow> ('o, 'x) api_call"
  lwListWithContextFunc :: "'x \<Rightarrow> 'o \<Rightarrow> ('o, 'x) api_call"
  lwWatchFuncWithContext :: "'x \<Rightarrow> 'o \<Rightarrow> ('o, 'x) api_call"

record GroupVersionResource =
  gvrGroup :: string
  gvrVersion :: string
  gvrResource :: string

text \<open>\<open>informerName.WithResource(gvr)\<close>, which also works on a nil name.\<close>

type_synonym 'n metrics_identifier = "'n option \<times> GroupVersionResource"

record ('c, 'o, 'x, 'n, 'e) SharedIndexInformer =
  siClient :: 'c
  siListWatch :: "('o, 'x) ListWatch"
  siExample :: obj_type
  siResyncPeriod :: int
  siIndexers :: "string list"
  siIdentifier :: "'n metrics_identifier"
  siTransform :: "'e option"

type_synonym 'o TweakListOptionsFunc = "'o \<Rightarrow> 'o"

record ('o, 'n) InformerOptions =
  ioResyncPeriod :: int
  ioIndexers :: "string list"
  ioInformerName :: "'n option"
  ioTweakListOptions :: "'o TweakListOptionsFunc option"

definition tweaked :: "'o TweakListOptionsFunc option \<Rightarrow> 'o \<Rightarrow> 'o" where
  "tweaked tweakListOptions opts = (case tweakListOptions of None \<Rightarrow> opts | Some tweak \<Rightarrow> tweak opts)"

definition NamespaceIndex :: string where "NamespaceIndex = ''namespace''"

text \<open>\<open>SchemeGroupVersion.WithResource\<close>.\<close>

definition WithResource :: "string \<Rightarrow> GroupVersionResource" where
  "WithResource resource =
     \<lparr>gvrGroup = GroupVersion_Group, gvrVersion = GroupVersion_Version, gvrResource = resource\<rparr>"

definition SetTransform :: "'e \<Rightarrow> ('c, 'o, 'x, 'n, 'e) SharedIndexInformer \<Rightarrow> ('c, 'o, 'x, 'n, 'e) SharedIndexInformer" where
  "SetTransform transform informer = informer\<lparr>siTransform := Some transform\<rparr>"

section \<open>The informers of the three types\<close>

definition NewComponentInformerWithOptions ::
  "'c \<Rightarrow> string \<Rightarrow> ('o, 'n) InformerOptions \<Rightarrow> ('c, 'o, 'x, 'n, 'e) SharedIndexInformer" where
  "NewComponentInformerWithOptions client namespace options =
     (let gvr = \<lparr>gvrGroup = ''core.cs.sap.com'', gvrVersion = ''v1alpha1'', gvrResource = ''components''\<rparr>;
          ident = (ioInformerName options, gvr);
          tweakListOptions = ioTweakListOptions options
      in \<lparr>siClient = client,
          siListWatch =
            \<lparr>lwListFunc = (\<lambda>opts. ListCall ComponentType namespace None (tweaked tweakListOptions opts)),
             lwWatchFunc = (\<lambda>opts. WatchCall ComponentType namespace None (tweaked tweakListOptions opts)),
             lwListWithContextFunc = (\<lambda>ctx opts. ListCall ComponentType namespace (Some ctx) (tweaked tweakListOptions opts)),
             lwWatchFuncWithContext = (\<lambda>ctx opts. WatchCall ComponentType namespace (Some ctx) (tweaked tweakListOptions opts))\<rparr>,
          siExample = ComponentType,
          siResyncPeriod = ioResyncPeriod options,
          siIndexers = ioIndexers options,
          siIdentifier = ident,
          siTransform = None\<rparr>)"

definition NewComponentInformer ::
  "'c \<Rightarrow> string \<Rightarrow> int \<Rightarrow> string list \<Rightarrow> ('c, 'o, 'x, 'n, 'e) SharedIndexInformer" where
  "NewComponentInformer client namespace resyncPeriod indexers =
     NewComponentInformerWithOptions client namespace
       \<lparr>ioResyncPeriod = resyncPeriod, ioIndexers = indexers, ioInformerName = None, ioTweakListOptions = None\<rparr>"

definition NewFilteredComponentInformer ::
  "'c \<Rightarrow> string \<Rightarrow> int \<Rightarrow> string list \<Rightarrow> 'o TweakListOptionsFunc option \<Rightarrow> ('c, 'o, 'x, 'n, 'e) SharedIndexInformer" where
  "NewFilteredComponentInformer client namespace resyncPeriod indexers tweakListOptions =
     NewComponentInformerWithOptions client namespace
       \<lparr>ioResyncPeriod = resyncPeriod, ioIndexers = indexers, ioInformerName = None, ioTweakListOptions = tweakListOptions\<rparr>"

definition NewBlueprintInformerWithOptions ::
  "'c \<Rightarrow> string \<Rightarrow> ('o, 'n) InformerOptions \<Rightarrow> ('c, 'o, 'x, 'n, 'e) SharedIndexInformer" where
  "NewBlueprintInformerWithOptions client namespace options =
     (let gvr = \<lparr>gvrGroup = ''core.cs.sap.com'', gvrVersion = ''v1alpha1'', gvrResource = ''blueprints''\<rparr>;
          ident = (ioInformerName options, gvr);
          tweakListOptions = ioTweakListOptions options
      in \<lparr>siClient = client,
          siListWatch =
            \<lparr>lwListFunc = (\<lambda>opts. ListCall BlueprintType namespace None (tweaked tweakListOptions opts)),
             lwWatchFunc = (\<lambda>opts. WatchCall BlueprintType namespace None (tweaked tweakListOptions opts)),
             lwListWithContextFunc = (\<lambda>ctx opts. ListCall BlueprintType namespace (Some ctx) (tweaked tweakListOptions opts)),
             lwWatchFuncWithContext = (\<lambda>ctx opts. WatchCall BlueprintType namespace (Some ctx) (tweaked tweakListOptions opts))\<rparr>,
          siExample = BlueprintType,
          siResyncPeriod = ioResyncPeriod options,
          siIndexers = ioIndexers options,
          siIdentifier = ident,
          siTransform = None\<rparr>)"

definition NewBlueprintInformer ::
  "'c \<Rightarrow> string \<Rightarrow> int \<Rightarrow> string list \<Rightarrow> ('c, 'o, 'x, 'n, 'e) SharedIndexInformer" where
  "NewBlueprintInformer client namespace resyncPeriod indexers =
     NewBlueprintInformerWithOptions client namespace
       \<lparr>ioResyncPeriod = resyncPeriod, ioIndexers = indexers, ioInformerName = None, ioTweakListOptions = None\<rparr>"

definition NewFilteredBlueprintInformer ::
  "'c \<Rightarrow> string \<Rightarrow> int \<Rightarrow> string list \<Rightarrow> 'o TweakListOptionsFunc option \<Rightarrow> ('c, 'o, 'x, 'n, 'e) SharedIndexInformer" where
  "NewFilteredBlueprintInformer client namespace resyncPeriod indexers tweakListOptions =
     NewBlueprintInformerWithOptions client namespace
       \<lparr>ioResyncPeriod = resyncPeriod, ioIndexers = indexers, ioInformerName = None, ioTweakListOptions = tweakListOptions\<rparr>"

definition NewBlueprintVersionInformerWithOptions ::
  "'c \<Rightarrow> string \<Rightarrow> ('o, 'n) InformerOptions \<Rightarrow> ('c, 'o, 'x, 'n, 'e) SharedIndexInformer" where
  "NewBlueprintVersionInformerWithOptions client namespace options =
     (let gvr = \<lparr>gvrGroup = ''core.cs.sap.com'', gvrVersion = ''v1alpha1'', gvrResource = ''blueprintversions''\<rparr>;
          ident = (ioInformerName options, gvr);
          tweakListOptions = ioTweakListOptions options
      in \<lparr>siClient = client,
          siListWatch =
            \<lparr>lwListFunc = (\<lambda>opts. ListCall BlueprintVersionType namespace None (tweaked tweakListOptions opts)),
             lwWatchFunc = (\<lambda>opts. WatchCall BlueprintVersionType namespace None (tweaked tweakListOptions opts)),
             lwListWithContextFunc = (\<lambda>ctx opts. ListCall BlueprintVersionType namespace (Some ctx) (tweaked tweakListOptions opts)),
             lwWatchFuncWithContext = (\<lambda>ctx opts. WatchCall BlueprintVersionType namespace (Some ctx) (tweaked tweakListOptions opts))\<rparr>,
          siExample = BlueprintVersionType,
          siResyncPeriod = ioResyncPeriod options,
          siIndexers = ioIndexers options,
          siIdentifier = ident,
          siTransform = None\<rparr>)"

definition NewBlueprintVersionInformer ::
  "'c \<Rightarrow> string \<Rightarrow> int \<Rightarrow> string list \<Rightarrow> ('c, 'o, 'x, 'n, 'e) SharedIndexInformer" where
  "NewBlueprintVersionInformer client namespace resyncPeriod indexers =
     NewBlueprintVersionInformerWithOptions client namespace
       \<lparr>ioResyncPeriod = resyncPeriod, ioIndexers = indexers, ioInformerName = None, ioTweakListOptions = None\<rparr>"

definition NewFilteredBlueprintVersionInformer ::
  "'c \<Rightarrow> string \<Rightarrow> int \<Rightarrow> string list \<Rightarrow> 'o TweakListOptionsFunc option \<Rightarrow> ('c, 'o, 'x, 'n, 'e) SharedIndexInformer" where
  "NewFilteredBlueprintVersionInformer client namespace resyncPeriod indexers tweakListOptions =
     NewBlueprintVersionInformerWithOptions client namespace
       \<lparr>ioResyncPeriod = resyncPeriod, ioIndexers = indexers, ioInformerName = None, ioTweakListOptions = tweakListOptions\<rparr>"

section \<open>The factory\<close>

text \<open>
  Go maps are association lists. \<open>sfRunning\<close> stands for the wait group: the goroutines that have been
  started and not ended, each with the type, informer and context it runs; \<open>sfReleased\<close> says whether the
  informer name has been released.
\<close>

record ('c, 'o, 'x, 'n, 'e) sharedInformerFactory =
  sfClient :: 'c
  sfNamespace :: string
  sfTweakListOptions :: "'o TweakListOptionsFunc option"
  sfDefaultResync :: int
  sfCustomResync :: "(obj_type \<times> int) list"
  sfTransform :: "'e option"
  sfInformerName :: "'n option"
  sfInformers :: "(obj_type \<times> ('c, 'o, 'x, 'n, 'e) SharedIndexInformer) list"
  sfStartedInformers :: "(obj_type \<times> bool) list"
  sfRunning :: "(obj_type \<times> ('c, 'o, 'x, 'n, 'e) SharedIndexInformer \<times> 'x) list"
  sfShuttingDown :: bool
  sfReleased :: bool

type_synonym ('c, 'o, 'x, 'n, 'e) SharedInformerOption =
  "('c, 'o, 'x, 'n, 'e) sharedInformerFactory \<Rightarrow> ('c, 'o, 'x, 'n, 'e) sharedInformerFactory"

fun WithCustomResyncConfig :: "(obj_type \<times> int) list \<Rightarrow> ('c, 'o, 'x, 'n, 'e) SharedInformerOption" where
  "WithCustomResyncConfig [] factory = factory"
| "WithCustomResyncConfig ((k, v) # resyncConfig) factory =
     WithCustomResyncConfig resyncConfig
       (factory\<lparr>sfCustomResync := AList.update k v (sfCustomResync factory)\<rparr>)"

definition WithTweakListOptions :: "'o TweakListOptionsFunc option \<Rightarrow> ('c, 'o, 'x, 'n, 'e) SharedInformerOption" where
  "WithTweakListOptions tweakListOptions factory = factory\<lparr>sfTweakListOptions := tweakListOptions\<rparr>"

definition WithNamespace :: "string \<Rightarrow> ('c, 'o, 'x, 'n, 'e) SharedInformerOption" where
  "WithNamespace namespace factory = factory\<lparr>sfNamespace := namespace\<rparr>"

definition WithTransform :: "'e option \<Rightarrow> ('c, 'o, 'x, 'n, 'e) SharedInformerOption" where
  "WithTransform transform factory = factory\<lparr>sfTransform := transform\<rparr>"

definition WithInformerName :: "'n option \<Rightarrow> ('c, 'o, 'x, 'n, 'e) SharedInformerOption" where
  "WithInformerName informerName factory = factory\<lparr>sfInformerName := informerName\<rparr>"

definition InformerName :: "('c, 'o, 'x, 'n, 'e) sharedInformerFactory \<Rightarrow> 'n option" where
  "InformerName f = sfInformerName f"

definition NewSharedInformerFactoryWithOptions ::
  "'c \<Rightarrow> int \<Rightarrow> ('c, 'o, 'x, 'n, 'e) SharedInformerOption list \<Rightarrow> ('c, 'o, 'x, 'n, 'e) sharedInformerFactory" where
  "NewSharedInformerFactoryWithOptions client defaultResync options =
     fold (\<lambda>opt factory. opt factory) options
       \<lparr>sfClient = client, sfNamespace = [], sfTweakListOptions = None, sfDefaultResync = defaultResync,
        sfCustomResync = [], sfTransform = None, sfInformerName = None, sfInformers = [],
        sfStartedInformers = [], sfRunning = [], sfShuttingDown = False, sfReleased = False\<rparr>"

definition NewSharedInformerFactory :: "'c \<Rightarrow> int \<Rightarrow> ('c, 'o, 'x, 'n, 'e) sharedInformerFactory" where
  "NewSharedInformerFactory client defaultResync = NewSharedInformerFactoryWithOptions client defaultResync []"

definition NewFilteredSharedInformerFactory ::
  "'c \<Rightarrow> int \<Rightarrow> string \<Rightarrow> 'o TweakListOptionsFunc option \<Rightarrow> ('c, 'o, 'x, 'n, 'e) sharedInformerFactory" where
  "NewFilteredSharedInformerFactory client defaultResync namespace tweakListOptions =
     NewSharedInformerFactoryWithOptions client defaultResync
       [WithNamespace namespace, WithTweakListOptions tweakListOptions]"

definition started :: "('c, 'o, 'x, 'n, 'e) sharedInformerFactory \<Rightarrow> obj_type \<Rightarrow> bool" where
  "started f t = (case map_of (sfStartedInformers f) t of None \<Rightarrow> False | Some b \<Rightarrow> b)"

text \<open>The body of the loop of \<open>StartWithContext\<close>, for one entry of the informers' map.\<close>

definition start_informer ::
  "'x \<Rightarrow> obj_type \<times> ('c, 'o, 'x, 'n, 'e) SharedIndexInformer \<Rightarrow> ('c, 'o, 'x, 'n, 'e) SharedInformerOption" where
  "start_informer ctx entry f = (case entry of (informerType, informer) \<Rightarrow>
     if \<not> started f informerType
     then f\<lparr>sfRunning := sfRunning f @ [(informerType, informer, ctx)],
            sfStartedInformers := AList.update informerType True (sfStartedInformers f)\<rparr>
     else f)"

definition StartWithContext :: "'x \<Rightarrow> ('c, 'o, 'x, 'n, 'e) SharedInformerOption" where
  "StartWithContext ctx f = (if sfShuttingDown f then f else fold (start_informer ctx) (sfInformers f) f)"

definition Start_channel :: "('s \<Rightarrow> 'x) \<Rightarrow> 's \<Rightarrow> ('c, 'o, 'x, 'n, 'e) SharedInformerOption" where
  "Start_channel ContextForChannel stopCh f = StartWithContext (ContextForChannel stopCh) f"

text \<open>
  \<open>Shutdown\<close> sets the flag under the lock, then waits without it until no goroutine is left, and then
  releases the informer name. Its two halves; the second one blocks as long as something runs.
\<close>

definition Shutdown_begin :: "('c, 'o, 'x, 'n, 'e) SharedInformerOption" where
  "Shutdown_begin f = f\<lparr>sfShuttingDown := True\<rparr>"

definition Shutdown_end :: "('c, 'o, 'x, 'n, 'e) sharedInformerFactory \<Rightarrow> ('c, 'o, 'x, 'n, 'e) sharedInformerFactory option" where
  "Shutdown_end f = (if sfRunning f = [] then Some (f\<lparr>sfReleased := True\<rparr>) else None)"

record 'err SyncResult =
  syncSynced :: "(obj_type \<times> bool) list"
  syncErr :: "'err option"

text \<open>
  The informers that are started when it is called, and whether each has synced after the wait ended;
  \<open>HasSynced\<close> and the cause of the context's end are the library's.
\<close>

definition WaitForCacheSyncWithContext ::
  "(('c, 'o, 'x, 'n, 'e) SharedIndexInformer \<Rightarrow> bool) \<Rightarrow> ('x \<Rightarrow> 'err) \<Rightarrow> 'x \<Rightarrow>
     ('c, 'o, 'x, 'n, 'e) sharedInformerFactory \<Rightarrow> 'err SyncResult" where
  "WaitForCacheSyncWithContext HasSynced Cause ctx f =
     (let informers = filter (\<lambda>(informerType, informer). started f informerType) (sfInformers f);
          synced = map (\<lambda>(informerType, informer). (informerType, HasSynced informer)) informers;
          failed = list_ex (\<lambda>(informerType, informer). \<not> HasSynced informer) informers
      in \<lparr>syncSynced = synced, syncErr = (if failed then Some (Cause ctx) else None)\<rparr>)"

definition WaitForCacheSync ::
  "(('c, 'o, 'x, 'n, 'e) SharedIndexInformer \<Rightarrow> bool) \<Rightarrow> ('x \<Rightarrow> 'err) \<Rightarrow> ('s \<Rightarrow> 'x) \<Rightarrow> 's \<Rightarrow>
     ('c, 'o, 'x, 'n, 'e) sharedInformerFactory \<Rightarrow> (obj_type \<times> bool) list" where
  "WaitForCacheSync HasSynced Cause ContextForChannel stopCh f =
     syncSynced (WaitForCacheSyncWithContext HasSynced Cause (ContextForChannel stopCh) f)"

definition InformerFor ::
  "obj_type \<Rightarrow> ('c \<Rightarrow> int \<Rightarrow> ('c, 'o, 'x, 'n, 'e) SharedIndexInformer) \<Rightarrow> ('c, 'o, 'x, 'n, 'e) sharedInformerFactory \<Rightarrow>
     ('c, 'o, 'x, 'n, 'e) sharedInformerFactory \<times> ('c, 'o, 'x, 'n, 'e) SharedIndexInformer" where
  "InformerFor informerType newFunc f =
     (case map_of (sfInformers f) informerType of
        Some informer \<Rightarrow> (f, informer)
      | None \<Rightarrow>
        (let resyncPeriod = (case map_of (sfCustomResync f) informerType of None \<Rightarrow> sfDefaultResync f | Some d \<Rightarrow> d);
             informer = newFunc (sfClient f) resyncPeriod;
             informer = (case sfTransform f of None \<Rightarrow> informer | Some transform \<Rightarrow> SetTransform transform informer)
         in (f\<lparr>sfInformers := AList.update informerType informer (sfInformers f)\<rparr>, informer)))"

section \<open>Access by type and by resource\<close>

text \<open>
  The structures between the factory and an informer of a type carry the factory, its namespace and its tweak
  function along.
\<close>

record ('c, 'o, 'x, 'n, 'e) group =
  grFactory :: "('c, 'o, 'x, 'n, 'e) sharedInformerFactory"
  grNamespace :: string
  grTweakListOptions :: "'o TweakListOptionsFunc option"

record ('c, 'o, 'x, 'n, 'e) version =
  veFactory :: "('c, 'o, 'x, 'n, 'e) sharedInformerFactory"
  veNamespace :: string
  veTweakListOptions :: "'o TweakListOptionsFunc option"

record ('c, 'o, 'x, 'n, 'e) blueprintInformer =
  biFactory :: "('c, 'o, 'x, 'n, 'e) sharedInformerFactory"
  biTweakListOptions :: "'o TweakListOptionsFunc option"
  biNamespace :: string

record ('c, 'o, 'x, 'n, 'e) blueprintVersionInformer =
  viFactory :: "('c, 'o, 'x, 'n, 'e) sharedInformerFactory"
  viTweakListOptions :: "'o TweakListOptionsFunc option"
  viNamespace :: string

record ('c, 'o, 'x, 'n, 'e) componentInformer =
  ciFactory :: "('c, 'o, 'x, 'n, 'e) sharedInformerFactory"
  ciTweakListOptions :: "'o TweakListOptionsFunc option"
  ciNamespace :: string

definition group_New ::
  "('c, 'o, 'x, 'n, 'e) sharedInformerFactory \<Rightarrow> string \<Rightarrow> 'o TweakListOptionsFunc option \<Rightarrow> ('c, 'o, 'x, 'n, 'e) group" where
  "group_New f namespace tweakListOptions =
     \<lparr>grFactory = f, grNamespace = namespace, grTweakListOptions = tweakListOptions\<rparr>"

definition version_New ::
  "('c, 'o, 'x, 'n, 'e) sharedInformerFactory \<Rightarrow> string \<Rightarrow> 'o TweakListOptionsFunc option \<Rightarrow> ('c, 'o, 'x, 'n, 'e) version" where
  "version_New f namespace tweakListOptions =
     \<lparr>veFactory = f, veNamespace = namespace, veTweakListOptions = tweakListOptions\<rparr>"

definition V1alpha1 :: "('c, 'o, 'x, 'n, 'e) group \<Rightarrow> ('c, 'o, 'x, 'n, 'e) version" where
  "V1alpha1 g = version_New (grFactory g) (grNamespace g) (grTweakListOptions g)"

definition Core :: "('c, 'o, 'x, 'n, 'e) sharedInformerFactory \<Rightarrow> ('c, 'o, 'x, 'n, 'e) group" where
  "Core f = group_New f (sfNamespace f) (sfTweakListOptions f)"

definition version_Components :: "('c, 'o, 'x, 'n, 'e) version \<Rightarrow> ('c, 'o, 'x, 'n, 'e) componentInformer" where
  "version_Components v =
     \<lparr>ciFactory = veFactory v, ciTweakListOptions = veTweakListOptions v, ciNamespace = veNamespace v\<rparr>"

definition Component_defaultInformer ::
  "('c, 'o, 'x, 'n, 'e) componentInformer \<Rightarrow> 'c \<Rightarrow> int \<Rightarrow> ('c, 'o, 'x, 'n, 'e) SharedIndexInformer" where
  "Component_defaultInformer f client resyncPeriod =
     NewComponentInformerWithOptions client (ciNamespace f)
       \<lparr>ioResyncPeriod = resyncPeriod, ioIndexers = [NamespaceIndex],
        ioInformerName = InformerName (ciFactory f), ioTweakListOptions = ciTweakListOptions f\<rparr>"

definition Component_Informer ::
  "('c, 'o, 'x, 'n, 'e) componentInformer \<Rightarrow>
     ('c, 'o, 'x, 'n, 'e) sharedInformerFactory \<times> ('c, 'o, 'x, 'n, 'e) SharedIndexInformer" where
  "Component_Informer f = InformerFor ComponentType (Component_defaultInformer f) (ciFactory f)"

definition version_Blueprints :: "('c, 'o, 'x, 'n, 'e) version \<Rightarrow> ('c, 'o, 'x, 'n, 'e) blueprintInformer" where
  "version_Blueprints v =
     \<lparr>biFactory = veFactory v, biTweakListOptions = veTweakListOptions v, biNamespace = veNamespace v\<rparr>"

definition Blueprint_defaultInformer ::
  "('c, 'o, 'x, 'n, 'e) blueprintInformer \<Rightarrow> 'c \<Rightarrow> int \<Rightarrow> ('c, 'o, 'x, 'n, 'e) SharedIndexInformer" where
  "Blueprint_defaultInformer f client resyncPeriod =
     NewBlueprintInformerWithOptions client (biNamespace f)
       \<lparr>ioResyncPeriod = resyncPeriod, ioIndexers = [NamespaceIndex],
        ioInformerName = InformerName (biFactory f), ioTweakListOptions = biTweakListOptions f\<rparr>"

definition Blueprint_Informer ::
  "('c, 'o, 'x, 'n, 'e) blueprintInformer \<Rightarrow>
     ('c, 'o, 'x, 'n, 'e) sharedInformerFactory \<times> ('c, 'o, 'x, 'n, 'e) SharedIndexInformer" where
  "Blueprint_Informer f = InformerFor BlueprintType (Blueprint_defaultInformer f) (biFactory f)"

definition version_BlueprintVersions :: "('c, 'o, 'x, 'n, 'e) version \<Rightarrow> ('c, 'o, 'x, 'n, 'e) blueprintVersionInformer" where
  "version_BlueprintVersions v =
     \<lparr>viFactory = veFactory v, viTweakListOptions = veTweakListOptions v, viNamespace = veNamespace v\<rparr>"

definition BlueprintVersion_defaultInformer ::
  "('c, 'o, 'x, 'n, 'e) blueprintVersionInformer \<Rightarrow> 'c \<Rightarrow> int \<Rightarrow> ('c, 'o, 'x, 'n, 'e) SharedIndexInformer" where
  "BlueprintVersion_defaultInformer f client resyncPeriod =
     NewBlueprintVersionInformerWithOptions client (viNamespace f)
       \<lparr>ioResyncPeriod = resyncPeriod, ioIndexers = [NamespaceIndex],
        ioInformerName = InformerName (viFactory f), ioTweakListOptions = viTweakListOptions f\<rparr>"

definition BlueprintVersion_Informer ::
  "('c, 'o, 'x, 'n, 'e) blueprintVersionInformer \<Rightarrow>
     ('c, 'o, 'x, 'n, 'e) sharedInformerFactory \<times> ('c, 'o, 'x, 'n, 'e) SharedIndexInformer" where
  "BlueprintVersion_Informer f = InformerFor BlueprintVersionType (BlueprintVersion_defaultInformer f) (viFactory f)"

text \<open>A generic informer carries the informer and the group and resource it was asked for.\<close>

record ('c, 'o, 'x, 'n, 'e) genericInformer =
  giInformer :: "('c, 'o, 'x, 'n, 'e) SharedIndexInformer"
  giResource :: "string \<times> string"

definition ForResource ::
  "GroupVersionResource \<Rightarrow> ('c, 'o, 'x, 'n, 'e) sharedInformerFactory \<Rightarrow>
     ('c, 'o, 'x, 'n, 'e) sharedInformerFactory \<times> (error + ('c, 'o, 'x, 'n, 'e) genericInformer)" where
  "ForResource resource f =
     (let generic = (\<lambda>(f', informer). (f', Inr \<lparr>giInformer = informer, giResource = (gvrGroup resource, gvrResource resource)\<rparr>)) in
      if resource = WithResource ''blueprints'' then generic (Blueprint_Informer (version_Blueprints (V1alpha1 (Core f))))
      else if resource = WithResource ''blueprintversions''
      then generic (BlueprintVersion_Informer (version_BlueprintVersions (V1alpha1 (Core f))))
      else if resource = WithResource ''components'' then generic (Component_Informer (version_Components (V1alpha1 (Core f))))
      else (f, Inl (Errorf (''no informer found for '' @ gvrGroup resource @ ''/'' @ gvrVersion resource @
             '', Resource='' @ gvrResource resource))))"

end

