(* ===== verification/Listers.thy ===== *)
theory Listers
  imports Informers
begin

text \<open>
  The listers of the generated client (\<open>pkg/client/listers/core.cs.sap.com/v1alpha1\<close>) and the \<open>Lister\<close>
  methods of the informers, which read what an informer has stored. Indexers and the generic listers on them
  (\<open>listers.ResourceIndexer\<close>) are library code and parameters: how the library builds one for a resource of
  an indexer, narrows it to a namespace, and lists and gets with it. An interface is a record of its methods,
  and an implementation is a structure with the function that gives its methods.
\<close>

section \<open>Listers of the three types\<close>

record ('i, 'r, 'g, 's, 'o) lister_lib =
  llNew :: "'i \<Rightarrow> string \<times> string \<Rightarrow> 'r"
  llNewNamespaced :: "'r \<Rightarrow> string \<Rightarrow> 'r"
  llList :: "'r \<Rightarrow> 's \<Rightarrow> error + 'o list"
  llGet :: "'r \<Rightarrow> string \<Rightarrow> error + 'o"
  llNewGenericLister :: "'i \<Rightarrow> string \<times> string \<Rightarrow> 'g"

text \<open>The function \<open>Resource\<close> of the API package: a resource with the group.\<close>

definition Resource :: "string \<Rightarrow> string \<times> string" where
  "Resource resource = (GroupVersion_Group, resource)"

subsection \<open>Components\<close>

record ('s, 'o) ComponentNamespaceLister =
  lcnList :: "'s \<Rightarrow> error + 'o list"
  lcnGet :: "string \<Rightarrow> error + 'o"

record ('s, 'o) ComponentLister =
  lcList :: "'s \<Rightarrow> error + 'o list"
  lcComponents :: "string \<Rightarrow> ('s, 'o) ComponentNamespaceLister"

record 'r componentLister =
  lcIndexer :: 'r

record 'r componentNamespaceLister =
  lcnIndexer :: 'r

definition as_ComponentNamespaceLister ::
  "('i, 'r, 'g, 's, 'o) lister_lib \<Rightarrow> 'r componentNamespaceLister \<Rightarrow> ('s, 'o) ComponentNamespaceLister" where
  "as_ComponentNamespaceLister lib s = \<lparr>lcnList = llList lib (lcnIndexer s), lcnGet = llGet lib (lcnIndexer s)\<rparr>"

definition lister_Components ::
  "('i, 'r, 'g, 's, 'o) lister_lib \<Rightarrow> 'r componentLister \<Rightarrow> string \<Rightarrow> ('s, 'o) ComponentNamespaceLister" where
  "lister_Components lib s namespace =
     as_ComponentNamespaceLister lib \<lparr>lcnIndexer = llNewNamespaced lib (lcIndexer s) namespace\<rparr>"

definition as_ComponentLister ::
  "('i, 'r, 'g, 's, 'o) lister_lib \<Rightarrow> 'r componentLister \<Rightarrow> ('s, 'o) ComponentLister" where
  "as_ComponentLister lib s = \<lparr>lcList = llList lib (lcIndexer s), lcComponents = lister_Components lib s\<rparr>"

definition NewComponentLister :: "('i, 'r, 'g, 's, 'o) lister_lib \<Rightarrow> 'i \<Rightarrow> ('s, 'o) ComponentLister" where
  "NewComponentLister lib indexer = as_ComponentLister lib \<lparr>lcIndexer = llNew lib indexer (Resource ''component'')\<rparr>"

subsection \<open>Blueprints\<close>

record ('s, 'o) BlueprintNamespaceLister =
  lbnList :: "'s \<Rightarrow> error + 'o list"
  lbnGet :: "string \<Rightarrow> error + 'o"

record ('s, 'o) BlueprintLister =
  lbList :: "'s \<Rightarrow> error + 'o list"
  lbBlueprints :: "string \<Rightarrow> ('s, 'o) BlueprintNamespaceLister"

record 'r blueprintLister =
  lbIndexer :: 'r

record 'r blueprintNamespaceLister =
  lbnIndexer :: 'r

definition as_BlueprintNamespaceLister ::
  "('i, 'r, 'g, 's, 'o) lister_lib \<Rightarrow> 'r blueprintNamespaceLister \<Rightarrow> ('s, 'o) BlueprintNamespaceLister" where
  "as_BlueprintNamespaceLister lib s = \<lparr>lbnList = llList lib (lbnIndexer s), lbnGet = llGet lib (lbnIndexer s)\<rparr>"

definition lister_Blueprints ::
  "('i, 'r, 'g, 's, 'o) lister_lib \<Rightarrow> 'r blueprintLister \<Rightarrow> string \<Rightarrow> ('s, 'o) BlueprintNamespaceLister" where
  "lister_Blueprints lib s namespace =
     as_BlueprintNamespaceLister lib \<lparr>lbnIndexer = llNewNamespaced lib (lbIndexer s) namespace\<rparr>"

definition as_BlueprintLister ::
  "('i, 'r, 'g, 's, 'o) lister_lib \<Rightarrow> 'r blueprintLister \<Rightarrow> ('s, 'o) BlueprintLister" where
  "as_BlueprintLister lib s = \<lparr>lbList = llList lib (lbIndexer s), lbBlueprints = lister_Blueprints lib s\<rparr>"

definition NewBlueprintLister :: "('i, 'r, 'g, 's, 'o) lister_lib \<Rightarrow> 'i \<Rightarrow> ('s, 'o) BlueprintLister" where
  "NewBlueprintLister lib indexer = as_BlueprintLister lib \<lparr>lbIndexer = llNew lib indexer (Resource ''blueprint'')\<rparr>"

subsection \<open>Blueprint versions\<close>

record ('s, 'o) BlueprintVersionNamespaceLister =
  lvnList :: "'s \<Rightarrow> error + 'o list"
  lvnGet :: "string \<Rightarrow> error + 'o"

record ('s, 'o) BlueprintVersionLister =
  lvList :: "'s \<Rightarrow> error + 'o list"
  lvBlueprintVersions :: "string \<Rightarrow> ('s, 'o) BlueprintVersionNamespaceLister"

record 'r blueprintVersionLister =
  lvIndexer :: 'r

record 'r blueprintVersionNamespaceLister =
  lvnIndexer :: 'r

definition as_BlueprintVersionNamespaceLister ::
  "('i, 'r, 'g, 's, 'o) lister_lib \<Rightarrow> 'r blueprintVersionNamespaceLister \<Rightarrow> ('s, 'o) BlueprintVersionNamespaceLister" where
  "as_BlueprintVersionNamespaceLister lib s = \<lparr>lvnList = llList lib (lvnIndexer s), lvnGet = llGet lib (lvnIndexer s)\<rparr>"

definition lister_BlueprintVersions ::
  "('i, 'r, 'g, 's, 'o) lister_lib \<Rightarrow> 'r blueprintVersionLister \<Rightarrow> string \<Rightarrow> ('s, 'o) BlueprintVersionNamespaceLister" where
  "lister_BlueprintVersions lib s namespace =
     as_BlueprintVersionNamespaceLister lib \<lparr>lvnIndexer = llNewNamespaced lib (lvIndexer s) namespace\<rparr>"

definition as_BlueprintVersionLister ::
  "('i, 'r, 'g, 's, 'o) lister_lib \<Rightarrow> 'r blueprintVersionLister \<Rightarrow> ('s, 'o) BlueprintVersionLister" where
  "as_BlueprintVersionLister lib s = \<lparr>lvList = llList lib (lvIndexer s), lvBlueprintVersions = lister_BlueprintVersions lib s\<rparr>"

definition NewBlueprintVersionLister :: "('i, 'r, 'g, 's, 'o) lister_lib \<Rightarrow> 'i \<Rightarrow> ('s, 'o) BlueprintVersionLister" where
  "NewBlueprintVersionLister lib indexer = as_BlueprintVersionLister lib \<lparr>lvIndexer = llNew lib indexer (Resource ''blueprintversion'')\<rparr>"

section \<open>Listers of informers\<close>

text \<open>Asking for the lister demands the informer, so that the factory may change.\<close>

definition Component_Lister ::
  "('i, 'r, 'g, 's, 'l) lister_lib \<Rightarrow> (('c, 'o, 'x, 'n, 'e) SharedIndexInformer \<Rightarrow> 'i) \<Rightarrow> ('c, 'o, 'x, 'n, 'e) componentInformer \<Rightarrow>
     ('c, 'o, 'x, 'n, 'e) sharedInformerFactory \<times> ('s, 'l) ComponentLister" where
  "Component_Lister lib GetIndexer f =
     (case Component_Informer f of (factory, informer) \<Rightarrow> (factory, NewComponentLister lib (GetIndexer informer)))"

definition Blueprint_Lister ::
  "('i, 'r, 'g, 's, 'l) lister_lib \<Rightarrow> (('c, 'o, 'x, 'n, 'e) SharedIndexInformer \<Rightarrow> 'i) \<Rightarrow> ('c, 'o, 'x, 'n, 'e) blueprintInformer \<Rightarrow>
     ('c, 'o, 'x, 'n, 'e) sharedInformerFactory \<times> ('s, 'l) BlueprintLister" where
  "Blueprint_Lister lib GetIndexer f =
     (case Blueprint_Informer f of (factory, informer) \<Rightarrow> (factory, NewBlueprintLister lib (GetIndexer informer)))"

definition BlueprintVersion_Lister ::
  "('i, 'r, 'g, 's, 'l) lister_lib \<Rightarrow> (('c, 'o, 'x, 'n, 'e) SharedIndexInformer \<Rightarrow> 'i) \<Rightarrow> ('c, 'o, 'x, 'n, 'e) blueprintVersionInformer \<Rightarrow>
     ('c, 'o, 'x, 'n, 'e) sharedInformerFactory \<times> ('s, 'l) BlueprintVersionLister" where
  "BlueprintVersion_Lister lib GetIndexer f =
     (case BlueprintVersion_Informer f of (factory, informer) \<Rightarrow> (factory, NewBlueprintVersionLister lib (GetIndexer informer)))"

definition generic_Informer :: "('c, 'o, 'x, 'n, 'e) genericInformer \<Rightarrow> ('c, 'o, 'x, 'n, 'e) SharedIndexInformer" where
  "generic_Informer f = giInformer f"

definition generic_Lister ::
  "('i, 'r, 'g, 's, 'l) lister_lib \<Rightarrow> (('c, 'o, 'x, 'n, 'e) SharedIndexInformer \<Rightarrow> 'i) \<Rightarrow> ('c, 'o, 'x, 'n, 'e) genericInformer \<Rightarrow> 'g" where
  "generic_Lister lib GetIndexer f = llNewGenericLister lib (GetIndexer (generic_Informer f)) (giResource f)"

section \<open>What listers read\<close>

text \<open>
  What the library documents of its listers, over the objects of an indexer: a lister selects from all objects, a
  namespaced one from those of its namespace, where it finds an object by name.
\<close>

definition lists_indexer ::
  "('i, 'r, 'g, 's, 'o) lister_lib \<Rightarrow> ('i \<Rightarrow> 'o list) \<Rightarrow> ('o \<Rightarrow> string) \<Rightarrow> ('o \<Rightarrow> string) \<Rightarrow> ('s \<Rightarrow> 'o \<Rightarrow> bool) \<Rightarrow> bool" where
  "lists_indexer lib objects namespace_of name_of matches \<longleftrightarrow>
     (\<forall>i r sel. llList lib (llNew lib i r) sel = Inr (filter (matches sel) (objects i))) \<and>
     (\<forall>i r ns sel. llList lib (llNewNamespaced lib (llNew lib i r) ns) sel =
        Inr (filter (\<lambda>x. namespace_of x = ns \<and> matches sel x) (objects i))) \<and>
     (\<forall>i r ns name x. llGet lib (llNewNamespaced lib (llNew lib i r) ns) name = Inr x \<longleftrightarrow>
        List.find (\<lambda>x. namespace_of x = ns \<and> name_of x = name) (objects i) = Some x)"

text \<open>
  The lister of an informer reads what that informer has stored: all of it, or the part in the namespace it
  is narrowed to. The statement for components; the other two types have the same code.
\<close>

theorem Component_Lister_reads_informer:
  assumes "lists_indexer lib objects namespace_of name_of matches" "Component_Lister lib GetIndexer f = (factory, l)"
  shows "\<exists>informer. Component_Informer f = (factory, informer) \<and>
    (\<forall>sel. lcList l sel = Inr (filter (matches sel) (objects (GetIndexer informer)))) \<and>
    (\<forall>ns sel. lcnList (lcComponents l ns) sel =
       Inr (filter (\<lambda>x. namespace_of x = ns) (filter (matches sel) (objects (GetIndexer informer))))) \<and>
    (\<forall>ns name x. lcnGet (lcComponents l ns) name = Inr x \<longleftrightarrow>
       List.find (\<lambda>x. namespace_of x = ns \<and> name_of x = name) (objects (GetIndexer informer)) = Some x)"
proof -
  obtain informer where i: "Component_Informer f = (factory, informer)" "l = NewComponentLister lib (GetIndexer informer)"
    using assms(2) by (auto simp: Component_Lister_def split: prod.splits)
  then show ?thesis
    using assms(1) by (simp add: lists_indexer_def NewComponentLister_def as_ComponentLister_def lister_Components_def
        as_ComponentNamespaceLister_def conj_commute del: split_paired_All)
qed

end
