(* ===== verification/InformerRuns.thy ===== *)
theory InformerRuns
  imports Informers
begin

text \<open>
  The informer factory as a state machine: informers are demanded, started, end and are shut down in any
  order. A run is labelled with the types whose informers it starts, in order.
\<close>

section \<open>Steps\<close>

text \<open>The types whose informers a call of \<open>StartWithContext\<close> launches: what it adds to the running goroutines.\<close>

definition launched :: "'x \<Rightarrow> ('c, 'o, 'x, 'n, 'e) sharedInformerFactory \<Rightarrow> obj_type list" where
  "launched ctx f = map fst (drop (length (sfRunning f)) (sfRunning (StartWithContext ctx f)))"

inductive informer_step ::
  "('c, 'o, 'x, 'n, 'e) sharedInformerFactory \<Rightarrow> obj_type list \<Rightarrow> ('c, 'o, 'x, 'n, 'e) sharedInformerFactory \<Rightarrow> bool" where
  Demanding: "informer_step f [] (fst (InformerFor t newFunc f))"
| Starting: "informer_step f (launched ctx f) (StartWithContext ctx f)"
| Ending: "r \<in> set (sfRunning f) \<Longrightarrow> informer_step f [] (f\<lparr>sfRunning := remove1 r (sfRunning f)\<rparr>)"
| ShuttingDown: "informer_step f [] (Shutdown_begin f)"
| ShutDown: "Shutdown_end f = Some f' \<Longrightarrow> informer_step f [] f'"

inductive_cases informer_stepE [consumes 1, case_names Demanding Starting Ending ShuttingDown ShutDown]:
  "informer_step f ts f'"

inductive informer_run ::
  "('c, 'o, 'x, 'n, 'e) sharedInformerFactory \<Rightarrow> obj_type list \<Rightarrow> ('c, 'o, 'x, 'n, 'e) sharedInformerFactory \<Rightarrow> bool"
  for f where
  Here: "informer_run f [] f"
| Further: "informer_run f ts f' \<Longrightarrow> informer_step f' us f'' \<Longrightarrow> informer_run f (ts @ us) f''"

section \<open>Starting\<close>

lemma started_update [simp]:
  "started (f\<lparr>sfRunning := r, sfStartedInformers := AList.update t True (sfStartedInformers f)\<rparr>) u \<longleftrightarrow> u = t \<or> started f u"
  by (simp add: started_def update_conv')

lemma start_keeps [simp]:
  "sfInformers (fold (start_informer ctx) es f) = sfInformers f"
  "sfShuttingDown (fold (start_informer ctx) es f) = sfShuttingDown f"
  "sfReleased (fold (start_informer ctx) es f) = sfReleased f"
  by (induction es arbitrary: f) (simp_all add: start_informer_def split: prod.split)

lemma start_all:
  "distinct_keys es \<Longrightarrow>
     sfRunning (fold (start_informer ctx) es f) =
       sfRunning f @ map (\<lambda>(t, i). (t, i, ctx)) (filter (\<lambda>(t, i). \<not> started f t) es) \<and>
     (\<forall>u. started (fold (start_informer ctx) es f) u \<longleftrightarrow> started f u \<or> u \<in> fst ` set es)"
proof (induction es arbitrary: f)
  case (Cons e es)
  obtain t i where e: "e = (t, i)" by (cases e)
  let ?f = "start_informer ctx (t, i) f"
  have f1: "started ?f v \<longleftrightarrow> v = t \<or> started f v" for v by (auto simp: start_informer_def)
  have f3: "sfRunning ?f = sfRunning f @ (if started f t then [] else [(t, i, ctx)])"
    by (simp add: start_informer_def)
  from Cons.prems e have d: "distinct_keys es" "t \<notin> fst ` set es" by simp_all
  then have "filter (\<lambda>(v, i). \<not> (v = t \<or> started f v)) es = filter (\<lambda>(v, i). \<not> started f v) es"
    by (intro filter_cong refl) force
  from Cons.IH [OF d(1), of ?f, unfolded f1 f3 this] e show ?case by auto
qed simp

text \<open>A start launches the informers that are not recorded as started.\<close>

lemma launched_new:
  assumes "distinct_keys (sfInformers f)"
  shows "launched ctx f = (if sfShuttingDown f then [] else map fst (filter (\<lambda>(t, i). \<not> started f t) (sfInformers f)))"
  by (simp add: launched_def StartWithContext_def start_all [OF assms] comp_def case_prod_beta)

lemma launched_down: "sfShuttingDown f \<Longrightarrow> launched ctx f = []"
  by (simp add: launched_def StartWithContext_def)

lemmas factory_ops = InformerFor_def StartWithContext_def Shutdown_begin_def Shutdown_end_def Let_def

lemma InformerFor_other [simp]:
  "sfStartedInformers (fst (InformerFor t new f)) = sfStartedInformers f" "sfRunning (fst (InformerFor t new f)) = sfRunning f"
  "sfShuttingDown (fst (InformerFor t new f)) = sfShuttingDown f"
  by (simp_all add: InformerFor_def Let_def split: option.split)

lemma started_other [simp]:
  "started (fst (InformerFor t new f)) = started f" "started (f\<lparr>sfRunning := r\<rparr>) = started f"
  "started (f\<lparr>sfShuttingDown := b\<rparr>) = started f" "started (f\<lparr>sfReleased := b\<rparr>) = started f"
  by (simp_all add: started_def fun_eq_iff)

lemma InformerFor_lookup:
  "map_of (sfInformers (fst (InformerFor t new f))) =
     (map_of (sfInformers f))(t \<mapsto> snd (InformerFor t new f))"
  by (auto simp: InformerFor_def Let_def update_conv' split: option.split)

section \<open>The invariant\<close>

text \<open>One informer per type; the started types are those of the run, each once; what runs was started.\<close>

definition informers_inv :: "('c, 'o, 'x, 'n, 'e) sharedInformerFactory \<Rightarrow> obj_type list \<Rightarrow> bool" where
  "informers_inv f ts \<longleftrightarrow> distinct_keys (sfInformers f) \<and> distinct ts \<and> (\<forall>t. started f t \<longleftrightarrow> t \<in> set ts) \<and>
     set ts \<subseteq> fst ` set (sfInformers f) \<and> distinct (map fst (sfRunning f)) \<and> fst ` set (sfRunning f) \<subseteq> set ts"

lemma inv_demand:
  assumes "informers_inv f ts"
  shows "informers_inv (fst (InformerFor t new f)) ts"
proof -
  have "distinct_keys (sfInformers (fst (InformerFor t new f)))" using assms
    by (simp add: informers_inv_def InformerFor_def Let_def AList.distinct_update split: option.split)
  moreover have "fst ` set (sfInformers f) \<subseteq> fst ` set (sfInformers (fst (InformerFor t new f)))"
    by (simp only: dom_map_of_conv_image_fst [symmetric] InformerFor_lookup) auto
  ultimately show ?thesis using assms by (auto simp: informers_inv_def)
qed

lemma inv_start:
  assumes "informers_inv f ts" "\<not> sfShuttingDown f"
  shows "informers_inv (StartWithContext ctx f) (ts @ launched ctx f)"
proof -
  from assms(1) have d: "distinct_keys (sfInformers f)" by (simp add: informers_inv_def)
  let ?new = "filter (\<lambda>(t, i). \<not> started f t) (sfInformers f)"
  let ?f = "StartWithContext ctx f"
  have new: "launched ctx f = map fst ?new" using assms(2) by (simp add: launched_new [OF d])
  have dn: "distinct (launched ctx f)" unfolding new using d by (simp add: distinct_map_filter)
  have sn: "set (launched ctx f) = fst ` set (sfInformers f) - {t. started f t}" unfolding new by force
  have st: "started ?f t \<longleftrightarrow> started f t \<or> t \<in> fst ` set (sfInformers f)" for t
    using assms(2) by (simp add: StartWithContext_def start_all [OF d])
  have rn: "map fst (sfRunning ?f) = map fst (sfRunning f) @ launched ctx f"
    unfolding new using assms(2) by (simp add: StartWithContext_def start_all [OF d] comp_def case_prod_beta)
  then have rs: "fst ` set (sfRunning ?f) = fst ` set (sfRunning f) \<union> set (launched ctx f)"
    by (metis set_append set_map)
  have inf: "sfInformers ?f = sfInformers f" by (simp add: StartWithContext_def)
  note i = assms(1) [unfolded informers_inv_def]
  have "distinct (ts @ launched ctx f)" "distinct (map fst (sfRunning ?f))"
    using i dn sn rn by (auto simp del: map_map)
  moreover have "\<forall>t. started ?f t \<longleftrightarrow> t \<in> set (ts @ launched ctx f)" using i sn st by auto
  moreover have "set (ts @ launched ctx f) \<subseteq> fst ` set (sfInformers ?f)" using i sn inf by auto
  moreover have "fst ` set (sfRunning ?f) \<subseteq> set (ts @ launched ctx f)" using i rs by auto
  ultimately show ?thesis using d inf by (simp add: informers_inv_def)
qed

lemma inv_step:
  assumes "informer_step f us f'" "informers_inv f ts"
  shows "informers_inv f' (ts @ us)"
  using assms(1)
proof (cases rule: informer_stepE)
  case (Demanding t newFunc)
  then show ?thesis using inv_demand [OF assms(2)] by simp
next
  case (Starting ctx)
  then show ?thesis using inv_start [OF assms(2)] assms(2)
    by (cases "sfShuttingDown f") (simp_all add: launched_down StartWithContext_def)
next
  case (Ending r)
  have sub: "set (remove1 r (sfRunning f)) \<subseteq> set (sfRunning f)" by (rule set_remove1_subset)
  have "distinct (map fst (remove1 r (sfRunning f)))"
  proof -
    have "distinct (sfRunning f)" "inj_on fst (set (sfRunning f))"
      using assms(2) by (simp_all add: informers_inv_def distinct_map)
    from this(1) inj_on_subset [OF this(2) sub] show ?thesis by (simp add: distinct_map distinct_remove1)
  qed
  moreover have "fst ` set (remove1 r (sfRunning f)) \<subseteq> set ts"
    using assms(2) image_mono [OF sub, of fst] unfolding informers_inv_def by blast
  ultimately show ?thesis using Ending assms(2) by (simp add: informers_inv_def)
next
  case ShuttingDown
  then show ?thesis using assms(2) by (simp add: informers_inv_def Shutdown_begin_def)
next
  case ShutDown
  then show ?thesis using assms(2) by (auto simp: informers_inv_def Shutdown_end_def split: if_splits)
qed

lemma inv_run: "informer_run f us f' \<Longrightarrow> informers_inv f [] \<Longrightarrow> informers_inv f' us"
  by (induction rule: informer_run.induct) (auto dest: inv_step)

text \<open>Options that leave the machinery alone, as all options of the package do.\<close>

definition configures :: "('c, 'o, 'x, 'n, 'e) SharedInformerOption \<Rightarrow> bool" where
  "configures opt \<longleftrightarrow> (\<forall>f. sfInformers (opt f) = sfInformers f \<and> sfStartedInformers (opt f) = sfStartedInformers f \<and>
     sfRunning (opt f) = sfRunning f \<and> sfShuttingDown (opt f) = sfShuttingDown f \<and> sfReleased (opt f) = sfReleased f)"

lemma options_configure [simp]:
  "configures (WithTweakListOptions g)" "configures (WithNamespace n)" "configures (WithTransform e)"
  "configures (WithInformerName m)"
  by (simp_all add: configures_def WithTweakListOptions_def WithNamespace_def WithTransform_def WithInformerName_def)

lemma WithCustomResyncConfig_configures [simp]: "configures (WithCustomResyncConfig config)"
proof -
  have "sfInformers (WithCustomResyncConfig config f) = sfInformers f \<and>
      sfStartedInformers (WithCustomResyncConfig config f) = sfStartedInformers f \<and>
      sfRunning (WithCustomResyncConfig config f) = sfRunning f \<and>
      sfShuttingDown (WithCustomResyncConfig config f) = sfShuttingDown f \<and>
      sfReleased (WithCustomResyncConfig config f) = sfReleased f"
    for f :: "('a, 'b, 'c, 'd, 'e) sharedInformerFactory"
    by (induction config f rule: WithCustomResyncConfig.induct) simp_all
  then show ?thesis by (simp add: configures_def)
qed

lemma configured:
  assumes "\<forall>opt \<in> set opts. configures opt"
  shows "sfInformers (fold (\<lambda>opt f. opt f) opts f) = sfInformers f"
    "sfStartedInformers (fold (\<lambda>opt f. opt f) opts f) = sfStartedInformers f"
    "sfRunning (fold (\<lambda>opt f. opt f) opts f) = sfRunning f"
    "sfShuttingDown (fold (\<lambda>opt f. opt f) opts f) = sfShuttingDown f"
  using assms by (induction opts arbitrary: f) (simp_all add: configures_def)

lemma inv_new:
  "\<forall>opt \<in> set opts. configures opt \<Longrightarrow> informers_inv (NewSharedInformerFactoryWithOptions client resync opts) []"
  by (simp add: informers_inv_def NewSharedInformerFactoryWithOptions_def configured started_def)

section \<open>Properties\<close>

text \<open>
  C31. However often \<open>Start\<close> is called and whatever happens in between (informers that end included), every
  informer is launched at most once: the types launched are pairwise different, are those the factory has
  recorded as started, have an informer, and at most one goroutine per type is running. As long as no
  shutdown has begun, a further start launches the informers that have not been launched yet, and no other.
\<close>

theorem informers_start_once:
  assumes "\<forall>opt \<in> set opts. configures opt"
    and "informer_run (NewSharedInformerFactoryWithOptions client resync opts) ts f"
  shows "distinct ts \<and> (\<forall>t. started f t \<longleftrightarrow> t \<in> set ts) \<and> set ts \<subseteq> fst ` set (sfInformers f) \<and>
    distinct (map fst (sfRunning f)) \<and> fst ` set (sfRunning f) \<subseteq> set ts \<and>
    (\<forall>ctx. set (launched ctx f) = (if sfShuttingDown f then {} else fst ` set (sfInformers f) - set ts))"
proof -
  have inv: "informers_inv f ts" using inv_run [OF assms(2) inv_new [OF assms(1)]] .
  then have "set (launched ctx f) = (if sfShuttingDown f then {} else fst ` set (sfInformers f) - set ts)" for ctx
  proof -
    have d: "distinct_keys (sfInformers f)" and st: "started f = (\<lambda>t. t \<in> set ts)"
      using inv by (simp_all add: informers_inv_def fun_eq_iff)
    have "launched ctx f =
        (if sfShuttingDown f then [] else map fst (filter (\<lambda>(t, i). t \<notin> set ts) (sfInformers f)))"
      using launched_new [OF d] unfolding st .
    moreover have "fst ` {x \<in> set (sfInformers f). case x of (t, i) \<Rightarrow> t \<notin> set ts} = fst ` set (sfInformers f) - set ts"
      by force
    ultimately show ?thesis by simp
  qed
  with inv show ?thesis by (simp add: informers_inv_def)
qed

text \<open>
  A shutdown is final: from the moment it has begun no informer is started any more, whatever calls
  follow, so that what runs only becomes less; once it has returned, nothing runs and nothing ever will.
\<close>

theorem shutdown_is_final:
  assumes "informer_run f ts f'" "sfShuttingDown f"
  shows "ts = [] \<and> sfShuttingDown f' \<and> set (sfRunning f') \<subseteq> set (sfRunning f)"
  using assms
proof (induction rule: informer_run.induct)
  case (Further ts f' us f'')
  then have f': "ts = []" "sfShuttingDown f'" "set (sfRunning f') \<subseteq> set (sfRunning f)" by simp_all
  from Further.hyps(2) have "us = [] \<and> sfShuttingDown f'' \<and> set (sfRunning f'') \<subseteq> set (sfRunning f')"
    using f'(2) by (cases rule: informer_stepE)
      (auto simp: launched_down StartWithContext_def Shutdown_begin_def Shutdown_end_def
        dest: set_remove1_subset [THEN subsetD] split: if_splits)
  with f' show ?case by auto
qed simp

text \<open>
  Informers are shared: once \<open>InformerFor\<close> has returned an informer for a type, every later call for
  that type returns the same one and changes nothing, whatever constructor it is given.
\<close>

theorem InformerFor_shared:
  assumes "InformerFor t newFunc f = (f1, informer)" "informer_run f1 ts f2"
  shows "InformerFor t newFunc' f2 = (f2, informer)"
proof -
  have "map_of (sfInformers f2) t = Some informer"
    using assms(2)
  proof (induction rule: informer_run.induct)
    case Here
    then show ?case using InformerFor_lookup [of t newFunc f] assms(1) by simp
  next
    case (Further ts f' us f'')
    from Further.hyps(2) show ?case
    proof (cases rule: informer_stepE)
      case (Demanding u new)
      then show ?thesis using Further.IH InformerFor_lookup [of u new f']
        by (cases "u = t") (auto simp: InformerFor_def)
    next
      case (Starting ctx)
      then show ?thesis using Further.IH by (simp add: StartWithContext_def)
    qed (use Further.IH in \<open>auto simp: Shutdown_begin_def Shutdown_end_def split: if_splits\<close>)
  qed
  then show ?thesis by (simp add: InformerFor_def)
qed

text \<open>The resources the generated client knows, with their types.\<close>

definition resource_types :: "(string \<times> obj_type) list" where
  "resource_types = [(''blueprints'', BlueprintType), (''blueprintversions'', BlueprintVersionType), (''components'', ComponentType)]"

definition known_resource :: "GroupVersionResource \<Rightarrow> obj_type option" where
  "known_resource gvr =
     (if gvrGroup gvr = GroupVersion_Group \<and> gvrVersion gvr = GroupVersion_Version
      then map_of resource_types (gvrResource gvr) else None)"

lemma WithResource_iff:
  "gvr = WithResource r \<longleftrightarrow> gvrGroup gvr = GroupVersion_Group \<and> gvrVersion gvr = GroupVersion_Version \<and> gvrResource gvr = r"
  by (cases gvr) (auto simp: WithResource_def)

text \<open>
  A factory that is filtered by a namespace and a tweak function gives, for each of the three resources
  and for nothing else, an informer of the resource's type whose every list and watch goes to that namespace
  of the factory's client, with the tweaked options and the caller's context.
\<close>

theorem ForResource_scoped:
  "let f = NewFilteredSharedInformerFactory client resync namespace tweak :: ('c, 'o, 'x, 'n, 'e) sharedInformerFactory in
   case known_resource gvr of
     None \<Rightarrow> \<exists>err. ForResource gvr f = (f, Inl err)
   | Some T \<Rightarrow> \<exists>f' gi. ForResource gvr f = (f', Inr gi) \<and> map_of (sfInformers f') T = Some (giInformer gi) \<and>
       siClient (giInformer gi) = client \<and> siResyncPeriod (giInformer gi) = resync \<and> siExample (giInformer gi) = T \<and>
       (\<forall>ctx opts. lwListWithContextFunc (siListWatch (giInformer gi)) ctx opts =
            ListCall T namespace (Some ctx) (tweaked tweak opts) \<and>
          lwWatchFuncWithContext (siListWatch (giInformer gi)) ctx opts =
            WatchCall T namespace (Some ctx) (tweaked tweak opts))"
proof -
  note defs = ForResource_def Let_def known_resource_def resource_types_def WithResource_iff InformerFor_def
    NewFilteredSharedInformerFactory_def NewSharedInformerFactoryWithOptions_def WithNamespace_def WithTweakListOptions_def
    Core_def V1alpha1_def group_New_def version_New_def
  consider "known_resource gvr = None" | "gvr = WithResource ''blueprints''" | "gvr = WithResource ''blueprintversions''"
    | "gvr = WithResource ''components''"
    unfolding WithResource_iff by (fastforce simp: known_resource_def resource_types_def split: if_splits)
  then show ?thesis
  proof cases
    case 1
    then show ?thesis by (auto simp: defs split: if_splits)
  next
    case 2
    then show ?thesis
      by (simp add: defs Blueprint_Informer_def Blueprint_defaultInformer_def version_Blueprints_def
          NewBlueprintInformerWithOptions_def)
  next
    case 3
    then show ?thesis
      by (simp add: defs BlueprintVersion_Informer_def BlueprintVersion_defaultInformer_def version_BlueprintVersions_def
          NewBlueprintVersionInformerWithOptions_def)
  next
    case 4
    then show ?thesis
      by (simp add: defs Component_Informer_def Component_defaultInformer_def version_Components_def
          NewComponentInformerWithOptions_def)
  qed
qed

end
