(* ===== verification/InformerInterfaces.thy ===== *)
theory InformerInterfaces
  imports Listers InformerRuns
begin

text \<open>
  The interfaces of the informer packages as records of their methods, and the structures that implement them. The
  structures point to one factory; a method that may change it returns it with its result, and a record
  holds the methods as they are for the factory in the state it was made from.
\<close>

section \<open>Informers of a type\<close>

text \<open>\<open>internalinterfaces.NewInformerFunc\<close>.\<close>

type_synonym ('c, 'o, 'x, 'n, 'e) NewInformerFunc = "'c \<Rightarrow> int \<Rightarrow> ('c, 'o, 'x, 'n, 'e) SharedIndexInformer"

record ('c, 'o, 'x, 'n, 'e, 's, 'l) BlueprintInformer =
  bimInformer :: "('c, 'o, 'x, 'n, 'e) sharedInformerFactory \<times> ('c, 'o, 'x, 'n, 'e) SharedIndexInformer"
  bimLister :: "('c, 'o, 'x, 'n, 'e) sharedInformerFactory \<times> ('s, 'l) BlueprintLister"

definition as_BlueprintInformer ::
  "('i, 'r, 'g, 's, 'l) lister_lib \<Rightarrow> (('c, 'o, 'x, 'n, 'e) SharedIndexInformer \<Rightarrow> 'i) \<Rightarrow>
     ('c, 'o, 'x, 'n, 'e) blueprintInformer \<Rightarrow> ('c, 'o, 'x, 'n, 'e, 's, 'l) BlueprintInformer" where
  "as_BlueprintInformer lib GetIndexer f =
     \<lparr>bimInformer = Blueprint_Informer f, bimLister = Blueprint_Lister lib GetIndexer f\<rparr>"

record ('c, 'o, 'x, 'n, 'e, 's, 'l) BlueprintVersionInformer =
  vimInformer :: "('c, 'o, 'x, 'n, 'e) sharedInformerFactory \<times> ('c, 'o, 'x, 'n, 'e) SharedIndexInformer"
  vimLister :: "('c, 'o, 'x, 'n, 'e) sharedInformerFactory \<times> ('s, 'l) BlueprintVersionLister"

definition as_BlueprintVersionInformer ::
  "('i, 'r, 'g, 's, 'l) lister_lib \<Rightarrow> (('c, 'o, 'x, 'n, 'e) SharedIndexInformer \<Rightarrow> 'i) \<Rightarrow>
     ('c, 'o, 'x, 'n, 'e) blueprintVersionInformer \<Rightarrow> ('c, 'o, 'x, 'n, 'e, 's, 'l) BlueprintVersionInformer" where
  "as_BlueprintVersionInformer lib GetIndexer f =
     \<lparr>vimInformer = BlueprintVersion_Informer f, vimLister = BlueprintVersion_Lister lib GetIndexer f\<rparr>"

record ('c, 'o, 'x, 'n, 'e, 's, 'l) ComponentInformer =
  cimInformer :: "('c, 'o, 'x, 'n, 'e) sharedInformerFactory \<times> ('c, 'o, 'x, 'n, 'e) SharedIndexInformer"
  cimLister :: "('c, 'o, 'x, 'n, 'e) sharedInformerFactory \<times> ('s, 'l) ComponentLister"

definition as_ComponentInformer ::
  "('i, 'r, 'g, 's, 'l) lister_lib \<Rightarrow> (('c, 'o, 'x, 'n, 'e) SharedIndexInformer \<Rightarrow> 'i) \<Rightarrow>
     ('c, 'o, 'x, 'n, 'e) componentInformer \<Rightarrow> ('c, 'o, 'x, 'n, 'e, 's, 'l) ComponentInformer" where
  "as_ComponentInformer lib GetIndexer f =
     \<lparr>cimInformer = Component_Informer f, cimLister = Component_Lister lib GetIndexer f\<rparr>"

section \<open>Versions and groups\<close>

text \<open>The three types have listers of their own, so their library functions come as three.\<close>

record ('i, 'r, 'g, 's, 'b, 'v, 'l) lister_libs =
  lbBlueprintLib :: "('i, 'r, 'g, 's, 'b) lister_lib"
  lbVersionLib :: "('i, 'r, 'g, 's, 'v) lister_lib"
  lbComponentLib :: "('i, 'r, 'g, 's, 'l) lister_lib"

record ('c, 'o, 'x, 'n, 'e, 's, 'b, 'v, 'l) version_Interface =
  vfBlueprints :: "('c, 'o, 'x, 'n, 'e, 's, 'b) BlueprintInformer"
  vfBlueprintVersions :: "('c, 'o, 'x, 'n, 'e, 's, 'v) BlueprintVersionInformer"
  vfComponents :: "('c, 'o, 'x, 'n, 'e, 's, 'l) ComponentInformer"

definition as_version_Interface ::
  "('i, 'r, 'g, 's, 'b, 'v, 'l) lister_libs \<Rightarrow> (('c, 'o, 'x, 'n, 'e) SharedIndexInformer \<Rightarrow> 'i) \<Rightarrow>
     ('c, 'o, 'x, 'n, 'e) version \<Rightarrow> ('c, 'o, 'x, 'n, 'e, 's, 'b, 'v, 'l) version_Interface" where
  "as_version_Interface libs GetIndexer v =
     \<lparr>vfBlueprints = as_BlueprintInformer (lbBlueprintLib libs) GetIndexer (version_Blueprints v),
      vfBlueprintVersions = as_BlueprintVersionInformer (lbVersionLib libs) GetIndexer (version_BlueprintVersions v),
      vfComponents = as_ComponentInformer (lbComponentLib libs) GetIndexer (version_Components v)\<rparr>"

record ('c, 'o, 'x, 'n, 'e, 's, 'b, 'v, 'l) group_Interface =
  giV1alpha1 :: "('c, 'o, 'x, 'n, 'e, 's, 'b, 'v, 'l) version_Interface"

definition as_group_Interface ::
  "('i, 'r, 'g, 's, 'b, 'v, 'l) lister_libs \<Rightarrow> (('c, 'o, 'x, 'n, 'e) SharedIndexInformer \<Rightarrow> 'i) \<Rightarrow>
     ('c, 'o, 'x, 'n, 'e) group \<Rightarrow> ('c, 'o, 'x, 'n, 'e, 's, 'b, 'v, 'l) group_Interface" where
  "as_group_Interface libs GetIndexer g = \<lparr>giV1alpha1 = as_version_Interface libs GetIndexer (V1alpha1 g)\<rparr>"

text \<open>A generic informer holds an informer that exists; its methods change nothing.\<close>

record ('c, 'o, 'x, 'n, 'e, 'g) GenericInformer =
  gmInformer :: "('c, 'o, 'x, 'n, 'e) SharedIndexInformer"
  gmLister :: 'g

definition as_GenericInformer ::
  "('i, 'r, 'g, 's, 'l) lister_lib \<Rightarrow> (('c, 'o, 'x, 'n, 'e) SharedIndexInformer \<Rightarrow> 'i) \<Rightarrow>
     ('c, 'o, 'x, 'n, 'e) genericInformer \<Rightarrow> ('c, 'o, 'x, 'n, 'e, 'g) GenericInformer" where
  "as_GenericInformer lib GetIndexer f = \<lparr>gmInformer = generic_Informer f, gmLister = generic_Lister lib GetIndexer f\<rparr>"

section \<open>The factory\<close>

text \<open>
  \<open>Shutdown\<close> when nothing comes between its halves: it blocks, so that there is no result, as long as an
  informer runs.
\<close>

definition Shutdown :: "('c, 'o, 'x, 'n, 'e) sharedInformerFactory \<Rightarrow> ('c, 'o, 'x, 'n, 'e) sharedInformerFactory option" where
  "Shutdown f = Shutdown_end (Shutdown_begin f)"

text \<open>The factory as the informers of the types see it, and as its users see it, who can do more.\<close>

record ('c, 'o, 'x, 'n, 'e, 'ch) internal_SharedInformerFactory =
  ifStart :: "'ch \<Rightarrow> ('c, 'o, 'x, 'n, 'e) sharedInformerFactory"
  ifInformerFor :: "obj_type \<Rightarrow> ('c, 'o, 'x, 'n, 'e) NewInformerFunc \<Rightarrow> ('c, 'o, 'x, 'n, 'e) sharedInformerFactory \<times> ('c, 'o, 'x, 'n, 'e) SharedIndexInformer"
  ifInformerName :: "'n option"

record ('c, 'o, 'x, 'n, 'e, 'ch, 's, 'b, 'v, 'l, 'err) SharedInformerFactory = "('c, 'o, 'x, 'n, 'e, 'ch) internal_SharedInformerFactory" +
  ifStartWithContext :: "'x \<Rightarrow> ('c, 'o, 'x, 'n, 'e) sharedInformerFactory"
  ifShutdown :: "('c, 'o, 'x, 'n, 'e) sharedInformerFactory option"
  ifWaitForCacheSync :: "'ch \<Rightarrow> (obj_type \<times> bool) list"
  ifWaitForCacheSyncWithContext :: "'x \<Rightarrow> 'err SyncResult"
  ifForResource :: "GroupVersionResource \<Rightarrow> ('c, 'o, 'x, 'n, 'e) sharedInformerFactory \<times> (error + ('c, 'o, 'x, 'n, 'e) genericInformer)"
  ifCore :: "('c, 'o, 'x, 'n, 'e, 's, 'b, 'v, 'l) group_Interface"

text \<open>What the factory uses of the library: contexts of channels, whether an informer has synced, causes, indexers.\<close>

record ('c, 'o, 'x, 'n, 'e, 'ch, 'i, 'err) informer_lib =
  ilContextForChannel :: "'ch \<Rightarrow> 'x"
  ilHasSynced :: "('c, 'o, 'x, 'n, 'e) SharedIndexInformer \<Rightarrow> bool"
  ilCause :: "'x \<Rightarrow> 'err"
  ilGetIndexer :: "('c, 'o, 'x, 'n, 'e) SharedIndexInformer \<Rightarrow> 'i"

definition as_SharedInformerFactory ::
  "('c, 'o, 'x, 'n, 'e, 'ch, 'i, 'err) informer_lib \<Rightarrow> ('i, 'r, 'g, 's, 'b, 'v, 'l) lister_libs \<Rightarrow> ('c, 'o, 'x, 'n, 'e) sharedInformerFactory \<Rightarrow>
     ('c, 'o, 'x, 'n, 'e, 'ch, 's, 'b, 'v, 'l, 'err) SharedInformerFactory" where
  "as_SharedInformerFactory lib libs f =
     \<lparr>ifStart = (\<lambda>stopCh. Start_channel (ilContextForChannel lib) stopCh f),
      ifInformerFor = (\<lambda>t newFunc. InformerFor t newFunc f),
      ifInformerName = InformerName f,
      ifStartWithContext = (\<lambda>ctx. StartWithContext ctx f),
      ifShutdown = Shutdown f,
      ifWaitForCacheSync = (\<lambda>stopCh. WaitForCacheSync (ilHasSynced lib) (ilCause lib) (ilContextForChannel lib) stopCh f),
      ifWaitForCacheSyncWithContext = (\<lambda>ctx. WaitForCacheSyncWithContext (ilHasSynced lib) (ilCause lib) ctx f),
      ifForResource = (\<lambda>resource. ForResource resource f),
      ifCore = as_group_Interface libs (ilGetIndexer lib) (Core f)\<rparr>"

section \<open>Facts\<close>

text \<open>A shutdown returns exactly if nothing runs; afterwards nothing is ever started again.\<close>

lemma Shutdown_returns: "Shutdown f = Some f' \<longleftrightarrow> sfRunning f = [] \<and> f' = f\<lparr>sfShuttingDown := True, sfReleased := True\<rparr>"
  by (auto simp: Shutdown_def Shutdown_end_def Shutdown_begin_def)

text \<open>
  By type or by resource, the same informer is found and the factory is changed in the same way. For each
  type, what its resource leads to and what its method leads to.
\<close>

theorem typed_and_generic_access_agree:
  fixes f :: "('c, 'o, 'x, 'n, 'e) sharedInformerFactory" and libs :: "('i, 'r, 'g, 's, 'b, 'v, 'l) lister_libs"
    and lib :: "('c, 'o, 'x, 'n, 'e, 'ch, 'i, 'err) informer_lib"
  defines "user \<equiv> as_SharedInformerFactory lib libs f"
  defines "types \<equiv> giV1alpha1 (ifCore user)"
  shows "map_prod id (map_sum id giInformer) (ifForResource user (WithResource ''components'')) = map_prod id Inr (cimInformer (vfComponents types)) \<and>
    map_prod id (map_sum id giInformer) (ifForResource user (WithResource ''blueprints'')) = map_prod id Inr (bimInformer (vfBlueprints types)) \<and>
    map_prod id (map_sum id giInformer) (ifForResource user (WithResource ''blueprintversions'')) =
      map_prod id Inr (vimInformer (vfBlueprintVersions types)) \<and>
    fst (cimLister (vfComponents types)) = fst (cimInformer (vfComponents types)) \<and>
    fst (bimLister (vfBlueprints types)) = fst (bimInformer (vfBlueprints types)) \<and>
    fst (vimLister (vfBlueprintVersions types)) = fst (vimInformer (vfBlueprintVersions types))"
  unfolding user_def types_def
  by (simp add: as_SharedInformerFactory_def as_group_Interface_def as_version_Interface_def as_ComponentInformer_def
      as_BlueprintInformer_def as_BlueprintVersionInformer_def ForResource_def WithResource_def Let_def Component_Lister_def
      Blueprint_Lister_def BlueprintVersion_Lister_def split: prod.splits)

end
