(* ===== verification/ApiClient.thy ===== *)
theory ApiClient
  imports ApiTypes
begin

text \<open>
  What the program sees of the Kubernetes API: flux source objects with their conditions
  (\<open>internal/object/object.go\<close>, \<open>pkg/meta\<close>), and the client calls it makes. The API server is not
  part of the repository: a client is a record of functions on an abstract cluster state, an
  argument of every definition that talks to the server.
\<close>

definition meta_Name :: string where "meta_Name = ''component-operator.cs.sap.com''"

section \<open>Readiness of objects with conditions\<close>

record Condition =
  condType :: string
  condStatus :: string
  condObservedGeneration :: int

definition ConditionTrue :: string where "ConditionTrue = ''True''"

fun object_IsReady :: "Condition list \<Rightarrow> int \<Rightarrow> bool" where
  "object_IsReady [] generation = False"
| "object_IsReady (condition # rest) generation =
     (if condType condition \<noteq> ''Ready'' then object_IsReady rest generation
      else if condObservedGeneration condition \<noteq> generation then False
      else condStatus condition = ConditionTrue)"

text \<open>The first condition of type \<open>Ready\<close> decides; without one the object is not ready.\<close>

lemma object_IsReady_iff:
  "object_IsReady cs g \<longleftrightarrow> (\<exists>c. find (\<lambda>c. condType c = ''Ready'') cs = Some c \<and>
     condObservedGeneration c = g \<and> condStatus c = ConditionTrue)"
  by (induction cs) auto

section \<open>Flux sources\<close>

datatype FluxKind = GitRepository | OCIRepository | Bucket | HelmChart

record FluxArtifact =
  faURL :: string
  faDigest :: string
  faRevision :: string

record FluxSource =
  fsKind :: FluxKind
  fsMeta :: ObjectMeta
  fsConditions :: "Condition list"
  fsArtifact :: "FluxArtifact option"

definition FluxSource_IsReady :: "FluxSource \<Rightarrow> bool" where
  "FluxSource_IsReady s = object_IsReady (fsConditions s) (omGeneration (fsMeta s))"

section \<open>The client\<close>

text \<open>
  One field per call the program makes. Writing calls return the new cluster state; a failed
  call returns an error, and the state it left.
\<close>

record 's client =
  clGetBlueprint :: "'s \<Rightarrow> NamespacedName \<Rightarrow> error + Blueprint"
  clGetVersion :: "'s \<Rightarrow> NamespacedName \<Rightarrow> error + BlueprintVersion"
  clGetFlux :: "'s \<Rightarrow> FluxKind \<Rightarrow> NamespacedName \<Rightarrow> error + FluxSource"
  clApplyVersion :: "'s \<Rightarrow> BlueprintVersion \<Rightarrow> 's \<times> error option"
  clUpdateBlueprint :: "'s \<Rightarrow> Blueprint \<Rightarrow> 's \<times> (error + Blueprint)"
  clListVersions :: "'s \<Rightarrow> string \<Rightarrow> string \<Rightarrow> error + BlueprintVersion list"
  clDeleteVersion :: "'s \<Rightarrow> BlueprintVersion \<Rightarrow> 's \<times> error option"

end
