(* ===== verification/ComponentCache.thy ===== *)
theory ComponentCache
  imports ApiClient
begin

text \<open>
  \<open>internal/cache/component/cache.go\<close>: the index functions of the component cache, the list options
  that query them, and their registration with the manager. The cache itself belongs to
  controller-runtime: listing is a function argument of the definitions that list, and
  \<open>indexed_cache\<close> states its documented behaviour, that a field selector on a registered index
  returns the components whose index values contain the asked value.
\<close>

section \<open>Index keys and source types\<close>

definition sourceTypeIndexKey :: string where "sourceTypeIndexKey = ''.metadata.sourceType''"
definition dependenciesIndexKey :: string where "dependenciesIndexKey = ''.metadata.dependencies''"
definition blueprintIndexKey :: string where "blueprintIndexKey = ''.metadata.cs.blueprint''"
definition blueprintVersionIndexKey :: string where
  "blueprintVersionIndexKey = ''.metadata.cs.blueprintversion''"
definition gitRepositoryIndexKey :: string where "gitRepositoryIndexKey = ''.metadata.flux.gitRepository''"
definition ociRepositoryIndexKey :: string where "ociRepositoryIndexKey = ''.metadata.flux.ociRepository''"
definition bucketIndexKey :: string where "bucketIndexKey = ''.metadata.flux.bucket''"
definition helmChartIndexKey :: string where "helmChartIndexKey = ''.metadata.flux.helmChart''"

lemmas index_keys = sourceTypeIndexKey_def dependenciesIndexKey_def blueprintIndexKey_def
  blueprintVersionIndexKey_def gitRepositoryIndexKey_def ociRepositoryIndexKey_def bucketIndexKey_def
  helmChartIndexKey_def

definition sourceTypeBlueprint :: string where "sourceTypeBlueprint = ''blueprint''"
definition sourceTypeHttpRepository :: string where "sourceTypeHttpRepository = ''httpRepository''"
definition sourceTypeFluxGitRepository :: string where "sourceTypeFluxGitRepository = ''fluxGitRepository''"
definition sourceTypeFluxOciRepository :: string where "sourceTypeFluxOciRepository = ''fluxOciRepository''"
definition sourceTypeFluxBucket :: string where "sourceTypeFluxBucket = ''fluxBucket''"
definition sourceTypeFluxHelmChart :: string where "sourceTypeFluxHelmChart = ''fluxHelmChart''"
definition sourceTypeFluxSource :: string where "sourceTypeFluxSource = ''fluxSource''"

lemmas source_types = sourceTypeBlueprint_def sourceTypeHttpRepository_def sourceTypeFluxGitRepository_def
  sourceTypeFluxOciRepository_def sourceTypeFluxBucket_def sourceTypeFluxHelmChart_def sourceTypeFluxSource_def

section \<open>List options\<close>

text \<open>
  \<open>client.MatchingFields\<close> with its one field, and \<open>client.Limit\<close>. The printed object key
  (\<open>client.ObjectKeyFromObject(o).String()\<close>) is computed by the API machinery: the function
  \<open>key\<close> from namespace and name is a parameter, which \<open>object_key\<close> describes.
\<close>

datatype ListOption = MatchingFields string string | Limit nat

definition object_key :: "(string \<Rightarrow> string \<Rightarrow> string) \<Rightarrow> bool" where
  "object_key key \<longleftrightarrow> (\<forall>ns n. key ns n = ns @ ''/'' @ n)"

definition MatchingDependency :: "(string \<Rightarrow> string \<Rightarrow> string) \<Rightarrow> Component \<Rightarrow> ListOption" where
  "MatchingDependency key component =
     MatchingFields dependenciesIndexKey (key (coNamespace component) (coName component))"

definition MatchingBlueprint :: "(string \<Rightarrow> string \<Rightarrow> string) \<Rightarrow> Blueprint \<Rightarrow> ListOption" where
  "MatchingBlueprint key blueprint =
     MatchingFields blueprintIndexKey (key (bpNamespace blueprint) (bpName blueprint))"

definition MatchingBlueprintVersion :: "(string \<Rightarrow> string \<Rightarrow> string) \<Rightarrow> BlueprintVersion \<Rightarrow> ListOption" where
  "MatchingBlueprintVersion key blueprintVersion =
     MatchingFields blueprintVersionIndexKey (key (bvNamespace blueprintVersion) (bvName blueprintVersion))"

definition MatchingFluxSource :: "(string \<Rightarrow> string \<Rightarrow> string) \<Rightarrow> FluxSource \<Rightarrow> ListOption" where
  "MatchingFluxSource key source =
     (let indexKey = (case fsKind source of
          GitRepository \<Rightarrow> gitRepositoryIndexKey
        | OCIRepository \<Rightarrow> ociRepositoryIndexKey
        | Bucket \<Rightarrow> bucketIndexKey
        | HelmChart \<Rightarrow> helmChartIndexKey)
      in MatchingFields indexKey (key (omNamespace (fsMeta source)) (omName (fsMeta source))))"

definition HasBlueprint :: ListOption where
  "HasBlueprint = MatchingFields sourceTypeIndexKey sourceTypeBlueprint"

definition HasHttpRepository :: ListOption where
  "HasHttpRepository = MatchingFields sourceTypeIndexKey sourceTypeHttpRepository"

definition HasFluxGitRepository :: ListOption where
  "HasFluxGitRepository = MatchingFields sourceTypeIndexKey sourceTypeFluxGitRepository"

definition HasFluxOciRepository :: ListOption where
  "HasFluxOciRepository = MatchingFields sourceTypeIndexKey sourceTypeFluxOciRepository"

definition HasFluxBucket :: ListOption where
  "HasFluxBucket = MatchingFields sourceTypeIndexKey sourceTypeFluxBucket"

definition HasFluxHelmChart :: ListOption where
  "HasFluxHelmChart = MatchingFields sourceTypeIndexKey sourceTypeFluxHelmChart"

definition HasFluxSource :: ListOption where
  "HasFluxSource = MatchingFields sourceTypeIndexKey sourceTypeFluxSource"

section \<open>Index functions\<close>

definition indexBySourceType :: "Component \<Rightarrow> string list result" where
  "indexBySourceType component =
     (let r = coSourceRef component in
      if srBlueprint r \<noteq> None then Inr [sourceTypeBlueprint]
      else if srHttpRepository r \<noteq> None then Inr [sourceTypeHttpRepository]
      else if srFluxGitRepository r \<noteq> None then Inr [sourceTypeFluxGitRepository, sourceTypeFluxSource]
      else if srFluxOciRepository r \<noteq> None then Inr [sourceTypeFluxOciRepository, sourceTypeFluxSource]
      else if srFluxBucket r \<noteq> None then Inr [sourceTypeFluxBucket, sourceTypeFluxSource]
      else if srFluxHelmChart r \<noteq> None then Inr [sourceTypeFluxHelmChart, sourceTypeFluxSource]
      else Inl (Panic ''this cannot happen''))"

definition index_name :: "string \<Rightarrow> NamespacedName \<Rightarrow> string" where
  "index_name namespace n = NamespacedName_String (WithDefaultNamespace n namespace)"

definition indexByDependencies :: "Component \<Rightarrow> string list" where
  "indexByDependencies component = map (index_name (coNamespace component)) (spDependencies (coSpec component))"

definition indexByBlueprint :: "Component \<Rightarrow> string list" where
  "indexByBlueprint component = (case srBlueprint (coSourceRef component) of
     None \<Rightarrow> []
   | Some ref \<Rightarrow> [index_name (coNamespace component) ref])"

definition indexByBlueprintVersion :: "Component \<Rightarrow> string list" where
  "indexByBlueprintVersion component = (case srBlueprint (coSourceRef component) of
     None \<Rightarrow> []
   | Some ref \<Rightarrow>
     (case csSourceRef (coStatus component) of
        None \<Rightarrow> []
      | Some st \<Rightarrow>
        if artDigest (srsArtifact st) = [] then []
        else [index_name (coNamespace component)
                \<lparr>nnNamespace = nnNamespace ref,
                 nnName = nnName ref @ ''--'' @ artDigest (srsArtifact st)\<rparr>]))"

definition indexCompoonentByGitRepository :: "Component \<Rightarrow> string list" where
  "indexCompoonentByGitRepository component = (case srFluxGitRepository (coSourceRef component) of
     None \<Rightarrow> []
   | Some ref \<Rightarrow> [index_name (coNamespace component) ref])"

definition indexCompoonentByOciRepository :: "Component \<Rightarrow> string list" where
  "indexCompoonentByOciRepository component = (case srFluxOciRepository (coSourceRef component) of
     None \<Rightarrow> []
   | Some ref \<Rightarrow> [index_name (coNamespace component) ref])"

definition indexCompoonentByBucket :: "Component \<Rightarrow> string list" where
  "indexCompoonentByBucket component = (case srFluxBucket (coSourceRef component) of
     None \<Rightarrow> []
   | Some ref \<Rightarrow> [index_name (coNamespace component) ref])"

definition indexCompoonentByHelmChart :: "Component \<Rightarrow> string list" where
  "indexCompoonentByHelmChart component = (case srFluxHelmChart (coSourceRef component) of
     None \<Rightarrow> []
   | Some ref \<Rightarrow> [index_name (coNamespace component) ref])"

section \<open>Registration\<close>

type_synonym index_func = "Component \<Rightarrow> string list result"

definition pure_index :: "(Component \<Rightarrow> string list) \<Rightarrow> index_func" where
  "pure_index f c = Inr (f c)"

definition index_funcs :: "(string \<times> index_func) list" where
  "index_funcs =
     [(sourceTypeIndexKey, indexBySourceType),
      (dependenciesIndexKey, pure_index indexByDependencies),
      (blueprintIndexKey, pure_index indexByBlueprint),
      (blueprintVersionIndexKey, pure_index indexByBlueprintVersion),
      (gitRepositoryIndexKey, pure_index indexCompoonentByGitRepository),
      (ociRepositoryIndexKey, pure_index indexCompoonentByOciRepository),
      (bucketIndexKey, pure_index indexCompoonentByBucket),
      (helmChartIndexKey, pure_index indexCompoonentByHelmChart)]"

text \<open>
  \<open>SetupWithManager\<close> registers the indexers one after the other and stops at the first error.
  \<open>IndexField\<close> is the call into the cache, on the cache's state.
\<close>

definition index_error :: "string \<Rightarrow> string" where
  "index_error k = ''failed setting index field '' @ k"

fun register_indexes ::
  "('s \<Rightarrow> string \<Rightarrow> index_func \<Rightarrow> 's \<times> error option) \<Rightarrow> 's \<Rightarrow> (string \<times> index_func) list \<Rightarrow> 's \<times> error option" where
  "register_indexes IndexField s [] = (s, None)"
| "register_indexes IndexField s ((k, f) # rest) =
     (case IndexField s k f of
        (s', Some err) \<Rightarrow> (s', Some (Wrap err (index_error k)))
      | (s', None) \<Rightarrow> register_indexes IndexField s' rest)"

definition cache_SetupWithManager ::
  "('s \<Rightarrow> string \<Rightarrow> index_func \<Rightarrow> 's \<times> error option) \<Rightarrow> 's \<Rightarrow> 's \<times> error option" where
  "cache_SetupWithManager IndexField s = register_indexes IndexField s index_funcs"

section \<open>What the cache answers\<close>

type_synonym cache_list = "ListOption list \<Rightarrow> error + Component list"

definition indexed :: "Component set \<Rightarrow> index_func \<Rightarrow> string \<Rightarrow> Component set" where
  "indexed store f v = {c \<in> store. \<exists>vs. f c = Inr vs \<and> v \<in> set vs}"

definition indexed_cache :: "Component set \<Rightarrow> cache_list \<Rightarrow> bool" where
  "indexed_cache store clist \<longleftrightarrow>
     (\<forall>k f v cs. map_of index_funcs k = Some f \<longrightarrow> clist [MatchingFields k v] = Inr cs \<longrightarrow>
        set cs = indexed store f v) \<and>
     (\<forall>k f v n cs. map_of index_funcs k = Some f \<longrightarrow> clist [MatchingFields k v, Limit n] = Inr cs \<longrightarrow>
        set cs \<subseteq> indexed store f v \<and> (0 < n \<longrightarrow> cs = [] \<longrightarrow> indexed store f v = {}))"

lemma index_funcs_distinct: "distinct_keys index_funcs"
  by (simp add: index_funcs_def index_keys)

lemma index_funcs_lookup [simp]:
  "map_of index_funcs sourceTypeIndexKey = Some indexBySourceType"
  "map_of index_funcs dependenciesIndexKey = Some (pure_index indexByDependencies)"
  "map_of index_funcs blueprintIndexKey = Some (pure_index indexByBlueprint)"
  "map_of index_funcs blueprintVersionIndexKey = Some (pure_index indexByBlueprintVersion)"
  "map_of index_funcs gitRepositoryIndexKey = Some (pure_index indexCompoonentByGitRepository)"
  "map_of index_funcs ociRepositoryIndexKey = Some (pure_index indexCompoonentByOciRepository)"
  "map_of index_funcs bucketIndexKey = Some (pure_index indexCompoonentByBucket)"
  "map_of index_funcs helmChartIndexKey = Some (pure_index indexCompoonentByHelmChart)"
  by (rule map_of_is_SomeI [OF index_funcs_distinct], simp add: index_funcs_def)+

lemma indexed_pure [simp]: "indexed store (pure_index f) v = {c \<in> store. v \<in> set (f c)}"
  by (auto simp: indexed_def pure_index_def)

lemma indexed_cache_list:
  "indexed_cache store clist \<Longrightarrow> map_of index_funcs k = Some f \<Longrightarrow> clist [MatchingFields k v] = Inr cs \<Longrightarrow>
     set cs = indexed store f v"
  by (auto simp: indexed_cache_def)

lemma indexed_cache_limit:
  "indexed_cache store clist \<Longrightarrow> map_of index_funcs k = Some f \<Longrightarrow>
     clist [MatchingFields k v, Limit n] = Inr cs \<Longrightarrow> 0 < n \<Longrightarrow> cs = [] \<longleftrightarrow> indexed store f v = {}"
  unfolding indexed_cache_def by (cases cs) (blast, fastforce)

text \<open>
  An instance of that behaviour, for the witnesses: a cache that keeps its components in a list and
  answers by evaluating the index functions.
\<close>

definition index_matches :: "index_func \<Rightarrow> string \<Rightarrow> Component \<Rightarrow> bool" where
  "index_matches f v c = (case f c of Inl _ \<Rightarrow> False | Inr vs \<Rightarrow> v \<in> set vs)"

fun list_cache :: "Component list \<Rightarrow> cache_list" where
  "list_cache store [MatchingFields k v] =
     (case map_of index_funcs k of
        None \<Rightarrow> Inl (Failure ''no such index'')
      | Some f \<Rightarrow> Inr (filter (index_matches f v) store))"
| "list_cache store [MatchingFields k v, Limit n] =
     (case map_of index_funcs k of
        None \<Rightarrow> Inl (Failure ''no such index'')
      | Some f \<Rightarrow> Inr (take n (filter (index_matches f v) store)))"
| "list_cache store _ = Inl (Failure ''unsupported options'')"

lemma index_matches_iff: "index_matches f v c \<longleftrightarrow> (\<exists>vs. f c = Inr vs \<and> v \<in> set vs)"
  by (cases "f c") (auto simp: index_matches_def)

lemma set_filter_index: "set (filter (index_matches f v) store) = indexed (set store) f v"
  by (simp add: indexed_def index_matches_iff)

lemma list_cache_indexed: "indexed_cache (set store) (list_cache store)"
  unfolding indexed_cache_def
proof (intro conjI allI impI)
  fix k f v n cs
  assume f: "map_of index_funcs k = Some f"
  show "set cs = indexed (set store) f v" if "list_cache store [MatchingFields k v] = Inr cs"
    using that f set_filter_index [of f v store] by simp
  assume "list_cache store [MatchingFields k v, Limit n] = Inr cs"
  then have cs: "cs = take n (filter (index_matches f v) store)" using f by simp
  show "set cs \<subseteq> indexed (set store) f v"
    unfolding cs set_filter_index [symmetric] by (rule set_take_subset)
  show "indexed (set store) f v = {}" if "0 < n" "cs = []"
  proof -
    have "take n (filter (index_matches f v) store) = []" using that(2) cs by (simp only:)
    then have "filter (index_matches f v) store = []" using that(1) unfolding take_eq_Nil by blast
    then show ?thesis using set_filter_index [of f v store] by simp
  qed
qed

text \<open>
  Registration leaves exactly the listed indexers in a cache that stores what it is given, and an
  error names the first field that failed.
\<close>

lemma register_indexes_error:
  "register_indexes IndexField s fs = (s', Some e) \<Longrightarrow>
     \<exists>k f err s1. (k, f) \<in> set fs \<and> IndexField s1 k f = (s', Some err) \<and>
       e = Wrap err (index_error k)"
proof (induction IndexField s fs rule: register_indexes.induct)
  case (2 IndexField s k f rest)
  show ?case
  proof (cases "IndexField s k f")
    case (Pair s1 o1)
    show ?thesis
    proof (cases o1)
      case None
      with Pair 2 show ?thesis by fastforce
    next
      case (Some err)
      with Pair 2 have "IndexField s k f = (s', Some err)" "e = Wrap err (index_error k)" by simp_all
      then show ?thesis by (intro exI [of _ k] exI [of _ f] exI [of _ err] exI [of _ s]) simp
    qed
  qed
qed simp

section \<open>Index functions that name references\<close>

text \<open>
  Every index but the one by source type lists the printed names of some references of a component,
  completed with the component's namespace. For such an index, a query with the printed key of an
  object finds exactly the components with a reference that resolves to the object.
\<close>

definition resolves_to :: "Component \<Rightarrow> NamespacedName \<Rightarrow> string \<Rightarrow> string \<Rightarrow> bool" where
  "resolves_to c ref namespace name \<longleftrightarrow>
     WithDefaultNamespace ref (coNamespace c) = \<lparr>nnNamespace = namespace, nnName = name\<rparr>"

text \<open>Names as Kubernetes admits them: no slash in a namespace, and every object has a namespace.\<close>

definition k8s_component :: "Component \<Rightarrow> bool" where
  "k8s_component c \<longleftrightarrow> coNamespace c \<noteq> [] \<and> CHR ''/'' \<notin> set (coNamespace c)"

definition k8s_reference :: "NamespacedName \<Rightarrow> bool" where
  "k8s_reference n \<longleftrightarrow> CHR ''/'' \<notin> set (nnNamespace n)"

lemma index_name_key_iff:
  assumes "k8s_component c" "k8s_reference ref" "CHR ''/'' \<notin> set ns"
  shows "index_name (coNamespace c) ref = ns @ ''/'' @ name \<longleftrightarrow> resolves_to c ref ns name"
  using assms
  by (cases ref) (auto simp: index_name_def NamespacedName_String_def resolves_to_def k8s_component_def
      k8s_reference_def WithDefaultNamespace_def sep_inject)

locale reference_index =
  fixes refs :: "Component \<Rightarrow> NamespacedName list"
    and idx :: "Component \<Rightarrow> string list"
  assumes idx_refs: "idx c = map (index_name (coNamespace c)) (refs c)"
begin

lemma key_in_index:
  assumes "k8s_component c" "\<forall>r \<in> set (refs c). k8s_reference r" "CHR ''/'' \<notin> set ns"
  shows "ns @ ''/'' @ name \<in> set (idx c) \<longleftrightarrow> (\<exists>r \<in> set (refs c). resolves_to c r ns name)"
proof -
  have "ns @ ''/'' @ name \<in> set (idx c) \<longleftrightarrow>
      (\<exists>r \<in> set (refs c). index_name (coNamespace c) r = ns @ ''/'' @ name)"
    unfolding idx_refs by force
  with assms index_name_key_iff show ?thesis by auto
qed

lemma query_finds_referrers:
  assumes "indexed_cache store clist" "map_of index_funcs k = Some (pure_index idx)"
    and "object_key key" "clist [MatchingFields k (key ns name)] = Inr cs"
    and "\<forall>c \<in> store. k8s_component c \<and> (\<forall>r \<in> set (refs c). k8s_reference r)"
    and "CHR ''/'' \<notin> set ns"
  shows "set cs = {c \<in> store. \<exists>r \<in> set (refs c). resolves_to c r ns name}"
proof -
  have "set cs = {c \<in> store. ns @ ''/'' @ name \<in> set (idx c)}"
    using indexed_cache_list [OF assms(1,2,4)] assms(3) by (simp add: object_key_def)
  with assms(5,6) key_in_index show ?thesis by blast
qed

lemma limited_query_empty_iff:
  assumes "indexed_cache store clist" "map_of index_funcs k = Some (pure_index idx)"
    and "object_key key" "clist [MatchingFields k (key ns name), Limit n] = Inr cs" "0 < n"
    and "\<forall>c \<in> store. k8s_component c \<and> (\<forall>r \<in> set (refs c). k8s_reference r)"
    and "CHR ''/'' \<notin> set ns"
  shows "cs = [] \<longleftrightarrow> (\<forall>c \<in> store. \<forall>r \<in> set (refs c). \<not> resolves_to c r ns name)"
proof -
  have "cs = [] \<longleftrightarrow> {c \<in> store. ns @ ''/'' @ name \<in> set (idx c)} = {}"
    using indexed_cache_limit [OF assms(1,2,4,5)] assms(3) by (simp add: object_key_def)
  with assms(6,7) key_in_index show ?thesis by blast
qed

end

text \<open>The references behind each index.\<close>

definition opt_list :: "'a option \<Rightarrow> 'a list" where
  "opt_list x = (case x of None \<Rightarrow> [] | Some v \<Rightarrow> [v])"

lemma in_opt_list [simp]: "v \<in> set (opt_list x) \<longleftrightarrow> x = Some v"
  by (cases x) (auto simp: opt_list_def)

lemma Bex_opt_list [simp]: "(\<exists>v \<in> set (opt_list x). P v) \<longleftrightarrow> (\<exists>v. x = Some v \<and> P v)"
  by (cases x) (auto simp: opt_list_def)

definition version_refs :: "Component \<Rightarrow> NamespacedName list" where
  "version_refs c = (case (srBlueprint (coSourceRef c), csSourceRef (coStatus c)) of
     (Some ref, Some st) \<Rightarrow>
       if artDigest (srsArtifact st) = [] then []
       else [\<lparr>nnNamespace = nnNamespace ref, nnName = nnName ref @ ''--'' @ artDigest (srsArtifact st)\<rparr>]
   | _ \<Rightarrow> [])"

interpretation dependencies_index: reference_index "\<lambda>c. spDependencies (coSpec c)" indexByDependencies
  by unfold_locales (simp add: indexByDependencies_def)

interpretation blueprint_index: reference_index "\<lambda>c. opt_list (srBlueprint (coSourceRef c))" indexByBlueprint
  by unfold_locales (simp add: indexByBlueprint_def opt_list_def split: option.splits)

interpretation version_index: reference_index version_refs indexByBlueprintVersion
  by unfold_locales (simp add: indexByBlueprintVersion_def version_refs_def split: option.splits)

interpretation git_index: reference_index "\<lambda>c. opt_list (srFluxGitRepository (coSourceRef c))"
  indexCompoonentByGitRepository
  by unfold_locales (simp add: indexCompoonentByGitRepository_def opt_list_def split: option.splits)

interpretation oci_index: reference_index "\<lambda>c. opt_list (srFluxOciRepository (coSourceRef c))"
  indexCompoonentByOciRepository
  by unfold_locales (simp add: indexCompoonentByOciRepository_def opt_list_def split: option.splits)

interpretation bucket_index: reference_index "\<lambda>c. opt_list (srFluxBucket (coSourceRef c))"
  indexCompoonentByBucket
  by unfold_locales (simp add: indexCompoonentByBucket_def opt_list_def split: option.splits)

interpretation chart_index: reference_index "\<lambda>c. opt_list (srFluxHelmChart (coSourceRef c))"
  indexCompoonentByHelmChart
  by unfold_locales (simp add: indexCompoonentByHelmChart_def opt_list_def split: option.splits)

text \<open>
  The assumptions under which the cache serves the controllers: it answers by index, keys are
  printed as namespace/name, and all names are as Kubernetes admits them.
\<close>

definition k8s_names :: "Component \<Rightarrow> bool" where
  "k8s_names c \<longleftrightarrow> k8s_component c \<and> (\<forall>r \<in> set (spDependencies (coSpec c)). k8s_reference r) \<and>
     (\<forall>r \<in> set (opt_list (srBlueprint (coSourceRef c)) @ opt_list (srFluxGitRepository (coSourceRef c)) @
        opt_list (srFluxOciRepository (coSourceRef c)) @ opt_list (srFluxBucket (coSourceRef c)) @
        opt_list (srFluxHelmChart (coSourceRef c))). k8s_reference r)"

definition cache_serves :: "Component set \<Rightarrow> (string \<Rightarrow> string \<Rightarrow> string) \<Rightarrow> cache_list \<Rightarrow> bool" where
  "cache_serves store key clist \<longleftrightarrow>
     indexed_cache store clist \<and> object_key key \<and> (\<forall>c \<in> store. k8s_names c)"

lemma version_refs_k8s: "k8s_names c \<Longrightarrow> r \<in> set (version_refs c) \<Longrightarrow> k8s_reference r"
  by (auto simp: version_refs_def k8s_names_def opt_list_def k8s_reference_def
      split: option.splits if_splits)

lemma cache_servesD:
  assumes "cache_serves store key clist"
  shows "indexed_cache store clist" "object_key key"
    "\<forall>c \<in> store. k8s_component c \<and> (\<forall>r \<in> set (spDependencies (coSpec c)). k8s_reference r)"
    "\<forall>c \<in> store. k8s_component c \<and> (\<forall>r \<in> set (opt_list (srBlueprint (coSourceRef c))). k8s_reference r)"
    "\<forall>c \<in> store. k8s_component c \<and> (\<forall>r \<in> set (version_refs c). k8s_reference r)"
proof -
  from assms show "indexed_cache store clist" "object_key key" by (simp_all add: cache_serves_def)
  from assms have n: "k8s_names c" if "c \<in> store" for c using that by (simp add: cache_serves_def)
  show "\<forall>c \<in> store. k8s_component c \<and> (\<forall>r \<in> set (spDependencies (coSpec c)). k8s_reference r)"
    "\<forall>c \<in> store. k8s_component c \<and> (\<forall>r \<in> set (opt_list (srBlueprint (coSourceRef c))). k8s_reference r)"
    using n by (simp_all add: k8s_names_def)
  show "\<forall>c \<in> store. k8s_component c \<and> (\<forall>r \<in> set (version_refs c). k8s_reference r)"
  proof (intro ballI conjI)
    show "k8s_component c" if "c \<in> store" for c using n [OF that] by (simp add: k8s_names_def)
    show "k8s_reference r" if "c \<in> store" "r \<in> set (version_refs c)" for c r
      using n [OF that(1)] that(2) by (rule version_refs_k8s)
  qed
qed

lemma dependency_query:
  assumes "cache_serves store key clist" "CHR ''/'' \<notin> set (coNamespace c')"
    and "clist [MatchingDependency key c'] = Inr cs"
  shows "set cs = {c \<in> store. \<exists>r \<in> set (spDependencies (coSpec c)). resolves_to c r (coNamespace c') (coName c')}"
proof (rule dependencies_index.query_finds_referrers)
  show "clist [MatchingFields dependenciesIndexKey (key (coNamespace c') (coName c'))] = Inr cs"
    using assms(3) by (simp add: MatchingDependency_def)
qed (use assms(2) cache_servesD [OF assms(1)] in simp_all)

lemma blueprint_query:
  assumes "cache_serves store key clist" "CHR ''/'' \<notin> set (bpNamespace b)"
    and "clist [MatchingBlueprint key b] = Inr cs"
  shows "set cs = {c \<in> store. \<exists>r. srBlueprint (coSourceRef c) = Some r \<and> resolves_to c r (bpNamespace b) (bpName b)}"
proof -
  have "set cs = {c \<in> store. \<exists>r \<in> set (opt_list (srBlueprint (coSourceRef c))). resolves_to c r (bpNamespace b) (bpName b)}"
  proof (rule blueprint_index.query_finds_referrers)
    show "clist [MatchingFields blueprintIndexKey (key (bpNamespace b) (bpName b))] = Inr cs"
      using assms(3) by (simp add: MatchingBlueprint_def)
  qed (use assms(2) cache_servesD [OF assms(1)] in simp_all)
  then show ?thesis by simp
qed

text \<open>The reference of a component to a flux source of a given kind.\<close>

definition flux_ref :: "FluxKind \<Rightarrow> Component \<Rightarrow> NamespacedName option" where
  "flux_ref kind c = (case kind of
     GitRepository \<Rightarrow> srFluxGitRepository (coSourceRef c)
   | OCIRepository \<Rightarrow> srFluxOciRepository (coSourceRef c)
   | Bucket \<Rightarrow> srFluxBucket (coSourceRef c)
   | HelmChart \<Rightarrow> srFluxHelmChart (coSourceRef c))"

lemma flux_query:
  assumes "cache_serves store key clist" "CHR ''/'' \<notin> set (omNamespace (fsMeta src))"
    and "clist [MatchingFluxSource key src] = Inr cs"
  shows "set cs = {c \<in> store. \<exists>r \<in> set (opt_list (flux_ref (fsKind src) c)).
    resolves_to c r (omNamespace (fsMeta src)) (omName (fsMeta src))}"
proof -
  have st: "indexed_cache store clist" "object_key key"
    "\<forall>c \<in> store. k8s_component c \<and> (\<forall>r \<in> set (opt_list (flux_ref k c)). k8s_reference r)" for k
    using assms(1) by (auto simp: cache_serves_def k8s_names_def flux_ref_def split: FluxKind.splits)
  show ?thesis
  proof (cases "fsKind src")
    case GitRepository
    with assms(3) have "clist [MatchingFields gitRepositoryIndexKey (key (omNamespace (fsMeta src)) (omName (fsMeta src)))] = Inr cs"
      by (simp add: MatchingFluxSource_def)
    from git_index.query_finds_referrers [OF st(1) index_funcs_lookup(5) st(2) this] st(3) [of GitRepository] GitRepository assms(2)
    show ?thesis by (simp add: flux_ref_def)
  next
    case OCIRepository
    with assms(3) have "clist [MatchingFields ociRepositoryIndexKey (key (omNamespace (fsMeta src)) (omName (fsMeta src)))] = Inr cs"
      by (simp add: MatchingFluxSource_def)
    from oci_index.query_finds_referrers [OF st(1) index_funcs_lookup(6) st(2) this] st(3) [of OCIRepository] OCIRepository assms(2)
    show ?thesis by (simp add: flux_ref_def)
  next
    case Bucket
    with assms(3) have "clist [MatchingFields bucketIndexKey (key (omNamespace (fsMeta src)) (omName (fsMeta src)))] = Inr cs"
      by (simp add: MatchingFluxSource_def)
    from bucket_index.query_finds_referrers [OF st(1) index_funcs_lookup(7) st(2) this] st(3) [of Bucket] Bucket assms(2)
    show ?thesis by (simp add: flux_ref_def)
  next
    case HelmChart
    with assms(3) have "clist [MatchingFields helmChartIndexKey (key (omNamespace (fsMeta src)) (omName (fsMeta src)))] = Inr cs"
      by (simp add: MatchingFluxSource_def)
    from chart_index.query_finds_referrers [OF st(1) index_funcs_lookup(8) st(2) this] st(3) [of HelmChart] HelmChart assms(2)
    show ?thesis by (simp add: flux_ref_def)
  qed
qed

lemma version_query_empty_iff:
  assumes "cache_serves store key clist" "CHR ''/'' \<notin> set (bvNamespace v)"
    and "clist [MatchingBlueprintVersion key v, Limit 1] = Inr cs"
  shows "cs = [] \<longleftrightarrow> (\<forall>c \<in> store. \<forall>r \<in> set (version_refs c). \<not> resolves_to c r (bvNamespace v) (bvName v))"
proof (rule version_index.limited_query_empty_iff)
  show "clist [MatchingFields blueprintVersionIndexKey (key (bvNamespace v) (bvName v)), Limit 1] = Inr cs"
    using assms(3) by (simp add: MatchingBlueprintVersion_def)
qed (use assms(2) cache_servesD [OF assms(1)] in simp_all)

end
