(* ===== verification/Handlers.thy ===== *)
theory Handlers
  imports ComponentCache
begin

text \<open>
  The event handlers of the component controller (\<open>internal/controllers/component/handlers.go\<close>):
  watch events become reconcile requests. The work queue is the list of the requests added to it,
  in order. The cache's answer is an argument; logging is left out.
\<close>

section \<open>Events and queues\<close>

type_synonym request = NamespacedName
type_synonym queue = "request list"

definition q_Add :: "queue \<Rightarrow> request \<Rightarrow> queue" where
  "q_Add q r = q @ [r]"

datatype 'o event = CreateEvent 'o | UpdateEvent 'o 'o | DeleteEvent 'o | GenericEvent 'o

fun run_events :: "('env \<Rightarrow> 'o event \<Rightarrow> queue \<Rightarrow> queue) \<Rightarrow> ('env \<times> 'o event) list \<Rightarrow> queue \<Rightarrow> queue" where
  "run_events handle [] q = q"
| "run_events handle ((env, ev) # evs) q = run_events handle evs (handle env ev q)"

section \<open>Component events\<close>

definition request_of :: "Component \<Rightarrow> request" where
  "request_of c = \<lparr>nnNamespace = coNamespace c, nnName = coName c\<rparr>"

definition componentHandler_Create :: "Component \<Rightarrow> queue \<Rightarrow> queue" where
  "componentHandler_Create e q = q"

definition componentHandler_Update ::
  "(string \<Rightarrow> string \<Rightarrow> string) \<Rightarrow> cache_list \<Rightarrow> Component \<Rightarrow> queue \<Rightarrow> queue" where
  "componentHandler_Update key clist newComponent q =
     (if \<not> Component_IsReady newComponent then q
      else case clist [MatchingDependency key newComponent] of
        Inl err \<Rightarrow> q
      | Inr items \<Rightarrow> foldl (\<lambda>q c. q_Add q (request_of c)) q items)"

definition dependency_request :: "Component \<Rightarrow> Dependency \<Rightarrow> request" where
  "dependency_request component dependency =
     \<lparr>nnNamespace = nnNamespace (WithDefaultNamespace dependency (coNamespace component)),
      nnName = nnName dependency\<rparr>"

definition componentHandler_Delete :: "Component \<Rightarrow> queue \<Rightarrow> queue" where
  "componentHandler_Delete component q =
     foldl (\<lambda>q d. q_Add q (dependency_request component d)) q (spDependencies (coSpec component))"

definition componentHandler_Generic :: "Component \<Rightarrow> queue \<Rightarrow> queue" where
  "componentHandler_Generic e q = q"

fun componentHandler ::
  "(string \<Rightarrow> string \<Rightarrow> string) \<Rightarrow> cache_list \<Rightarrow> Component event \<Rightarrow> queue \<Rightarrow> queue" where
  "componentHandler key clist (CreateEvent c) q = componentHandler_Create c q"
| "componentHandler key clist (UpdateEvent old new) q = componentHandler_Update key clist new q"
| "componentHandler key clist (DeleteEvent c) q = componentHandler_Delete c q"
| "componentHandler key clist (GenericEvent c) q = componentHandler_Generic c q"

text \<open>A new handler is its methods with the cache they read.\<close>

definition newComponentHandler ::
  "(string \<Rightarrow> string \<Rightarrow> string) \<Rightarrow> cache_list \<Rightarrow> Component event \<Rightarrow> queue \<Rightarrow> queue" where
  "newComponentHandler key cache = componentHandler key cache"

section \<open>Blueprint events\<close>

text \<open>Both source handlers skip components that are ready and already at the new digest and revision.\<close>

definition up_to_date :: "Component \<Rightarrow> string \<Rightarrow> string \<Rightarrow> bool" where
  "up_to_date c digest revision \<longleftrightarrow> Component_IsReady c \<and>
     csLastAttemptedDigest (coStatus c) = digest \<and> csLastAttemptedRevision (coStatus c) = revision"

definition blueprintHandler_createOrUpdate ::
  "(string \<Rightarrow> string \<Rightarrow> string) \<Rightarrow> cache_list \<Rightarrow> Blueprint \<Rightarrow> queue \<Rightarrow> queue" where
  "blueprintHandler_createOrUpdate key clist blueprint q =
     (case clist [MatchingBlueprint key blueprint] of
        Inl err \<Rightarrow> q
      | Inr items \<Rightarrow>
        foldl (\<lambda>q c. if up_to_date c (GetDigest blueprint) (GetRevision blueprint) then q
                     else q_Add q (request_of c)) q items)"

definition blueprintHandler_Create ::
  "(string \<Rightarrow> string \<Rightarrow> string) \<Rightarrow> cache_list \<Rightarrow> Blueprint \<Rightarrow> queue \<Rightarrow> queue" where
  "blueprintHandler_Create key clist blueprint q = blueprintHandler_createOrUpdate key clist blueprint q"

definition blueprintHandler_Update ::
  "(string \<Rightarrow> string \<Rightarrow> string) \<Rightarrow> cache_list \<Rightarrow> Blueprint \<Rightarrow> queue \<Rightarrow> queue" where
  "blueprintHandler_Update key clist newBlueprint q = blueprintHandler_createOrUpdate key clist newBlueprint q"

definition blueprintHandler_Delete :: "Blueprint \<Rightarrow> queue \<Rightarrow> queue" where
  "blueprintHandler_Delete e q = q"

definition blueprintHandler_Generic :: "Blueprint \<Rightarrow> queue \<Rightarrow> queue" where
  "blueprintHandler_Generic e q = q"

fun blueprintHandler ::
  "(string \<Rightarrow> string \<Rightarrow> string) \<Rightarrow> cache_list \<Rightarrow> Blueprint event \<Rightarrow> queue \<Rightarrow> queue" where
  "blueprintHandler key clist (CreateEvent b) q = blueprintHandler_Create key clist b q"
| "blueprintHandler key clist (UpdateEvent old new) q = blueprintHandler_Update key clist new q"
| "blueprintHandler key clist (DeleteEvent b) q = blueprintHandler_Delete b q"
| "blueprintHandler key clist (GenericEvent b) q = blueprintHandler_Generic b q"

definition newBlueprintHandler ::
  "(string \<Rightarrow> string \<Rightarrow> string) \<Rightarrow> cache_list \<Rightarrow> Blueprint event \<Rightarrow> queue \<Rightarrow> queue" where
  "newBlueprintHandler key cache = blueprintHandler key cache"

section \<open>Flux source events\<close>

definition fluxSourceHandler_Create :: "FluxSource \<Rightarrow> queue \<Rightarrow> queue" where
  "fluxSourceHandler_Create e q = q"

definition fluxSourceHandler_Update ::
  "(string \<Rightarrow> string \<Rightarrow> string) \<Rightarrow> cache_list \<Rightarrow> FluxSource \<Rightarrow> queue \<Rightarrow> queue" where
  "fluxSourceHandler_Update key clist newSource q =
     (if \<not> FluxSource_IsReady newSource then q
      else case fsArtifact newSource of
        None \<Rightarrow> q
      | Some artifact \<Rightarrow>
        let newDigest = faDigest artifact in
        if newDigest = [] then q
        else let newRevision = faRevision artifact in
        if newRevision = [] then q
        else case clist [MatchingFluxSource key newSource] of
          Inl err \<Rightarrow> q
        | Inr items \<Rightarrow>
          foldl (\<lambda>q c. if up_to_date c newDigest newRevision then q else q_Add q (request_of c)) q items)"

definition fluxSourceHandler_Delete :: "FluxSource \<Rightarrow> queue \<Rightarrow> queue" where
  "fluxSourceHandler_Delete e q = q"

definition fluxSourceHandler_Generic :: "FluxSource \<Rightarrow> queue \<Rightarrow> queue" where
  "fluxSourceHandler_Generic e q = q"

fun fluxSourceHandler ::
  "(string \<Rightarrow> string \<Rightarrow> string) \<Rightarrow> cache_list \<Rightarrow> FluxSource event \<Rightarrow> queue \<Rightarrow> queue" where
  "fluxSourceHandler key clist (CreateEvent s) q = fluxSourceHandler_Create s q"
| "fluxSourceHandler key clist (UpdateEvent old new) q = fluxSourceHandler_Update key clist new q"
| "fluxSourceHandler key clist (DeleteEvent s) q = fluxSourceHandler_Delete s q"
| "fluxSourceHandler key clist (GenericEvent s) q = fluxSourceHandler_Generic s q"

definition newFluxSourceHandler ::
  "(string \<Rightarrow> string \<Rightarrow> string) \<Rightarrow> cache_list \<Rightarrow> FluxSource event \<Rightarrow> queue \<Rightarrow> queue" where
  "newFluxSourceHandler key cache = fluxSourceHandler key cache"

section \<open>The handler interface\<close>

text \<open>
  What the controller expects of a \<open>TypedEventHandler\<close>: handling an event only adds requests, and which
  ones does not depend on what is queued already. So no sequence of events ever loses a request.
\<close>

locale event_handler =
  fixes handle :: "'env \<Rightarrow> 'o event \<Rightarrow> queue \<Rightarrow> queue"
  assumes handle_adds: "handle env ev q = q @ handle env ev []"
begin

lemma run_adds: "run_events handle evs q = q @ concat (map (\<lambda>(env, ev). handle env ev []) evs)"
proof (induction evs arbitrary: q)
  case (Cons x evs)
  obtain env ev where x: "x = (env, ev)" by (cases x)
  show ?case using Cons [of "handle env ev q"] handle_adds [of env ev q] by (simp add: x)
qed simp

lemma run_requests:
  "r \<in> set (run_events handle evs q) \<longleftrightarrow> r \<in> set q \<or> (\<exists>(env, ev) \<in> set evs. r \<in> set (handle env ev []))"
  unfolding run_adds by auto

lemma run_append: "run_events handle (evs @ evs') q = run_events handle evs' (run_events handle evs q)"
  by (simp add: run_adds)

lemma run_keeps: "r \<in> set (run_events handle evs q) \<Longrightarrow> r \<in> set (run_events handle (evs @ evs') q)"
  unfolding run_append run_requests by blast

end

lemma foldl_q_Add: "foldl (\<lambda>q c. q_Add q (f c)) q cs = q @ map f cs"
  by (induction cs arbitrary: q) (auto simp: q_Add_def)

lemma foldl_q_Add_if: "foldl (\<lambda>q c. if P c then q else q_Add q (f c)) q cs = q @ map f (filter (\<lambda>c. \<not> P c) cs)"
  by (induction cs arbitrary: q) (auto simp: q_Add_def)

lemmas component_handlers = componentHandler_Create_def componentHandler_Update_def
  componentHandler_Delete_def componentHandler_Generic_def

lemmas blueprint_handlers = blueprintHandler_Create_def blueprintHandler_Update_def
  blueprintHandler_Delete_def blueprintHandler_Generic_def blueprintHandler_createOrUpdate_def

lemmas flux_handlers = fluxSourceHandler_Create_def fluxSourceHandler_Update_def
  fluxSourceHandler_Delete_def fluxSourceHandler_Generic_def

interpretation component_events: event_handler "\<lambda>(key, clist). componentHandler key clist"
proof
  fix env :: "(string \<Rightarrow> string \<Rightarrow> string) \<times> cache_list" and ev q
  show "(case env of (key, clist) \<Rightarrow> componentHandler key clist) ev q =
      q @ (case env of (key, clist) \<Rightarrow> componentHandler key clist) ev []"
    by (cases env; cases ev) (auto simp: component_handlers foldl_q_Add split: sum.splits)
qed

interpretation blueprint_events: event_handler "\<lambda>(key, clist). blueprintHandler key clist"
proof
  fix env :: "(string \<Rightarrow> string \<Rightarrow> string) \<times> cache_list" and ev q
  show "(case env of (key, clist) \<Rightarrow> blueprintHandler key clist) ev q =
      q @ (case env of (key, clist) \<Rightarrow> blueprintHandler key clist) ev []"
    by (cases env; cases ev) (auto simp: blueprint_handlers foldl_q_Add_if split: sum.splits)
qed

interpretation flux_events: event_handler "\<lambda>(key, clist). fluxSourceHandler key clist"
proof
  fix env :: "(string \<Rightarrow> string \<Rightarrow> string) \<times> cache_list" and ev q
  show "(case env of (key, clist) \<Rightarrow> fluxSourceHandler key clist) ev q =
      q @ (case env of (key, clist) \<Rightarrow> fluxSourceHandler key clist) ev []"
    by (cases env; cases ev)
      (auto simp: flux_handlers foldl_q_Add_if Let_def split: sum.splits option.splits)
qed

section \<open>Properties\<close>

text \<open>
  C27. When a component becomes ready, exactly the components with a dependency on it are queued, in
  addition to what was queued before.
\<close>

theorem ready_component_queues_dependents:
  assumes "cache_serves store key clist" "CHR ''/'' \<notin> set (coNamespace new)"
    and "Component_IsReady new" "clist [MatchingDependency key new] = Inr items"
  shows "set (componentHandler key clist (UpdateEvent old new) q) = set q \<union>
    request_of ` {c \<in> store. \<exists>d \<in> set (spDependencies (coSpec c)). resolves_to c d (coNamespace new) (coName new)}"
  using dependency_query [OF assms(1,2,4)] assms(3,4)
  by (simp add: componentHandler_Update_def foldl_q_Add)

text \<open>
  A created or updated blueprint queues exactly the components that use it and are not already
  ready at its digest and revision.
\<close>

theorem blueprint_queues_outdated_users:
  assumes "cache_serves store key clist" "CHR ''/'' \<notin> set (bpNamespace b)"
    and "clist [MatchingBlueprint key b] = Inr items" and "ev \<in> {CreateEvent b, UpdateEvent old b}"
  shows "set (blueprintHandler key clist ev q) = set q \<union>
    request_of ` {c \<in> store. (\<exists>r. srBlueprint (coSourceRef c) = Some r \<and> resolves_to c r (bpNamespace b) (bpName b)) \<and>
      \<not> up_to_date c (GetDigest b) (GetRevision b)}"
proof -
  have "set (blueprintHandler key clist ev q) = set q \<union>
      request_of ` {c \<in> set items. \<not> up_to_date c (GetDigest b) (GetRevision b)}"
    using assms(3,4) by (auto simp: blueprint_handlers foldl_q_Add_if)
  with blueprint_query [OF assms(1,2,3)] show ?thesis by auto
qed

text \<open>
  An updated flux source that is ready with a complete artifact queues exactly the components that
  refer to it and are not already ready at its digest and revision.
\<close>

theorem flux_queues_outdated_users:
  assumes "cache_serves store key clist" "CHR ''/'' \<notin> set (omNamespace (fsMeta src))"
    and "FluxSource_IsReady src" "fsArtifact src = Some a" "faDigest a \<noteq> []" "faRevision a \<noteq> []"
    and "clist [MatchingFluxSource key src] = Inr items"
  shows "set (fluxSourceHandler key clist (UpdateEvent old src) q) = set q \<union>
    request_of ` {c \<in> store. (\<exists>r \<in> set (opt_list (flux_ref (fsKind src) c)).
        resolves_to c r (omNamespace (fsMeta src)) (omName (fsMeta src))) \<and>
      \<not> up_to_date c (faDigest a) (faRevision a)}"
proof -
  have "set (fluxSourceHandler key clist (UpdateEvent old src) q) = set q \<union>
      request_of ` {c \<in> set items. \<not> up_to_date c (faDigest a) (faRevision a)}"
    using assms(3-7) by (auto simp: flux_handlers foldl_q_Add_if)
  with flux_query [OF assms(1,2,7)] show ?thesis by auto
qed

text \<open>
  No request is ever lost or changed by later events: after any sequence of component events the
  queue is the old queue followed by what each event adds on its own.
\<close>

theorem component_events_only_add:
  "run_events (\<lambda>(key, clist). componentHandler key clist) evs q =
     q @ concat (map (\<lambda>((key, clist), ev). componentHandler key clist ev []) evs)"
  using component_events.run_adds [of evs q] by (simp add: case_prod_beta')

end
