(* ===== verification/HttpUtil.thy ===== *)
theory HttpUtil
  imports Prelude
begin

text \<open>
  \<open>internal/httprepository/util/artifact.go\<close>: resolving the artifact of a generic http repository
  by HEAD requests. The redirect loop is that of \<open>net/http.Client\<close> with the program's
  \<open>CheckRedirect\<close>; it has no bound on the number of hops, so the loop is an option-valued partial
  function, \<open>None\<close> meaning that the call never returns. The server and URL handling are parameters:
  \<open>heRoundTrip\<close> gives the reply to the n-th request, \<open>heParse\<close> and \<open>heResolve\<close> are \<open>net/url\<close>.
\<close>

section \<open>Headers\<close>

type_synonym header = "(string \<times> string list) list"

definition is_upper :: "char \<Rightarrow> bool" where
  "is_upper c = (let n = (of_char c :: nat) in 65 \<le> n \<and> n \<le> 90)"

definition is_lower :: "char \<Rightarrow> bool" where
  "is_lower c = (let n = (of_char c :: nat) in 97 \<le> n \<and> n \<le> 122)"

definition to_upper :: "char \<Rightarrow> char" where
  "to_upper c = (if is_lower c then char_of (of_char c - 32 :: nat) else c)"

definition to_lower :: "char \<Rightarrow> char" where
  "to_lower c = (if is_upper c then char_of (of_char c + 32 :: nat) else c)"

definition valid_header_byte :: "char \<Rightarrow> bool" where
  "valid_header_byte c \<longleftrightarrow> is_upper c \<or> is_lower c \<or> c \<in> digits \<or>
     c \<in> set [CHR ''!'', CHR ''#'', CHR ''$'', CHR ''%'', CHR ''&'', CHR 0x27, CHR ''*'', CHR ''+'',
       CHR ''-'', CHR ''.'', CHR ''^'', CHR ''_'', CHR 0x60, CHR ''|'', CHR ''~'']"

fun canonical_bytes :: "bool \<Rightarrow> string \<Rightarrow> string" where
  "canonical_bytes upper [] = []"
| "canonical_bytes upper (c # s) =
     (if upper then to_upper c else to_lower c) # canonical_bytes (c = CHR ''-'') s"

definition CanonicalHeaderKey :: "string \<Rightarrow> string" where
  "CanonicalHeaderKey s = (if \<forall>c \<in> set s. valid_header_byte c then canonical_bytes True s else s)"

definition Header_Get :: "header \<Rightarrow> string \<Rightarrow> string" where
  "Header_Get h k = (case map_of h (CanonicalHeaderKey k) of
     Some (v # _) \<Rightarrow> v
   | _ \<Rightarrow> [])"

section \<open>The HEAD request\<close>

record http_reply =
  hrpStatusCode :: int
  hrpHeader :: header

record http_response = http_reply +
  rspRequestURL :: string

record http_env =
  heParse :: "string \<Rightarrow> error + string"
  heResolve :: "string \<Rightarrow> string \<Rightarrow> error + string"
  heRoundTrip :: "nat \<Rightarrow> string \<Rightarrow> error + http_reply"

definition with_url :: "http_reply \<Rightarrow> string \<Rightarrow> http_response" where
  "with_url r u = http_reply.extend r \<lparr>rspRequestURL = u\<rparr>"

definition redirect_codes :: "int set" where
  "redirect_codes = {301, 302, 303, 307, 308}"

partial_function (option) head_loop ::
  "http_env \<Rightarrow> string \<Rightarrow> nat \<Rightarrow> string \<Rightarrow> (error + http_response) option" where
  "head_loop env digestHeader n url =
     (case heRoundTrip env n url of
        Inl e \<Rightarrow> Some (Inl e)
      | Inr reply \<Rightarrow>
        if hrpStatusCode reply \<notin> redirect_codes \<or> Header_Get (hrpHeader reply) ''Location'' = []
        then Some (Inr (with_url reply url))
        else (case heResolve env url (Header_Get (hrpHeader reply) ''Location'') of
            Inl e \<Rightarrow> Some (Inl e)
          | Inr next_url \<Rightarrow>
            if Header_Get (hrpHeader reply) digestHeader \<noteq> [] then Some (Inr (with_url reply url))
            else head_loop env digestHeader (Suc n) next_url))"

definition client_Head :: "http_env \<Rightarrow> string \<Rightarrow> string \<Rightarrow> (error + http_response) option" where
  "client_Head env digestHeader url =
     (case heParse env url of Inl e \<Rightarrow> Some (Inl e) | Inr u \<Rightarrow> head_loop env digestHeader 0 u)"

definition response_Location :: "http_env \<Rightarrow> http_response \<Rightarrow> error + string" where
  "response_Location env resp =
     (let loc = Header_Get (hrpHeader resp) ''Location'' in
      if loc = [] then Inl (Errorf ''http: no Location header in response'')
      else heResolve env (rspRequestURL resp) loc)"

section \<open>GetArtifact\<close>

definition default_digestHeader :: "string \<Rightarrow> string" where
  "default_digestHeader digestHeader = (if digestHeader = [] then ''etag'' else digestHeader)"

definition default_revisionHeader :: "string \<Rightarrow> string \<Rightarrow> string" where
  "default_revisionHeader digestHeader revisionHeader =
     (if revisionHeader = [] then digestHeader else revisionHeader)"

definition artifact_of_response ::
  "http_env \<Rightarrow> string \<Rightarrow> string \<Rightarrow> http_response \<Rightarrow> error + string \<times> string \<times> string" where
  "artifact_of_response env digestHeader revisionHeader resp =
     rbind
       (if 400 \<le> hrpStatusCode resp then
          Inl (Errorf (''error calling source reference URL: '' @ int_str (hrpStatusCode resp)))
        else if 300 \<le> hrpStatusCode resp then response_Location env resp
        else if 200 \<le> hrpStatusCode resp then Inr (rspRequestURL resp)
        else Inl (Errorf ''referenced source not ready''))
       (\<lambda>url.
          let digest = Header_Get (hrpHeader resp) digestHeader in
          if digest = [] then Inl (Errorf ''missing digest on source reference'') else
          let revision = Header_Get (hrpHeader resp) revisionHeader in
          if revision = [] then Inl (Errorf ''missing revision on source reference'') else
          Inr (url, digest, revision))"

definition GetArtifact ::
  "http_env \<Rightarrow> string \<Rightarrow> string \<Rightarrow> string \<Rightarrow> (error + string \<times> string \<times> string) option" where
  "GetArtifact env url digestHeader revisionHeader =
     (let digestHeader = default_digestHeader digestHeader;
          revisionHeader = default_revisionHeader digestHeader revisionHeader
      in case client_Head env digestHeader url of
           None \<Rightarrow> None
         | Some (Inl e) \<Rightarrow> Some (Inl e)
         | Some (Inr resp) \<Rightarrow> Some (artifact_of_response env digestHeader revisionHeader resp))"

section \<open>Facts about the redirect loop\<close>

text \<open>
  One hop of the loop: the reply is a redirect with a resolvable location and without the
  digest header, so the client follows it.
\<close>

definition follows :: "http_env \<Rightarrow> string \<Rightarrow> nat \<Rightarrow> string \<Rightarrow> string \<Rightarrow> bool" where
  "follows env digestHeader n url next_url =
     (case heRoundTrip env n url of
        Inl e \<Rightarrow> False
      | Inr reply \<Rightarrow>
          hrpStatusCode reply \<in> redirect_codes \<and> Header_Get (hrpHeader reply) ''Location'' \<noteq> [] \<and>
          heResolve env url (Header_Get (hrpHeader reply) ''Location'') = Inr next_url \<and>
          Header_Get (hrpHeader reply) digestHeader = [])"

lemma head_loop_follows:
  "follows env dh n url u \<Longrightarrow> head_loop env dh n url = head_loop env dh (Suc n) u"
  by (subst head_loop.simps) (auto simp: follows_def split: sum.splits)

lemma head_loop_stops:
  "\<nexists>u. follows env dh n url u \<Longrightarrow> \<exists>r. head_loop env dh n url = Some r"
  by (subst head_loop.simps) (auto simp: follows_def split: sum.splits)

text \<open>Whatever the loop returns is a reply the client received for the URL it asked last.\<close>

definition final_reply :: "http_env \<Rightarrow> string \<Rightarrow> nat \<Rightarrow> http_response \<Rightarrow> bool" where
  "final_reply env dh n resp \<longleftrightarrow>
     (\<exists>m reply. n \<le> m \<and> heRoundTrip env m (rspRequestURL resp) = Inr reply \<and>
        resp = with_url reply (rspRequestURL resp) \<and> (\<nexists>u. follows env dh m (rspRequestURL resp) u))"

lemma final_reply_Suc: "final_reply env dh (Suc n) resp \<Longrightarrow> final_reply env dh n resp"
  unfolding final_reply_def by (meson Suc_leD)

lemma rspRequestURL_with_url [simp]: "rspRequestURL (with_url reply u) = u"
  by (simp add: with_url_def http_reply.defs)

lemma hrpStatusCode_with_url [simp]: "hrpStatusCode (with_url reply u) = hrpStatusCode reply"
  by (simp add: with_url_def http_reply.defs)

lemma hrpHeader_with_url [simp]: "hrpHeader (with_url reply u) = hrpHeader reply"
  by (simp add: with_url_def http_reply.defs)

lemma final_reply_here:
  "heRoundTrip env n u = Inr reply \<Longrightarrow> \<nexists>v. follows env dh n u v \<Longrightarrow> final_reply env dh n (with_url reply u)"
  by (auto simp: final_reply_def)

lemma head_loop_result:
  assumes "head_loop env dh n url = Some (Inr resp)"
  shows "final_reply env dh n resp"
proof -
  have "\<forall>resp. r = Inr resp \<longrightarrow> final_reply env dh n resp" if "head_loop env dh n url = Some r" for r
  proof (rule head_loop.raw_induct
      [where P = "\<lambda>env dh n url r. \<forall>resp. r = Inr resp \<longrightarrow> final_reply env dh n resp", OF _ that], goal_cases)
    case (1 loop env dh n url r)
    show ?case
    proof (cases "\<exists>u. follows env dh n url u")
      case True
      then obtain u where "follows env dh n url u" by blast
      with "1"(2) have "loop env dh (Suc n) u = Some r"
        by (auto simp: follows_def split: sum.splits)
      from "1"(1) [OF this] show ?thesis by (blast intro: final_reply_Suc)
    next
      case False
      with "1"(2) show ?thesis
        by (auto simp: follows_def split: sum.splits if_splits intro!: final_reply_here)
    qed
  qed
  with assms show ?thesis by blast
qed

text \<open>A server that redirects forever keeps the client busy forever.\<close>

lemma head_loop_diverges:
  assumes "\<And>m. follows env dh m (u m) (u (Suc m))"
  shows "head_loop env dh n (u n) = None"
proof (rule ccontr)
  assume "head_loop env dh n (u n) \<noteq> None"
  then obtain r where r: "head_loop env dh n (u n) = Some r" by blast
  have "\<forall>k. env' = env \<and> dh' = dh \<and> url = u k \<and> n' = k \<longrightarrow> False" if "head_loop env' dh' n' url = Some r" for env' dh' n' url r
  proof (rule head_loop.raw_induct [where P = "\<lambda>env' dh' n' url r. \<forall>k. env' = env \<and> dh' = dh \<and> url = u k \<and> n' = k \<longrightarrow> False", OF _ that],
      goal_cases)
    case (1 loop env' dh' n' url r)
    show ?case
    proof (intro allI impI)
      fix k assume k: "env' = env \<and> dh' = dh \<and> url = u k \<and> n' = k"
      with "1"(2) assms [of k] have "loop env dh (Suc k) (u (Suc k)) = Some r"
        by (auto simp: follows_def split: sum.splits)
      from "1"(1) [OF this] show False by blast
    qed
  qed
  with r show False by blast
qed

lemma GetArtifact_diverges:
  assumes "heParse env url = Inr (u 0)"
    and "\<And>m. follows env (default_digestHeader dh) m (u m) (u (Suc m))"
  shows "GetArtifact env url dh rh = None"
proof -
  have "head_loop env (default_digestHeader dh) 0 (u 0) = None"
    using assms(2) by (rule head_loop_diverges)
  with assms(1) show ?thesis by (simp add: GetArtifact_def client_Head_def Let_def)
qed

text \<open>A chain of redirects is followed to its end.\<close>

lemma head_loop_chain:
  assumes "\<And>m. m < k \<Longrightarrow> follows env dh m (u m) (u (Suc m))"
  shows "head_loop env dh 0 (u 0) = head_loop env dh k (u k)"
  using assms
proof (induction k)
  case (Suc k)
  then have "head_loop env dh 0 (u 0) = head_loop env dh k (u k)" by simp
  also have "\<dots> = head_loop env dh (Suc k) (u (Suc k))"
    using Suc.prems by (intro head_loop_follows) simp
  finally show ?case .
qed simp

section \<open>Properties\<close>

text \<open>
  A successful \<open>GetArtifact\<close> reports the answer the server gave to the last HEAD request: digest
  and revision are the non-empty values of the (defaulted) headers, the status is between 200 and
  399, and the URL is the asked one for 2xx and the resolved \<open>Location\<close> for 3xx.
\<close>

theorem GetArtifact_reports_reply:
  assumes "GetArtifact env url dh rh = Some (Inr (u, digest, revision))"
  shows "digest \<noteq> [] \<and> revision \<noteq> [] \<and>
    (\<exists>n asked reply. heRoundTrip env n asked = Inr reply \<and>
       digest = Header_Get (hrpHeader reply) (default_digestHeader dh) \<and>
       revision = Header_Get (hrpHeader reply) (default_revisionHeader (default_digestHeader dh) rh) \<and>
       200 \<le> hrpStatusCode reply \<and> hrpStatusCode reply < 400 \<and>
       (if hrpStatusCode reply < 300 then u = asked
        else heResolve env asked (Header_Get (hrpHeader reply) ''Location'') = Inr u))"
proof -
  let ?dh = "default_digestHeader dh"
  from assms obtain resp where loop: "client_Head env ?dh url = Some (Inr resp)"
    and art: "artifact_of_response env ?dh (default_revisionHeader ?dh rh) resp = Inr (u, digest, revision)"
    by (auto simp: GetArtifact_def Let_def split: option.splits sum.splits)
  from loop obtain u0 where "head_loop env ?dh 0 u0 = Some (Inr resp)"
    by (auto simp: client_Head_def split: sum.splits)
  from head_loop_result [OF this] obtain n reply where
    "heRoundTrip env n (rspRequestURL resp) = Inr reply" "resp = with_url reply (rspRequestURL resp)"
    by (auto simp: final_reply_def)
  moreover from this(2) have "hrpStatusCode resp = hrpStatusCode reply" "hrpHeader resp = hrpHeader reply"
    by (metis hrpStatusCode_with_url, metis hrpHeader_with_url)
  ultimately show ?thesis
    using art
    by (intro conjI exI [of _ n] exI [of _ "rspRequestURL resp"] exI [of _ reply])
      (auto simp: artifact_of_response_def result_iff response_Location_def Let_def split: if_splits)
qed

text \<open>
  C33. The HEAD request returns whenever the redirect chain ends: if the k-th URL of a chain of
  followed redirects is answered by something the client does not follow, \<open>GetArtifact\<close> returns.
\<close>

theorem GetArtifact_returns:
  assumes "heParse env url = Inr (u 0)"
    and "\<And>m. m < k \<Longrightarrow> follows env (default_digestHeader dh) m (u m) (u (Suc m))"
    and "\<nexists>v. follows env (default_digestHeader dh) k (u k) v"
  shows "\<exists>r. GetArtifact env url dh rh = Some r"
proof -
  obtain r where "head_loop env (default_digestHeader dh) k (u k) = Some r"
    using head_loop_stops [OF assms(3)] by blast
  moreover have "head_loop env (default_digestHeader dh) 0 (u 0) = head_loop env (default_digestHeader dh) k (u k)"
    using assms(2) by (rule head_loop_chain)
  ultimately show ?thesis
    using assms(1) by (cases r) (auto simp: GetArtifact_def client_Head_def Let_def)
qed

text \<open>
  Supplying \<open>CheckRedirect\<close> replaces the library's limit of ten redirects, and the program's
  function never stops a redirect without a digest header: a server that keeps redirecting makes
  \<open>GetArtifact\<close> run forever.
\<close>

theorem GetArtifact_redirects_forever:
  assumes "heParse env url = Inr (u 0)"
    and "\<And>m. follows env (default_digestHeader dh) m (u m) (u (Suc m))"
  shows "GetArtifact env url dh rh = None"
  using assms by (rule GetArtifact_diverges)

section \<open>Witnesses\<close>

text \<open>A server that redirects once and then serves the artifact; one that redirects to itself.\<close>

definition demo_server :: http_env where
  "demo_server = \<lparr>heParse = Inr, heResolve = (\<lambda>base loc. Inr loc),
     heRoundTrip = (\<lambda>n u.
       if u = ''http://a'' then Inr \<lparr>hrpStatusCode = 302, hrpHeader = [(''Location'', [''http://b''])]\<rparr>
       else Inr \<lparr>hrpStatusCode = 200, hrpHeader = [(''Etag'', [''d1'']), (''X-Rev'', [''r1''])]\<rparr>)\<rparr>"

definition loop_server :: http_env where
  "loop_server = \<lparr>heParse = Inr, heResolve = (\<lambda>base loc. Inr loc),
     heRoundTrip = (\<lambda>n u. Inr \<lparr>hrpStatusCode = 302, hrpHeader = [(''Location'', [''http://a''])]\<rparr>)\<rparr>"

lemma header_keys [simp]:
  "CanonicalHeaderKey ''Location'' = ''Location''" "CanonicalHeaderKey ''etag'' = ''Etag''"
  "CanonicalHeaderKey ''x-rev'' = ''X-Rev''"
  by (simp_all add: CanonicalHeaderKey_def valid_header_byte_def is_upper_def is_lower_def to_upper_def
      to_lower_def digits_def Let_def char_of_def bit_0)

lemma demo_server_run:
  "GetArtifact demo_server ''http://a'' [] ''x-rev'' = Some (Inr (''http://b'', ''d1'', ''r1''))"
  by (simp add: GetArtifact_def client_Head_def demo_server_def default_digestHeader_def
      default_revisionHeader_def head_loop.simps redirect_codes_def Header_Get_def Let_def
      artifact_of_response_def)

theorem GetArtifact_reports_reply_witness:
  "''d1'' \<noteq> [] \<and> ''r1'' \<noteq> [] \<and> (\<exists>n asked reply. heRoundTrip demo_server n asked = Inr reply \<and>
     ''d1'' = Header_Get (hrpHeader reply) (default_digestHeader []) \<and>
     ''r1'' = Header_Get (hrpHeader reply) (default_revisionHeader (default_digestHeader []) ''x-rev'') \<and>
     200 \<le> hrpStatusCode reply \<and> hrpStatusCode reply < 400 \<and>
     (if hrpStatusCode reply < 300 then ''http://b'' = asked
      else heResolve demo_server asked (Header_Get (hrpHeader reply) ''Location'') = Inr ''http://b''))"
  by (rule GetArtifact_reports_reply [OF demo_server_run])

theorem GetArtifact_returns_witness:
  "\<exists>r. GetArtifact demo_server ''http://a'' [] ''x-rev'' = Some r"
proof (rule GetArtifact_returns [where u = "\<lambda>m. if m = 0 then ''http://a'' else ''http://b''" and k = 1])
  show "heParse demo_server ''http://a'' = Inr (if (0::nat) = 0 then ''http://a'' else ''http://b'')"
    by (simp add: demo_server_def)
  show "follows demo_server (default_digestHeader []) m (if m = 0 then ''http://a'' else ''http://b'')
      (if Suc m = 0 then ''http://a'' else ''http://b'')" if "m < 1" for m
    using that by (simp add: follows_def demo_server_def Header_Get_def redirect_codes_def default_digestHeader_def)
  show "\<nexists>v. follows demo_server (default_digestHeader []) 1 (if (1::nat) = 0 then ''http://a'' else ''http://b'') v"
    by (simp add: follows_def demo_server_def redirect_codes_def)
qed

theorem GetArtifact_redirects_forever_witness:
  "GetArtifact loop_server ''http://a'' [] [] = None"
  by (rule GetArtifact_redirects_forever [where u = "\<lambda>_. ''http://a''"])
    (simp_all add: follows_def loop_server_def Header_Get_def redirect_codes_def default_digestHeader_def)

end
