(* ===== verification/SourceRef.thy ===== *)
theory SourceRef
  imports ApiClient HttpUtil
begin

text \<open>
  \<open>SourceReference.Load\<close> of \<open>api/v1alpha1/types.go\<close>: resolving the source of a component into an
  artifact (url, digest, revision) and a digest of what it was resolved from. The result is
  \<open>None\<close> when the http source never answers, else the cluster state together with either a fault or
  the loaded reference and the component with its updated status.
\<close>

section \<open>The three kinds of sources\<close>

definition blueprint_version_name :: "string \<Rightarrow> string \<Rightarrow> string" where
  "blueprint_version_name name digest = name @ ''--'' @ digest"

definition blueprint_url :: "string \<Rightarrow> string \<Rightarrow> string \<Rightarrow> string" where
  "blueprint_url namespace name digest = ''blueprint://'' @ namespace @ ''/'' @ name @ ''/'' @ digest"

definition artifact_json :: "Artifact \<Rightarrow> jval list" where
  "artifact_json a = [JString (artUrl a), JString (artDigest a), JString (artRevision a)]"

definition retry_soon :: "error \<Rightarrow> error" where
  "retry_soon e = Retriable e (Some (10 * second))"

definition make_version :: "Blueprint \<Rightarrow> BlueprintVersion" where
  "make_version blueprint =
     \<lparr>bvKind = KindBlueprintVersion,
      bvGroupVersion = (GroupVersion_Group, GroupVersion_Version),
      bvMeta = \<lparr>omNamespace = bpNamespace blueprint,
        omName = blueprint_version_name (bpName blueprint) (GetDigest blueprint),
        omUID = [], omGeneration = 0, omDeletionTimestamp = None, omFinalizers = [], omAnnotations = []\<rparr>,
      bvSpec = \<lparr>bvsBlueprint = bpName blueprint, bvsDigest = GetDigest blueprint,
        bvsRevision = GetRevision blueprint, bvsSpec = bpSpec blueprint\<rparr>\<rparr>"

definition blueprint_artifact :: "Blueprint \<Rightarrow> Artifact" where
  "blueprint_artifact blueprint =
     \<lparr>artUrl = blueprint_url (bpNamespace blueprint) (bpName blueprint) (GetDigest blueprint),
      artDigest = GetDigest blueprint, artRevision = GetRevision blueprint\<rparr>"

definition load_blueprint ::
  "'s client \<Rightarrow> 's \<Rightarrow> string \<Rightarrow> BlueprintReference \<Rightarrow> 's \<times> (Artifact \<times> jval list) result" where
  "load_blueprint clnt s namespace ref =
     (case clGetBlueprint clnt s (WithDefaultNamespace ref namespace) of
        Inl err \<Rightarrow> (s, Inl (Err (if IsNotFound err then retry_soon err else err)))
      | Inr blueprint \<Rightarrow>
        (case clApplyVersion clnt s (make_version blueprint) of
           (s', Some err) \<Rightarrow> (s', Inl (Err err))
         | (s', None) \<Rightarrow>
           (s', Inr (blueprint_artifact blueprint, artifact_json (blueprint_artifact blueprint)))))"

definition load_http :: "http_env \<Rightarrow> HttpRepository \<Rightarrow> (Artifact \<times> jval list) result option" where
  "load_http http repo =
     (case GetArtifact http (hrUrl repo) (hrDigestHeader repo) (hrRevisionHeader repo) of
        None \<Rightarrow> None
      | Some (Inl err) \<Rightarrow> Some (Inl (Err err))
      | Some (Inr (url, digest, revision)) \<Rightarrow>
          (let a = \<lparr>artUrl = url, artDigest = digest, artRevision = revision\<rparr>
           in Some (Inr (a, artifact_json a))))"

text \<open>The inner switch: which flux reference is set, in the order the code tests them.\<close>

definition flux_reference :: "SourceReference \<Rightarrow> string \<Rightarrow> (FluxKind \<times> NamespacedName) result" where
  "flux_reference r namespace =
     (case srFluxGitRepository r of
        Some n \<Rightarrow> Inr (GitRepository, WithDefaultNamespace n namespace)
      | None \<Rightarrow> (case srFluxOciRepository r of
        Some n \<Rightarrow> Inr (OCIRepository, WithDefaultNamespace n namespace)
      | None \<Rightarrow> (case srFluxBucket r of
        Some n \<Rightarrow> Inr (Bucket, WithDefaultNamespace n namespace)
      | None \<Rightarrow> (case srFluxHelmChart r of
        Some n \<Rightarrow> Inr (HelmChart, WithDefaultNamespace n namespace)
      | None \<Rightarrow> Inl (Panic ''this cannot happen'')))))"

text \<open>An absent annotation map is nil and is marshalled as \<open>null\<close>.\<close>

definition annotations_json :: "(string \<times> string) list \<Rightarrow> jval" where
  "annotations_json m = (if m = [] then JNull else json_map (map (\<lambda>(k, v). (k, JString v)) m))"

definition flux_artifact :: "FluxSource \<Rightarrow> (Artifact \<times> jval list) result" where
  "flux_artifact source =
     (if \<not> FluxSource_IsReady source then Inl (Err (retry_soon (Errorf ''source not ready'')))
      else case fsArtifact source of
        None \<Rightarrow> Inl (Err (retry_soon (Errorf ''missing artifact on ready source'')))
      | Some artifact \<Rightarrow>
        if faURL artifact = [] then Inl (Err (retry_soon (Errorf ''source not ready (missing URL)'')))
        else if faDigest artifact = [] then Inl (Err (retry_soon (Errorf ''source not ready (missing digest)'')))
        else if faRevision artifact = [] then Inl (Err (retry_soon (Errorf ''source not ready (missing revision)'')))
        else let a = \<lparr>artUrl = faURL artifact, artDigest = faDigest artifact, artRevision = faRevision artifact\<rparr>
          in Inr (a, [JString (omUID (fsMeta source)), JInt (omGeneration (fsMeta source)),
                      annotations_json (omAnnotations (fsMeta source))] @ artifact_json a))"

definition load_flux ::
  "'s client \<Rightarrow> 's \<Rightarrow> string \<Rightarrow> SourceReference \<Rightarrow> (Artifact \<times> jval list) result" where
  "load_flux clnt s namespace r =
     rbind (flux_reference r namespace) (\<lambda>(kind, sourceName).
       case clGetFlux clnt s kind sourceName of
         Inl err \<Rightarrow> Inl (Err (if IsNoMatchError err \<or> IsNotFound err then retry_soon err else err))
       | Inr source \<Rightarrow> flux_artifact source)"

definition has_flux :: "SourceReference \<Rightarrow> bool" where
  "has_flux r \<longleftrightarrow> srFluxGitRepository r \<noteq> None \<or> srFluxOciRepository r \<noteq> None \<or>
     srFluxBucket r \<noteq> None \<or> srFluxHelmChart r \<noteq> None"

definition load_source ::
  "'s client \<Rightarrow> http_env \<Rightarrow> 's \<Rightarrow> string \<Rightarrow> SourceReference \<Rightarrow> ('s \<times> (Artifact \<times> jval list) result) option" where
  "load_source clnt http s namespace sourceRef =
     (case srBlueprint sourceRef of
        Some ref \<Rightarrow> Some (load_blueprint clnt s namespace ref)
      | None \<Rightarrow> (case srHttpRepository sourceRef of
        Some repo \<Rightarrow> map_option (Pair s) (load_http http repo)
      | None \<Rightarrow>
        if has_flux sourceRef then Some (s, load_flux clnt s namespace sourceRef)
        else Some (s, Inl (Err (Errorf ''unable to get source; one of httpRepository, fluxGitRepository, fluxOciRepository, fluxBucket, fluxHelmChart must be defined'')))))"

section \<open>Load\<close>

definition set_status_source :: "Component \<Rightarrow> SourceReferenceStatus \<Rightarrow> Component" where
  "set_status_source c st = c\<lparr>coStatus := (coStatus c)\<lparr>csSourceRef := Some st\<rparr>\<rparr>"

definition keep_source :: "Component \<Rightarrow> SourceReferenceStatus option result" where
  "keep_source c =
     (if \<not> spSticky (coSpec c) then Inr None
      else rbind (isComponentProcessing c)
        (\<lambda>processing. Inr (if processing then csSourceRef (coStatus c) else None)))"

definition Load ::
  "'s client \<Rightarrow> http_env \<Rightarrow> 's \<Rightarrow> SourceReference \<Rightarrow> Component \<Rightarrow>
     ('s \<times> (SourceReference \<times> Component) result) option" where
  "Load clnt http s r component =
     (if srLoaded r then Some (s, Inl (Panic ''reference already initialized''))
      else if \<not> IsZero (omDeletionTimestamp (coMeta component)) then Some (s, Inr (r, component))
      else case keep_source component of
        Inl fault \<Rightarrow> Some (s, Inl fault)
      | Inr (Some st) \<Rightarrow>
          Some (s, Inr (r\<lparr>srArtifact := srsArtifact st, srDigest := srsDigest st, srLoaded := True\<rparr>, component))
      | Inr None \<Rightarrow>
          map_option (\<lambda>(s', res). (s', rbind res (\<lambda>(artifact, digestData).
              let r' = r\<lparr>srArtifact := artifact, srDigest := calculateDigest digestData, srLoaded := True\<rparr>
              in Inr (r', set_status_source component
                    \<lparr>srsArtifact = srArtifact r', srsDigest = srDigest r'\<rparr>))))
            (load_source clnt http s (coNamespace component) (coSourceRef component)))"

section \<open>The reference interface\<close>

text \<open>
  What the runtime library expects of a \<open>component.Reference\<close>: loading happens once, a reference of a
  living component is loaded afterwards, one of a component in deletion is left alone, and only a
  loaded reference gives away its artifact and a digest.
\<close>

locale source_reference =
  fixes load :: "'env \<Rightarrow> 'r \<Rightarrow> 'c \<Rightarrow> ('s \<times> ('r \<times> 'c) result) option"
    and loaded :: "'r \<Rightarrow> bool"
    and digest :: "'r \<Rightarrow> string"
    and artifact :: "'r \<Rightarrow> 'a result"
    and deleting :: "'c \<Rightarrow> bool"
  assumes load_loaded: "load e r c = Some (s, Inr (r', c')) \<Longrightarrow> \<not> deleting c \<Longrightarrow> loaded r'"
    and load_again: "loaded r \<Longrightarrow> \<exists>s m. load e r c = Some (s, Inl (Panic m))"
    and load_deleting: "deleting c \<Longrightarrow> \<not> loaded r \<Longrightarrow> \<exists>s. load e r c = Some (s, Inr (r, c))"
    and artifact_loaded: "loaded r \<Longrightarrow> \<exists>a. artifact r = Inr a"
    and artifact_unloaded: "\<not> loaded r \<Longrightarrow> \<exists>m. artifact r = Inl (Panic m)"
    and digest_unloaded: "\<not> loaded r \<Longrightarrow> digest r = []"
begin

lemma artifact_after_load:
  "load e r c = Some (s, Inr (r', c')) \<Longrightarrow> \<not> deleting c \<Longrightarrow> \<exists>a. artifact r' = Inr a"
  using load_loaded artifact_loaded by blast

lemma load_only_once:
  "load e r c = Some (s, Inr (r', c')) \<Longrightarrow> \<not> deleting c \<Longrightarrow> \<exists>t m. load e' r' c'' = Some (t, Inl (Panic m))"
  using load_loaded load_again by blast

lemma digest_means_artifact: "digest r \<noteq> [] \<Longrightarrow> \<exists>a. artifact r = Inr a"
  using digest_unloaded artifact_loaded by blast

lemma load_deleting_unloaded:
  "deleting c \<Longrightarrow> load e r c = Some (s, Inr (r', c')) \<Longrightarrow> r' = r \<and> c' = c \<and> \<not> loaded r'"
  using load_again [of r e c] load_deleting [of c r e] by (cases "loaded r") auto

end

definition is_deleting :: "Component \<Rightarrow> bool" where
  "is_deleting c \<longleftrightarrow> \<not> IsZero (omDeletionTimestamp (coMeta c))"

text \<open>The cases of \<open>Load\<close> on a reference that is not loaded yet.\<close>

lemma Load_kept:
  "\<not> srLoaded r \<Longrightarrow> \<not> is_deleting c \<Longrightarrow> keep_source c = Inr (Some st) \<Longrightarrow>
     Load clnt http s r c =
       Some (s, Inr (r\<lparr>srArtifact := srsArtifact st, srDigest := srsDigest st, srLoaded := True\<rparr>, c))"
  by (simp add: Load_def is_deleting_def)

lemma Load_fresh:
  "\<not> srLoaded r \<Longrightarrow> \<not> is_deleting c \<Longrightarrow> keep_source c = Inr None \<Longrightarrow>
     Load clnt http s r c =
       map_option (\<lambda>(s', res). (s', rbind res (\<lambda>(a, dd).
           let r' = r\<lparr>srArtifact := a, srDigest := calculateDigest dd, srLoaded := True\<rparr>
           in Inr (r', set_status_source c \<lparr>srsArtifact = srArtifact r', srsDigest = srDigest r'\<rparr>))))
         (load_source clnt http s (coNamespace c) (coSourceRef c))"
  by (simp add: Load_def is_deleting_def)

lemma Load_Inr_cases [consumes 1, case_names Deleting Kept Fresh]:
  assumes "Load clnt http s r c = Some (s', Inr (r', c'))"
  obtains "is_deleting c" "s' = s" "r' = r" "c' = c" "\<not> srLoaded r"
  | st where "\<not> is_deleting c" "\<not> srLoaded r" "keep_source c = Inr (Some st)" "s' = s" "c' = c"
      "r' = r\<lparr>srArtifact := srsArtifact st, srDigest := srsDigest st, srLoaded := True\<rparr>"
  | a dd where "\<not> is_deleting c" "\<not> srLoaded r" "keep_source c = Inr None"
      "load_source clnt http s (coNamespace c) (coSourceRef c) = Some (s', Inr (a, dd))"
      "r' = r\<lparr>srArtifact := a, srDigest := calculateDigest dd, srLoaded := True\<rparr>"
      "c' = set_status_source c \<lparr>srsArtifact = a, srsDigest = calculateDigest dd\<rparr>"
  using assms
  by (auto simp: Load_def is_deleting_def Let_def result_iff split: if_splits sum.splits option.splits)

lemma keep_source_Some: "keep_source c = Inr (Some st) \<Longrightarrow> csSourceRef (coStatus c) = Some st"
  by (auto simp: keep_source_def result_iff split: if_splits)

interpretation sref: source_reference "\<lambda>(clnt, http, s). Load clnt http s" srLoaded
  SourceReference_Digest SourceReference_Artifact is_deleting
proof unfold_locales
  fix e :: "'a client \<times> http_env \<times> 'a" and r c s r' c'
  assume "(case e of (clnt, http, s) \<Rightarrow> Load clnt http s) r c = Some (s, Inr (r', c'))" "\<not> is_deleting c"
  then show "srLoaded r'" by (cases e) (auto elim: Load_Inr_cases)
qed (auto simp: Load_def is_deleting_def SourceReference_Artifact_def SourceReference_Digest_def)

text \<open>What a successful \<open>Load\<close> of a living component leaves behind, shared by the properties below and
by those across the components.\<close>

lemma Load_records:
  assumes "Load clnt http s r c = Some (s', Inr (r', c'))" and "\<not> is_deleting c"
  shows "srLoaded r'" "csSourceRef (coStatus c') = Some \<lparr>srsArtifact = srArtifact r', srsDigest = srDigest r'\<rparr>"
    "c' = c\<lparr>coStatus := (coStatus c)\<lparr>csSourceRef := csSourceRef (coStatus c')\<rparr>\<rparr>"
proof -
  from assms(1) have "srLoaded r' \<and>
    csSourceRef (coStatus c') = Some \<lparr>srsArtifact = srArtifact r', srsDigest = srDigest r'\<rparr> \<and>
    c' = c\<lparr>coStatus := (coStatus c)\<lparr>csSourceRef := csSourceRef (coStatus c')\<rparr>\<rparr>"
  proof (cases rule: Load_Inr_cases)
    case (Kept st)
    then show ?thesis using keep_source_Some [OF Kept(3)] by simp
  qed (use assms(2) in \<open>auto simp: set_status_source_def\<close>)
  then show "srLoaded r'" "csSourceRef (coStatus c') = Some \<lparr>srsArtifact = srArtifact r', srsDigest = srDigest r'\<rparr>"
    "c' = c\<lparr>coStatus := (coStatus c)\<lparr>csSourceRef := csSourceRef (coStatus c')\<rparr>\<rparr>" by blast+
qed

lemma Load_applies_version:
  assumes "Load clnt http s r c = Some (s', Inr (r', c'))"
    and "\<not> is_deleting c" and "keep_source c = Inr None" and "srBlueprint (coSourceRef c) = Some ref"
  obtains b where "clGetBlueprint clnt s (WithDefaultNamespace ref (coNamespace c)) = Inr b"
    "clApplyVersion clnt s (make_version b) = (s', None)" "srArtifact r' = blueprint_artifact b"
    "srDigest r' = calculateDigest (artifact_json (blueprint_artifact b))"
  using assms(1)
proof (cases rule: Load_Inr_cases)
  case (Fresh a dd)
  then show ?thesis using assms(4) that
    by (auto simp: load_source_def load_blueprint_def split: sum.splits prod.splits option.splits)
qed (use assms in auto)

section \<open>Properties\<close>

text \<open>
  C21. After a successful \<open>Load\<close> of a component that is not being deleted, the reference is loaded,
  its artifact and digest are exactly those in \<open>status.sourceRef\<close>, and nothing else of the component
  has changed.
\<close>

theorem Load_status_mirrors_reference:
  assumes "Load clnt http s r c = Some (s', Inr (r', c'))" and "\<not> is_deleting c"
  shows "srLoaded r' \<and>
    csSourceRef (coStatus c') = Some \<lparr>srsArtifact = srArtifact r', srsDigest = srDigest r'\<rparr> \<and>
    c' = c\<lparr>coStatus := (coStatus c)\<lparr>csSourceRef := csSourceRef (coStatus c')\<rparr>\<rparr>"
  using Load_records [OF assms] by blast

text \<open>
  Sticky components keep their source while they are processing: within the timeout, \<open>Load\<close>
  returns the artifact of \<open>status.sourceRef\<close>, whatever the cluster and the http server would answer,
  and does not touch the cluster.
\<close>

theorem Load_sticky:
  assumes "\<not> srLoaded r" "\<not> is_deleting c" "spSticky (coSpec c)"
    and "rsProcessingSince (csStatus (coStatus c)) = Some since"
    and "rsLastObservedAt (csStatus (coStatus c)) = Some observed"
    and "time_Sub observed since < processing_timeout (coSpec c)"
    and "csSourceRef (coStatus c) = Some st"
  shows "Load clnt http s r c =
    Some (s, Inr (r\<lparr>srArtifact := srsArtifact st, srDigest := srsDigest st, srLoaded := True\<rparr>, c))"
proof (rule Load_kept)
  show "keep_source c = Inr (Some st)"
    using assms by (simp add: keep_source_def isComponentProcessing_def)
qed (use assms in simp_all)

text \<open>
  C9. Loading the blueprint source of a component that is living and does not keep an earlier source reads
  the blueprint that the reference names and applies, successfully, a blueprint version in its namespace: it
  is named by the blueprint's name and the digest of the blueprint's files, with two hyphens in between, and
  carries the blueprint's name, that digest, the revision (the generation) and the files. The reference is
  loaded with the URL made of namespace, name and digest, with this digest and this revision, and its own
  digest is that of these three.
\<close>

theorem Load_blueprint:
  assumes "Load clnt http s r c = Some (s', Inr (r', c'))"
    and "\<not> is_deleting c" and "keep_source c = Inr None" and "srBlueprint (coSourceRef c) = Some ref"
  shows "\<exists>b v url digest revision. clGetBlueprint clnt s (WithDefaultNamespace ref (coNamespace c)) = Inr b \<and>
    digest = calculateDigest [BlueprintSpec_json (bpSpec b)] \<and>
    revision = ''generation:'' @ int_str (omGeneration (bpMeta b)) \<and>
    url = ''blueprint://'' @ bpNamespace b @ ''/'' @ bpName b @ ''/'' @ digest \<and>
    clApplyVersion clnt s v = (s', None) \<and>
    bvNamespace v = bpNamespace b \<and> bvName v = bpName b @ ''--'' @ digest \<and>
    bvSpec v = \<lparr>bvsBlueprint = bpName b, bvsDigest = digest, bvsRevision = revision, bvsSpec = bpSpec b\<rparr> \<and>
    srLoaded r' \<and> srArtifact r' = \<lparr>artUrl = url, artDigest = digest, artRevision = revision\<rparr> \<and>
    srDigest r' = calculateDigest [JString url, JString digest, JString revision]"
proof -
  from Load_applies_version [OF assms] obtain b where b: "clGetBlueprint clnt s (WithDefaultNamespace ref (coNamespace c)) = Inr b"
    "clApplyVersion clnt s (make_version b) = (s', None)" "srArtifact r' = blueprint_artifact b"
    "srDigest r' = calculateDigest (artifact_json (blueprint_artifact b))" .
  with Load_records(1) [OF assms(1,2)] show ?thesis
    by (intro exI [of _ b] exI [of _ "make_version b"])
      (simp add: make_version_def blueprint_artifact_def artifact_json_def blueprint_version_name_def blueprint_url_def
        GetDigest_def GetRevision_def)
qed

text \<open>
  What a usable flux source is, stated on its fields: the first condition of type Ready is true for the
  current generation, and there is an artifact with URL, digest and revision.
\<close>

definition flux_usable :: "FluxSource \<Rightarrow> bool" where
  "flux_usable src \<longleftrightarrow>
     (\<exists>cond. find (\<lambda>x. condType x = ''Ready'') (fsConditions src) = Some cond \<and> condStatus cond = ''True'' \<and>
        condObservedGeneration cond = omGeneration (fsMeta src)) \<and>
     (\<exists>a. fsArtifact src = Some a \<and> faURL a \<noteq> [] \<and> faDigest a \<noteq> [] \<and> faRevision a \<noteq> [])"

lemma FluxSource_IsReady_conditions:
  "FluxSource_IsReady src \<longleftrightarrow>
     (\<exists>cond. find (\<lambda>x. condType x = ''Ready'') (fsConditions src) = Some cond \<and> condStatus cond = ''True'' \<and>
        condObservedGeneration cond = omGeneration (fsMeta src))"
  by (auto simp: FluxSource_IsReady_def object_IsReady_iff ConditionTrue_def)

lemma flux_artifact_cases:
  "(\<exists>a. fsArtifact src = Some a \<and> flux_usable src \<and>
      flux_artifact src = Inr (\<lparr>artUrl = faURL a, artDigest = faDigest a, artRevision = faRevision a\<rparr>,
        [JString (omUID (fsMeta src)), JInt (omGeneration (fsMeta src)), annotations_json (omAnnotations (fsMeta src)),
         JString (faURL a), JString (faDigest a), JString (faRevision a)])) \<or>
   (\<exists>e. flux_artifact src = Inl (Err (Retriable e (Some (10 * second)))) \<and> \<not> flux_usable src)"
  unfolding flux_usable_def FluxSource_IsReady_conditions [symmetric]
  by (auto simp: flux_artifact_def retry_soon_def artifact_json_def Let_def split: option.splits)

text \<open>
  C22. A flux source that a living component follows (one that does not keep an earlier source) is accepted
  exactly when its first condition of type Ready is true for its current generation and it carries an
  artifact with URL, digest and revision. Then the reference is loaded with these three, and with a digest of
  them and of the source's UID, generation and annotations. In every other case \<open>Load\<close> asks for a retry in ten
  seconds. Both leave the cluster alone.
\<close>

theorem Load_flux:
  assumes "\<not> srLoaded r" "\<not> is_deleting c" "keep_source c = Inr None"
    and "srBlueprint (coSourceRef c) = None" "srHttpRepository (coSourceRef c) = None"
    and "flux_reference (coSourceRef c) (coNamespace c) = Inr (kind, name)"
    and "clGetFlux clnt s kind name = Inr src"
  shows "if flux_usable src
    then \<exists>a r' c'. fsArtifact src = Some a \<and> Load clnt http s r c = Some (s, Inr (r', c')) \<and>
      r' = r\<lparr>srArtifact := \<lparr>artUrl = faURL a, artDigest = faDigest a, artRevision = faRevision a\<rparr>,
        srDigest := calculateDigest [JString (omUID (fsMeta src)), JInt (omGeneration (fsMeta src)),
          annotations_json (omAnnotations (fsMeta src)), JString (faURL a), JString (faDigest a), JString (faRevision a)],
        srLoaded := True\<rparr>
    else \<exists>e. Load clnt http s r c = Some (s, Inl (Err (Retriable e (Some (10 * second)))))"
proof -
  have hf: "has_flux (coSourceRef c)"
    using assms(6) by (auto simp: has_flux_def flux_reference_def split: option.splits)
  have "load_source clnt http s (coNamespace c) (coSourceRef c) = Some (s, flux_artifact src)"
    using assms hf by (simp add: load_source_def load_flux_def)
  then show ?thesis
    using flux_artifact_cases [of src] assms(1-3) by (auto simp: Load_fresh Let_def)
qed

definition flux_text_ok :: "FluxSource \<Rightarrow> bool" where
  "flux_text_ok src \<longleftrightarrow> valid_utf8 (omUID (fsMeta src)) \<and>
     distinct_keys (omAnnotations (fsMeta src)) \<and>
     (\<forall>(k, v) \<in> set (omAnnotations (fsMeta src)). valid_utf8 k \<and> valid_utf8 v) \<and>
     (\<forall>a. fsArtifact src = Some a \<longrightarrow> valid_utf8 (faURL a) \<and> valid_utf8 (faDigest a) \<and> valid_utf8 (faRevision a))"

lemma annotations_json_eq:
  assumes "distinct_keys m" "distinct_keys n" "annotations_json m = annotations_json n"
  shows "map_of m = map_of n"
  using assms json_map_strings_eq [of m n] by (auto simp: annotations_json_def json_map_def split: if_splits)

lemma flux_data_ok: "flux_text_ok src \<Longrightarrow> flux_artifact src = Inr (a, dd) \<Longrightarrow> \<forall>v \<in> set dd. jval_ok v"
  using json_map_strings_ok [of "omAnnotations (fsMeta src)"]
  by (auto simp: flux_artifact_def flux_text_ok_def annotations_json_def artifact_json_def Let_def
      split: option.splits if_splits)

text \<open>
  C24. The digest of a flux source changes whenever its identity, generation, annotations or artifact
  change: two usable sources with the same digest agree on all of them, unless SHA-256 collides on the
  two marshalled texts.
\<close>

theorem flux_digest_determines_source:
  assumes "flux_artifact src = Inr (a, dd)" "flux_artifact src' = Inr (a', dd')"
    and "flux_text_ok src" "flux_text_ok src'"
    and "calculateDigest dd = calculateDigest dd'"
  shows "a = a' \<and> omUID (fsMeta src) = omUID (fsMeta src') \<and>
      omGeneration (fsMeta src) = omGeneration (fsMeta src') \<and>
      map_of (omAnnotations (fsMeta src)) = map_of (omAnnotations (fsMeta src')) \<or>
    sha_collision (digest_text dd) (digest_text dd')"
proof (cases "dd = dd'")
  case False
  with assms flux_data_ok calculateDigest_eq_iff [of dd dd'] show ?thesis by blast
next
  case True
  have "dd = [JString (omUID (fsMeta src)), JInt (omGeneration (fsMeta src)),
      annotations_json (omAnnotations (fsMeta src))] @ artifact_json a"
    "dd' = [JString (omUID (fsMeta src')), JInt (omGeneration (fsMeta src')),
      annotations_json (omAnnotations (fsMeta src'))] @ artifact_json a'"
    using assms(1,2) by (auto simp: flux_artifact_def Let_def split: option.splits if_splits)
  with True assms(3,4) annotations_json_eq [of "omAnnotations (fsMeta src)" "omAnnotations (fsMeta src')"]
  show ?thesis by (auto simp: artifact_json_def flux_text_ok_def)
qed

text \<open>
  C23. Blueprints are addressed by content: two blueprints have the same digest exactly when their
  files are the same map, in whatever order the maps are iterated, or SHA-256 collides on their
  marshalled specs.
\<close>

theorem blueprint_digest_content:
  assumes "files_ok (bpSpec b)" "files_ok (bpSpec b')"
  shows "GetDigest b = GetDigest b' \<longleftrightarrow>
    map_of (bsFiles (bpSpec b)) = map_of (bsFiles (bpSpec b')) \<or>
    sha_collision (digest_text [BlueprintSpec_json (bpSpec b)]) (digest_text [BlueprintSpec_json (bpSpec b')])"
  using assms BlueprintSpec_json_ok BlueprintSpec_json_eq [OF assms]
  by (simp add: GetDigest_def calculateDigest_eq_iff)

end
