(* ===== verification/BlueprintController.thy ===== *)
theory BlueprintController
  imports Handlers SourceRef
begin

text \<open>
  The blueprint controller (\<open>internal/controllers/blueprint\<close>): the handler of blueprint version events
  and the reconciler, which keeps a finalizer on the blueprint, deletes the blueprint versions that no
  component uses, and lets a deleted blueprint go once it has no versions left.
\<close>

section \<open>Blueprint version events\<close>

definition blueprintVersionHandler_Create :: "BlueprintVersion \<Rightarrow> queue \<Rightarrow> queue" where
  "blueprintVersionHandler_Create blueprintVersion q =
     q_Add q \<lparr>nnNamespace = bvNamespace blueprintVersion, nnName = bvsBlueprint (bvSpec blueprintVersion)\<rparr>"

definition blueprintVersionHandler_Update :: "BlueprintVersion \<Rightarrow> queue \<Rightarrow> queue" where
  "blueprintVersionHandler_Update e q = q"

definition blueprintVersionHandler_Delete :: "BlueprintVersion \<Rightarrow> queue \<Rightarrow> queue" where
  "blueprintVersionHandler_Delete e q = q"

definition blueprintVersionHandler_Generic :: "BlueprintVersion \<Rightarrow> queue \<Rightarrow> queue" where
  "blueprintVersionHandler_Generic e q = q"

fun blueprintVersionHandler :: "BlueprintVersion event \<Rightarrow> queue \<Rightarrow> queue" where
  "blueprintVersionHandler (CreateEvent v) q = blueprintVersionHandler_Create v q"
| "blueprintVersionHandler (UpdateEvent old new) q = blueprintVersionHandler_Update new q"
| "blueprintVersionHandler (DeleteEvent v) q = blueprintVersionHandler_Delete v q"
| "blueprintVersionHandler (GenericEvent v) q = blueprintVersionHandler_Generic v q"

text \<open>The handler of versions gets the cache but does not read it.\<close>

definition newBlueprintVersionHandler :: "cache_list \<Rightarrow> BlueprintVersion event \<Rightarrow> queue \<Rightarrow> queue" where
  "newBlueprintVersionHandler cache = blueprintVersionHandler"

lemmas version_handlers = blueprintVersionHandler_Create_def blueprintVersionHandler_Update_def
  blueprintVersionHandler_Delete_def blueprintVersionHandler_Generic_def

interpretation version_events: event_handler "\<lambda>(_::unit). blueprintVersionHandler"
proof
  fix env :: unit and ev q
  show "blueprintVersionHandler ev q = q @ blueprintVersionHandler ev []"
    by (cases ev) (auto simp: version_handlers q_Add_def)
qed

section \<open>The reconciler\<close>

text \<open>
  The reconciler's collaborators: the client, the component cache with its key printing, and the two
  finalizer helpers of controller-runtime, which return the changed object and whether they changed it.
\<close>

record 's blueprint_env =
  beClient :: "'s client"
  beKey :: "string \<Rightarrow> string \<Rightarrow> string"
  beCache :: cache_list
  beAddFinalizer :: "Blueprint \<Rightarrow> string \<Rightarrow> Blueprint \<times> bool"
  beRemoveFinalizer :: "Blueprint \<Rightarrow> string \<Rightarrow> Blueprint \<times> bool"

text \<open>The options of the controller, and the constructor; the key printing and the helpers are library code.\<close>

record blueprint_ReconcilerOptions =
  brName :: string

record blueprint_lib =
  blKey :: "string \<Rightarrow> string \<Rightarrow> string"
  blAddFinalizer :: "Blueprint \<Rightarrow> string \<Rightarrow> Blueprint \<times> bool"
  blRemoveFinalizer :: "Blueprint \<Rightarrow> string \<Rightarrow> Blueprint \<times> bool"

definition newReconciler :: "blueprint_lib \<Rightarrow> 's client \<Rightarrow> cache_list \<Rightarrow> 's blueprint_env" where
  "newReconciler lib clnt cache =
     \<lparr>beClient = clnt, beKey = blKey lib, beCache = cache, beAddFinalizer = blAddFinalizer lib,
      beRemoveFinalizer = blRemoveFinalizer lib\<rparr>"

definition reasonDeletionBlocked :: string where "reasonDeletionBlocked = ''DeletionBlocked''"

text \<open>The event the reconciler records when deletion is blocked, with the number of versions.\<close>

datatype recorded_event = NormalEvent string nat

definition not_yet_deleted :: "BlueprintVersion \<Rightarrow> error" where
  "not_yet_deleted v = Errorf (''blueprintversion '' @ bvNamespace v @ ''/'' @ bvName v @
     '' is expected to be deleted but is not yet deleted'')"

text \<open>The loop over the versions of the blueprint, counting the deleted ones.\<close>

fun collect_versions ::
  "'s blueprint_env \<Rightarrow> 's \<Rightarrow> BlueprintVersion list \<Rightarrow> nat \<Rightarrow> 's \<times> nat result" where
  "collect_versions env s [] numDeleted = (s, Inr numDeleted)"
| "collect_versions env s (v # vs) numDeleted =
     (case beCache env [MatchingBlueprintVersion (beKey env) v, Limit 1] of
        Inl err \<Rightarrow> (s, Inl (Err err))
      | Inr items \<Rightarrow>
        if length items = 0 then
          if IsZero (omDeletionTimestamp (bvMeta v)) then
            (case clDeleteVersion (beClient env) s v of
               (s', Some err) \<Rightarrow> (s', Inl (Err err))
             | (s', None) \<Rightarrow> collect_versions env s' vs (numDeleted + 1))
          else (s, Inl (Err (not_yet_deleted v)))
        else collect_versions env s vs numDeleted)"

definition bp_deleting :: "Blueprint \<Rightarrow> bool" where
  "bp_deleting b \<longleftrightarrow> \<not> IsZero (omDeletionTimestamp (bpMeta b))"

definition ensure_finalizer :: "'s blueprint_env \<Rightarrow> 's \<Rightarrow> Blueprint \<Rightarrow> 's \<times> Blueprint result" where
  "ensure_finalizer env s blueprint =
     (if \<not> bp_deleting blueprint then
        (case beAddFinalizer env blueprint meta_Name of
           (b, True) \<Rightarrow> (case clUpdateBlueprint (beClient env) s b of
               (s', Inl err) \<Rightarrow> (s', Inl (Err err))
             | (s', Inr b') \<Rightarrow> (s', Inr b'))
         | (b, False) \<Rightarrow> (s, Inr b))
      else (s, Inr blueprint))"

definition finish_blueprint ::
  "'s blueprint_env \<Rightarrow> 's \<Rightarrow> Blueprint \<Rightarrow> BlueprintVersion list \<Rightarrow> 's \<times> recorded_event list \<times> int result" where
  "finish_blueprint env s blueprint versions =
     (if \<not> bp_deleting blueprint then (s, [], Inr (10 * minute))
      else if length versions = 0 then
        (case beRemoveFinalizer env blueprint meta_Name of
           (b, True) \<Rightarrow> (case clUpdateBlueprint (beClient env) s b of
               (s', Inl err) \<Rightarrow> (s', [], Inl (Err err))
             | (s', Inr b') \<Rightarrow> (s', [], Inr 0))
         | (b, False) \<Rightarrow> (s, [], Inr 0))
      else (s, [NormalEvent reasonDeletionBlocked (length versions)], Inr (10 * second)))"

text \<open>\<open>Reconcile\<close> returns the requeue delay in nanoseconds, 0 for none.\<close>

definition Reconcile ::
  "'s blueprint_env \<Rightarrow> 's \<Rightarrow> NamespacedName \<Rightarrow> 's \<times> recorded_event list \<times> int result" where
  "Reconcile env s req =
     (case clGetBlueprint (beClient env) s req of
        Inl err \<Rightarrow> (s, [], if IsNotFound err then Inr 0 else Inl (Err err))
      | Inr blueprint0 \<Rightarrow>
        (case ensure_finalizer env s blueprint0 of
           (s1, Inl fault) \<Rightarrow> (s1, [], Inl fault)
         | (s1, Inr blueprint) \<Rightarrow>
           (case clListVersions (beClient env) s1 (bpNamespace blueprint) (bpName blueprint) of
              Inl err \<Rightarrow> (s1, [], Inl (Err err))
            | Inr versions \<Rightarrow>
              (case collect_versions env s1 versions 0 of
                 (s2, Inl fault) \<Rightarrow> (s2, [], Inl fault)
               | (s2, Inr numDeleted) \<Rightarrow>
                 if 0 < numDeleted then (s2, [], Inr (1 * second))
                 else finish_blueprint env s2 blueprint versions))))"

section \<open>Which versions are in use\<close>

text \<open>
  A version is in use when some component refers to its blueprint and has the version's digest in
  \<open>status.sourceRef\<close>.
\<close>

definition version_in_use :: "Component set \<Rightarrow> BlueprintVersion \<Rightarrow> bool" where
  "version_in_use store v \<longleftrightarrow>
     (\<exists>c \<in> store. \<exists>r \<in> set (version_refs c). resolves_to c r (bvNamespace v) (bvName v))"

definition serves_env :: "Component set \<Rightarrow> 's blueprint_env \<Rightarrow> bool" where
  "serves_env store env \<longleftrightarrow> cache_serves store (beKey env) (beCache env)"

lemma version_query:
  assumes "serves_env store env" "CHR ''/'' \<notin> set (bvNamespace v)"
    and "beCache env [MatchingBlueprintVersion (beKey env) v, Limit 1] = Inr items"
  shows "items = [] \<longleftrightarrow> \<not> version_in_use store v"
  using version_query_empty_iff [of store "beKey env" "beCache env" v items] assms
  by (simp add: serves_env_def version_in_use_def)

definition plain_versions :: "BlueprintVersion list \<Rightarrow> bool" where
  "plain_versions vs \<longleftrightarrow> (\<forall>v \<in> set vs. CHR ''/'' \<notin> set (bvNamespace v))"

text \<open>The body of the loop, by what the cache says about the version.\<close>

lemma collect_used:
  assumes "beCache env [MatchingBlueprintVersion (beKey env) v, Limit 1] = Inr items" "items \<noteq> []"
  shows "collect_versions env s (v # vs) n = collect_versions env s vs n"
  using assms by simp

lemma collect_unused:
  assumes "beCache env [MatchingBlueprintVersion (beKey env) v, Limit 1] = Inr []"
    and "IsZero (omDeletionTimestamp (bvMeta v))" "clDeleteVersion (beClient env) s v = (s', None)"
  shows "collect_versions env s (v # vs) n = collect_versions env s' vs (n + 1)"
  using assms by simp

declare collect_versions.simps(2) [simp del]

lemma collect_versions_cases [case_names CacheError Used Pending DeleteError Deleted]:
  obtains err where "beCache env [MatchingBlueprintVersion (beKey env) v, Limit 1] = Inl err"
      "collect_versions env s (v # vs) n = (s, Inl (Err err))"
  | items where "beCache env [MatchingBlueprintVersion (beKey env) v, Limit 1] = Inr items" "items \<noteq> []"
      "collect_versions env s (v # vs) n = collect_versions env s vs n"
  | "beCache env [MatchingBlueprintVersion (beKey env) v, Limit 1] = Inr []"
      "\<not> IsZero (omDeletionTimestamp (bvMeta v))"
      "collect_versions env s (v # vs) n = (s, Inl (Err (not_yet_deleted v)))"
  | s' err where "beCache env [MatchingBlueprintVersion (beKey env) v, Limit 1] = Inr []"
      "IsZero (omDeletionTimestamp (bvMeta v))" "clDeleteVersion (beClient env) s v = (s', Some err)"
      "collect_versions env s (v # vs) n = (s', Inl (Err err))"
  | s' where "beCache env [MatchingBlueprintVersion (beKey env) v, Limit 1] = Inr []"
      "IsZero (omDeletionTimestamp (bvMeta v))" "clDeleteVersion (beClient env) s v = (s', None)"
      "collect_versions env s (v # vs) n = collect_versions env s' vs (n + 1)"
proof (cases "beCache env [MatchingBlueprintVersion (beKey env) v, Limit 1]")
  case (Inl err)
  then show ?thesis using that(1) by (simp add: collect_versions.simps)
next
  case (Inr items)
  show ?thesis
  proof (cases "items = []")
    case False
    with Inr that(2) show ?thesis by (simp add: collect_versions.simps)
  next
    case True
    show ?thesis
    proof (cases "IsZero (omDeletionTimestamp (bvMeta v))")
      case False
      with Inr True that(3) show ?thesis by (simp add: collect_versions.simps)
    next
      case zero: True
      obtain s' e where d: "clDeleteVersion (beClient env) s v = (s', e)" by (meson surj_pair)
      show ?thesis
      proof (cases e)
        case None
        with Inr True zero d that(5) show ?thesis by (simp add: collect_versions.simps)
      next
        case (Some err)
        with Inr True zero d that(4) show ?thesis by (simp add: collect_versions.simps)
      qed
    qed
  qed
qed

text \<open>Any property that survives the deletion of an unused version survives the loop.\<close>

lemma collect_versions_keeps:
  assumes "serves_env store env" "plain_versions vs" "I s"
    and "\<And>s v s' e. I s \<Longrightarrow> \<not> version_in_use store v \<Longrightarrow> clDeleteVersion (beClient env) s v = (s', e) \<Longrightarrow> I s'"
  shows "I (fst (collect_versions env s vs n))"
  using assms(2,3)
proof (induction vs arbitrary: s n)
  case (Cons v vs)
  then have pv: "plain_versions vs" "CHR ''/'' \<notin> set (bvNamespace v)" by (simp_all add: plain_versions_def)
  show ?case
  proof (cases rule: collect_versions_cases [of env v s vs n])
    case (DeleteError s' err)
    then have "\<not> version_in_use store v" using version_query [OF assms(1) pv(2)] by simp
    with assms(4) Cons.prems(2) DeleteError show ?thesis by simp
  next
    case (Deleted s')
    then have "\<not> version_in_use store v" using version_query [OF assms(1) pv(2)] by simp
    with assms(4) Cons.prems(2) Deleted(3) have "I s'" by blast
    with Cons.IH pv Deleted(4) show ?thesis by simp
  qed (use Cons pv in simp_all)
qed simp

text \<open>A loop that ends without error has deleted every unused version, and only those.\<close>

lemma collect_versions_count:
  assumes "serves_env store env" "plain_versions vs"
    and "collect_versions env s vs n = (s', Inr n')"
  shows "n' = n + length (filter (\<lambda>v. \<not> version_in_use store v) vs)"
  using assms(2,3)
proof (induction vs arbitrary: s n)
  case (Cons v vs)
  then have pv: "plain_versions vs" "CHR ''/'' \<notin> set (bvNamespace v)" by (simp_all add: plain_versions_def)
  show ?case
  proof (cases rule: collect_versions_cases [of env v s vs n])
    case (Used items)
    with version_query [OF assms(1) pv(2)] have "version_in_use store v" by blast
    with Used Cons.IH [OF pv(1)] Cons.prems(2) show ?thesis by simp
  next
    case (Deleted t)
    with version_query [OF assms(1) pv(2)] have "\<not> version_in_use store v" by blast
    with Deleted Cons.IH [OF pv(1)] Cons.prems(2) show ?thesis by simp
  qed (use Cons.prems(2) in simp_all)
qed simp

section \<open>Properties\<close>

text \<open>
  The blueprint controller never deletes a blueprint version that is in use: every property of the
  cluster that survives finalizer updates of blueprints and the deletion of versions that no component
  in the cache uses survives \<open>Reconcile\<close>, whatever else happens and however it ends.
\<close>

theorem Reconcile_deletes_only_unused:
  assumes "serves_env store env"
    and "\<And>s ns n vs. clListVersions (beClient env) s ns n = Inr vs \<Longrightarrow> plain_versions vs"
    and "I s"
    and "\<And>s b s' r. I s \<Longrightarrow> clUpdateBlueprint (beClient env) s b = (s', r) \<Longrightarrow> I s'"
    and "\<And>s v s' e. I s \<Longrightarrow> \<not> version_in_use store v \<Longrightarrow> clDeleteVersion (beClient env) s v = (s', e) \<Longrightarrow> I s'"
  shows "I (fst (Reconcile env s req))"
proof -
  have e: "I (fst (ensure_finalizer env s b))" for b
    using assms(3,4) by (auto simp: ensure_finalizer_def split: prod.splits bool.splits sum.splits)
  have c: "I (fst (collect_versions env t vs 0))"
    if "I t" "clListVersions (beClient env) t ns n = Inr vs" for t vs ns n
  proof (rule collect_versions_keeps [where I = I, OF assms(1)])
    show "plain_versions vs" using that(2) by (rule assms(2))
    show "I t" by (rule that(1))
  qed (rule assms(5))
  have f: "I (fst (finish_blueprint env t b vs))" if "I t" for t b vs
    using that assms(4) by (auto simp: finish_blueprint_def split: prod.splits bool.splits sum.splits)
  show ?thesis
    unfolding Reconcile_def
    using e c f assms(3) by (auto split: sum.splits prod.splits) (metis fst_conv)+
qed

text \<open>
  What \<open>Reconcile\<close> decides, given the blueprint and its versions: requeue after one second when an unused
  version was deleted, after ten minutes for a living blueprint, stop when nothing is left of a deleted
  one, and otherwise report that the deletion is blocked and try again in ten seconds.
\<close>

definition requeue_decision ::
  "Component set \<Rightarrow> Blueprint \<Rightarrow> BlueprintVersion list \<Rightarrow> recorded_event list \<times> int" where
  "requeue_decision store blueprint versions =
     (if \<exists>v \<in> set versions. \<not> version_in_use store v then ([], 1 * second)
      else if \<not> bp_deleting blueprint then ([], 10 * minute)
      else if versions = [] then ([], 0)
      else ([NormalEvent reasonDeletionBlocked (length versions)], 10 * second))"

lemma finish_blueprint_decision:
  assumes "finish_blueprint env s b vs = (s', evs, Inr d)" "\<forall>v \<in> set vs. version_in_use store v"
  shows "(evs, d) = requeue_decision store b vs"
  using assms by (auto simp: finish_blueprint_def requeue_decision_def split: if_splits prod.splits bool.splits sum.splits)

text \<open>
  C28. Whenever \<open>Reconcile\<close> ends without an error on an existing blueprint, its requeue delay and the
  events it records are exactly those of \<open>requeue_decision\<close>, for the blueprint as it is after the
  finalizer was ensured and the versions listed after that.
\<close>

theorem Reconcile_requeues:
  assumes "serves_env store env"
    and "clGetBlueprint (beClient env) s req = Inr b0"
    and "ensure_finalizer env s b0 = (s1, Inr b)"
    and "clListVersions (beClient env) s1 (bpNamespace b) (bpName b) = Inr vs"
    and "plain_versions vs"
    and "Reconcile env s req = (s', evs, Inr d)"
  shows "(evs, d) = requeue_decision store b vs"
proof -
  obtain s2 r where c: "collect_versions env s1 vs 0 = (s2, r)" by (meson surj_pair)
  with assms(2-4,6) obtain n where r: "r = Inr n" by (cases r) (simp_all add: Reconcile_def)
  have n: "n = length (filter (\<lambda>v. \<not> version_in_use store v) vs)"
    using collect_versions_count [OF assms(1,5), of s1 0 s2 n] c r by simp
  show ?thesis
  proof (cases "0 < n")
    case True
    then have "\<exists>v \<in> set vs. \<not> version_in_use store v" unfolding n by (simp add: filter_empty_conv)
    moreover have "evs = []" "d = 1 * second" using assms(2-4,6) c r True by (simp_all add: Reconcile_def)
    ultimately show ?thesis by (simp add: requeue_decision_def)
  next
    case False
    then have "\<forall>v \<in> set vs. version_in_use store v" unfolding n by (simp add: filter_empty_conv)
    moreover have "finish_blueprint env s2 b vs = (s', evs, Inr d)"
      using assms(2-4,6) c r False by (simp add: Reconcile_def)
    ultimately show ?thesis by (rule finish_blueprint_decision [rotated])
  qed
qed

section \<open>Versions that are deleted\<close>

definition version_key :: "BlueprintVersion \<Rightarrow> NamespacedName" where
  "version_key v = \<lparr>nnNamespace = bvNamespace v, nnName = bvName v\<rparr>"

definition live_version :: "'s client \<Rightarrow> 's \<Rightarrow> NamespacedName \<Rightarrow> bool" where
  "live_version clnt s n \<longleftrightarrow> (\<exists>v. clGetVersion clnt s n = Inr v \<and> IsZero (omDeletionTimestamp (bvMeta v)))"

text \<open>
  What the API server does: a successful deletion removes the version, or marks it as deleted if it has
  finalizers, and concerns no other version; writing a blueprint leaves the versions alone; a list shows the
  stored versions of the namespace and blueprint.
\<close>

definition deletes_versions :: "'s client \<Rightarrow> bool" where
  "deletes_versions clnt \<longleftrightarrow>
     (\<forall>s v s'. clDeleteVersion clnt s v = (s', None) \<longrightarrow>
        \<not> live_version clnt s' (version_key v) \<and>
        ((\<forall>w. clGetVersion clnt s (version_key v) = Inr w \<longrightarrow> omFinalizers (bvMeta w) = []) \<longrightarrow>
           (\<forall>w. clGetVersion clnt s' (version_key v) \<noteq> Inr w)) \<and>
        (\<forall>n. n \<noteq> version_key v \<longrightarrow> clGetVersion clnt s' n = clGetVersion clnt s n)) \<and>
     (\<forall>s b s' r. clUpdateBlueprint clnt s b = (s', r) \<longrightarrow> clGetVersion clnt s' = clGetVersion clnt s) \<and>
     (\<forall>s ns name vs. clListVersions clnt s ns name = Inr vs \<longrightarrow> set vs =
        {v. clGetVersion clnt s (version_key v) = Inr v \<and> bvNamespace v = ns \<and> bvsBlueprint (bvSpec v) = name})"

lemma deletes_versionsD:
  assumes "deletes_versions clnt"
  shows "clDeleteVersion clnt s v = (s', None) \<Longrightarrow> \<not> live_version clnt s' (version_key v)"
    and "clDeleteVersion clnt s v = (s', None) \<Longrightarrow>
      (\<And>w. clGetVersion clnt s (version_key v) = Inr w \<Longrightarrow> omFinalizers (bvMeta w) = []) \<Longrightarrow>
      clGetVersion clnt s' (version_key v) \<noteq> Inr w"
    and "clDeleteVersion clnt s v = (s', None) \<Longrightarrow> n \<noteq> version_key v \<Longrightarrow> clGetVersion clnt s' n = clGetVersion clnt s n"
    and "clUpdateBlueprint clnt s b = (s', r) \<Longrightarrow> clGetVersion clnt s' = clGetVersion clnt s"
    and "clListVersions clnt s ns name = Inr vs \<Longrightarrow> v \<in> set vs \<longleftrightarrow>
      clGetVersion clnt s (version_key v) = Inr v \<and> bvNamespace v = ns \<and> bvsBlueprint (bvSpec v) = name"
  using assms unfolding deletes_versions_def by (metis, metis, metis, metis, blast)

lemma listed_plain: "deletes_versions clnt \<Longrightarrow> clListVersions clnt s ns name = Inr vs \<Longrightarrow> CHR ''/'' \<notin> set ns \<Longrightarrow> plain_versions vs"
  by (simp add: plain_versions_def deletes_versionsD(5))

lemma live_version_cong: "clGetVersion clnt s' n = clGetVersion clnt s n \<Longrightarrow> live_version clnt s' n \<longleftrightarrow> live_version clnt s n"
  by (simp add: live_version_def)

text \<open>The loop without error: what it leaves alone, what is not live after it, and what is gone.\<close>

lemma collect_versions_frame:
  assumes "deletes_versions (beClient env)" "serves_env store env" "plain_versions vs"
    and "collect_versions env s vs n = (s', Inr n')"
    and "\<And>v. v \<in> set vs \<Longrightarrow> \<not> version_in_use store v \<Longrightarrow> version_key v \<noteq> m"
  shows "clGetVersion (beClient env) s' m = clGetVersion (beClient env) s m"
  using assms(3-5)
proof (induction vs arbitrary: s n)
  case (Cons v vs)
  then have pv: "plain_versions vs" "CHR ''/'' \<notin> set (bvNamespace v)" by (simp_all add: plain_versions_def)
  have tail: "version_key x \<noteq> m" if "x \<in> set vs" "\<not> version_in_use store x" for x using that Cons.prems(3) by simp
  show ?case
  proof (cases rule: collect_versions_cases [of env v s vs n])
    case (Used items)
    with Cons.IH [OF pv(1) _ tail] Cons.prems(2) show ?thesis by simp
  next
    case (Deleted t)
    then have "\<not> version_in_use store v" using version_query [OF assms(2) pv(2)] by simp
    with Cons.prems(3) have "m \<noteq> version_key v" by fastforce
    with deletes_versionsD(3) [OF assms(1) Deleted(3)] Cons.IH [OF pv(1) _ tail] Cons.prems(2) Deleted(4) show ?thesis by simp
  qed (use Cons.prems(2) in simp_all)
qed simp

lemma collect_versions_unused:
  assumes "deletes_versions (beClient env)" "serves_env store env" "plain_versions vs"
    and "collect_versions env s vs n = (s', Inr n')" "v \<in> set vs" "\<not> version_in_use store v"
  shows "IsZero (omDeletionTimestamp (bvMeta v)) \<and> \<not> live_version (beClient env) s' (version_key v) \<and>
    ((\<forall>w. clGetVersion (beClient env) s (version_key v) = Inr w \<longrightarrow> omFinalizers (bvMeta w) = []) \<longrightarrow>
       (\<forall>w. clGetVersion (beClient env) s' (version_key v) \<noteq> Inr w))"
  using assms(3-6)
proof (induction vs arbitrary: s n v)
  case (Cons x vs)
  then have pv: "plain_versions vs" "CHR ''/'' \<notin> set (bvNamespace x)" by (simp_all add: plain_versions_def)
  show ?case
  proof (cases rule: collect_versions_cases [of env x s vs n])
    case (Used items)
    then have "version_in_use store x" using version_query [OF assms(2) pv(2)] by blast
    with Cons.prems have "v \<in> set vs" by auto
    with Cons.IH [OF pv(1) _ this Cons.prems(4)] Cons.prems(2) Used(3) show ?thesis by simp
  next
    case (Deleted t)
    then have rest: "collect_versions env t vs (n + 1) = (s', Inr n')" using Cons.prems(2) by simp
    note gone = deletes_versionsD(1,2) [OF assms(1) Deleted(3)]
    show ?thesis
    proof (cases "\<exists>y \<in> set vs. \<not> version_in_use store y \<and> version_key y = version_key v")
      case True
      then obtain y where y: "y \<in> set vs" "\<not> version_in_use store y" "version_key y = version_key v" by blast
      have "\<forall>w. clGetVersion (beClient env) t (version_key v) = Inr w \<longrightarrow> omFinalizers (bvMeta w) = []"
        if "\<forall>w. clGetVersion (beClient env) s (version_key v) = Inr w \<longrightarrow> omFinalizers (bvMeta w) = []"
      proof (cases "version_key v = version_key x")
        case True
        with that gone(2) show ?thesis by simp
      next
        case False
        from that deletes_versionsD(3) [OF assms(1) Deleted(3) this] show ?thesis by simp
      qed
      moreover have "IsZero (omDeletionTimestamp (bvMeta v))"
      proof (cases "v = x")
        case False
        then have "v \<in> set vs" using Cons.prems(3) by simp
        from Cons.IH [OF pv(1) rest this Cons.prems(4)] show ?thesis by blast
      qed (use Deleted(2) in simp)
      ultimately show ?thesis using Cons.IH [OF pv(1) rest y(1,2), unfolded y(3)] by blast
    next
      case False
      then have "v = x" using Cons.prems(3,4) by auto
      moreover have "clGetVersion (beClient env) s' (version_key v) = clGetVersion (beClient env) t (version_key v)"
        using False by (intro collect_versions_frame [OF assms(1,2) pv(1) rest]) blast
      ultimately show ?thesis using gone Deleted(2) by (simp add: live_version_def)
    qed
  qed (use Cons.prems(2) in simp_all)
qed simp

lemma finish_blueprint_versions:
  assumes "deletes_versions (beClient env)" "finish_blueprint env s b vs = (s', res)"
  shows "clGetVersion (beClient env) s' = clGetVersion (beClient env) s"
  using assms deletes_versionsD(4) [OF assms(1)]
  by (auto simp: finish_blueprint_def split: if_splits prod.splits bool.splits sum.splits)

lemma version_in_use_by_key: "version_key v = version_key w \<Longrightarrow> version_in_use store v \<longleftrightarrow> version_in_use store w"
  by (simp add: version_in_use_def version_key_def)

text \<open>
  C29. A reconciliation that ends without error, on a living or deleted blueprint, has collected the garbage:
  of the versions it lists, those that a component uses are as before, the unused ones are not live any more,
  and no other version is touched. None of the unused versions was waiting for its deletion to finish; such a
  version makes the reconciliation fail. The component cache answers as its indexes say, and a deletion that
  the API server reports as done removes or marks that version and no other.
\<close>

theorem Reconcile_collects_unused:
  assumes "deletes_versions (beClient env)" "serves_env store env" "clGetBlueprint (beClient env) s req = Inr b0"
    and "ensure_finalizer env s b0 = (s1, Inr b)" "CHR ''/'' \<notin> set (bpNamespace b)"
    and "clListVersions (beClient env) s1 (bpNamespace b) (bpName b) = Inr vs"
    and "Reconcile env s req = (s', evs, Inr d)"
  shows "(\<forall>v \<in> set vs. if version_in_use store v
      then clGetVersion (beClient env) s' (version_key v) = Inr v
      else \<not> live_version (beClient env) s' (version_key v) \<and> IsZero (omDeletionTimestamp (bvMeta v))) \<and>
    (\<forall>n. n \<notin> version_key ` set vs \<longrightarrow> clGetVersion (beClient env) s' n = clGetVersion (beClient env) s n)"
proof -
  note plain = listed_plain [OF assms(1,6,5)]
  obtain s2 n where c: "collect_versions env s1 vs 0 = (s2, Inr n)"
    using assms(3,4,6,7) by (auto simp: Reconcile_def split: prod.splits sum.splits)
  have s1: "clGetVersion (beClient env) s1 = clGetVersion (beClient env) s"
    using assms(4) deletes_versionsD(4) [OF assms(1)]
    by (auto simp: ensure_finalizer_def split: if_splits prod.splits bool.splits sum.splits)
  have s': "clGetVersion (beClient env) s' = clGetVersion (beClient env) s2"
    using assms(3,4,6,7) c finish_blueprint_versions [OF assms(1)]
    by (auto simp: Reconcile_def split: if_splits)
  note frame = collect_versions_frame [OF assms(1,2) plain c]
  have "clGetVersion (beClient env) s' (version_key v) = Inr v" if v: "v \<in> set vs" "version_in_use store v" for v
  proof -
    have "clGetVersion (beClient env) s2 (version_key v) = clGetVersion (beClient env) s1 (version_key v)"
      using v(2) version_in_use_by_key by (intro frame) metis
    with s' v(1) deletes_versionsD(5) [OF assms(1,6)] show ?thesis by simp
  qed
  moreover have "\<not> live_version (beClient env) s' (version_key v) \<and> IsZero (omDeletionTimestamp (bvMeta v))"
    if v: "v \<in> set vs" "\<not> version_in_use store v" for v
    using collect_versions_unused [OF assms(1,2) plain c v] s' by (simp add: live_version_def)
  moreover have "clGetVersion (beClient env) s' m = clGetVersion (beClient env) s m" if "m \<notin> version_key ` set vs" for m
  proof -
    have "clGetVersion (beClient env) s2 m = clGetVersion (beClient env) s1 m" using that by (intro frame) blast
    with s' s1 show ?thesis by simp
  qed
  ultimately show ?thesis by simp
qed

text \<open>
  C30. A deleted blueprint whose versions are unused is let go in two reconciliations, if both end without
  error and nothing happens in between: the first deletes the versions and, if there were any, asks to be
  called again after a second; the second finds none and writes the blueprint without the finalizer, after
  which it stops. The versions have no finalizers (the program gives them none), the blueprint is still read
  as before by the second one, and the API server behaves as for the garbage collection.
\<close>

theorem Reconcile_lets_go:
  assumes "deletes_versions (beClient env)" "serves_env store env"
    and "clGetBlueprint (beClient env) s req = Inr b" "bp_deleting b" "CHR ''/'' \<notin> set (bpNamespace b)"
    and "clListVersions (beClient env) s (bpNamespace b) (bpName b) = Inr vs" "vs \<noteq> []"
    and "\<forall>v \<in> set vs. \<not> version_in_use store v \<and> omFinalizers (bvMeta v) = []"
    and "Reconcile env s req = (s1, evs1, Inr d1)"
    and "clGetBlueprint (beClient env) s1 req = Inr b" "Reconcile env s1 req = (s2, evs2, Inr d2)"
    and "beRemoveFinalizer env b meta_Name = (b', True)"
  shows "d1 = 1 * second \<and> evs1 = [] \<and> (\<forall>v \<in> set vs. \<forall>w. clGetVersion (beClient env) s1 (version_key v) \<noteq> Inr w) \<and>
    d2 = 0 \<and> evs2 = [] \<and> (\<exists>b''. clUpdateBlueprint (beClient env) s1 b' = (s2, Inr b''))"
proof -
  note plain = listed_plain [OF assms(1,6,5)]
  have fin: "ensure_finalizer env t b = (t, Inr b)" for t using assms(4) by (simp add: ensure_finalizer_def)
  obtain t n where c: "collect_versions env s vs 0 = (t, Inr n)"
    using assms(3,6,9) fin by (auto simp: Reconcile_def split: prod.splits sum.splits)
  have "filter (\<lambda>v. \<not> version_in_use store v) vs = vs" using assms(8) by simp
  with collect_versions_count [OF assms(2) plain c] assms(7) have n: "0 < n" by simp
  then have one: "s1 = t" "evs1 = []" "d1 = 1 * second" using assms(3,6,9) fin c by (simp_all add: Reconcile_def)
  have listed: "clGetVersion (beClient env) s (version_key v) = Inr v" if "v \<in> set vs" for v
    using that deletes_versionsD(5) [OF assms(1,6)] by blast
  have gone: "clGetVersion (beClient env) s1 (version_key v) \<noteq> Inr w" if "v \<in> set vs" for v w
    using collect_versions_unused [OF assms(1,2) plain c that] assms(8) that listed one(1) by simp
  obtain ws where ws: "clListVersions (beClient env) s1 (bpNamespace b) (bpName b) = Inr ws"
    using assms(10,11) fin by (auto simp: Reconcile_def split: prod.splits sum.splits)
  have "w \<notin> set ws" for w
  proof
    assume "w \<in> set ws"
    then have w: "clGetVersion (beClient env) s1 (version_key w) = Inr w" "bvNamespace w = bpNamespace b"
        "bvsBlueprint (bvSpec w) = bpName b"
      using deletes_versionsD(5) [OF assms(1) ws] by simp_all
    with gone have "version_key v \<noteq> version_key w" if "v \<in> set vs" for v using that by metis
    then have "clGetVersion (beClient env) s1 (version_key w) = clGetVersion (beClient env) s (version_key w)"
      unfolding one(1) by (intro collect_versions_frame [OF assms(1,2) plain c]) blast
    with w have "w \<in> set vs" using deletes_versionsD(5) [OF assms(1,6)] by simp
    with gone w(1) show False by blast
  qed
  then have "ws = []" by (cases ws) auto
  with ws assms(4,10-12) fin have "d2 = 0 \<and> evs2 = [] \<and> (\<exists>b''. clUpdateBlueprint (beClient env) s1 b' = (s2, Inr b''))"
    by (auto simp: Reconcile_def finish_blueprint_def split: prod.splits sum.splits)
  with one gone show ?thesis by blast
qed

end
