(* ===== verification/Checker.thy ===== *)
theory Checker
  imports ComponentCache HttpUtil
begin

text \<open>
  \<open>internal/httprepository/checker.go\<close>: the runnable that polls the http repositories of all components
  every 30 seconds and triggers the components whose artifact changed. What the select statement
  delivers is the input sequence of the loop. The cache's answer at the n-th tick and the network as the
  n-th call of \<open>GetArtifact\<close> finds it are parameters; triggering and logging are recorded in the state.
\<close>

section \<open>State\<close>

datatype log_entry = ListError error | FetchError NamespacedName error

record checker_state =
  ckTicks :: nat
  ckCalls :: nat
  ckTriggered :: "NamespacedName list"
  ckLog :: "log_entry list"

record checker_env =
  ckCache :: "nat \<Rightarrow> cache_list"
  ckHttp :: "nat \<Rightarrow> http_env"

definition checker_init :: checker_state where
  "checker_init = \<lparr>ckTicks = 0, ckCalls = 0, ckTriggered = [], ckLog = []\<rparr>"

datatype select = CtxDone | Tick

text \<open>How far the loop got: still waiting for input, returned, hanging in a call, or panicked.\<close>

datatype progress =
    Waiting checker_state
  | Returned checker_state
  | Hanging checker_state
  | Crashed string checker_state

section \<open>One component, one tick, the loop\<close>

definition component_Trigger :: "Component \<Rightarrow> checker_state \<Rightarrow> checker_state" where
  "component_Trigger c s = s\<lparr>ckTriggered := ckTriggered s @ [Component_NamespacedName c]\<rparr>"

definition log_error :: "log_entry \<Rightarrow> checker_state \<Rightarrow> checker_state" where
  "log_error e s = s\<lparr>ckLog := ckLog s @ [e]\<rparr>"

definition check_result ::
  "Component \<Rightarrow> error + string \<times> string \<times> string \<Rightarrow> checker_state \<Rightarrow> checker_state" where
  "check_result c r s = (case r of
     Inr (_, digest, revision) \<Rightarrow>
       if digest \<noteq> csLastAttemptedDigest (coStatus c) \<or> revision \<noteq> csLastAttemptedRevision (coStatus c)
       then component_Trigger c s else s
   | Inl err \<Rightarrow> log_error (FetchError (Component_NamespacedName c) err) s)"

definition fetch :: "checker_env \<Rightarrow> nat \<Rightarrow> HttpRepository \<Rightarrow> (error + string \<times> string \<times> string) option" where
  "fetch env n h = GetArtifact (ckHttp env n) (hrUrl h) (hrDigestHeader h) (hrRevisionHeader h)"

fun check_components :: "checker_env \<Rightarrow> Component list \<Rightarrow> checker_state \<Rightarrow> progress" where
  "check_components env [] s = Waiting s"
| "check_components env (c # cs) s =
     (case srHttpRepository (coSourceRef c) of
        None \<Rightarrow> Crashed ''invalid memory address or nil pointer dereference'' s
      | Some h \<Rightarrow>
        (case fetch env (ckCalls s) h of
           None \<Rightarrow> Hanging s
         | Some r \<Rightarrow> check_components env cs (check_result c r (s\<lparr>ckCalls := ckCalls s + 1\<rparr>))))"

definition checker_tick :: "checker_env \<Rightarrow> checker_state \<Rightarrow> progress" where
  "checker_tick env s0 =
     (let s = s0\<lparr>ckTicks := ckTicks s0 + 1\<rparr> in
      case ckCache env (ckTicks s0) [HasHttpRepository] of
        Inl err \<Rightarrow> Waiting (log_error (ListError err) s)
      | Inr items \<Rightarrow> check_components env items s)"

fun Start :: "checker_env \<Rightarrow> select list \<Rightarrow> checker_state \<Rightarrow> progress" where
  "Start env [] s = Waiting s"
| "Start env (CtxDone # rest) s = Returned s"
| "Start env (Tick # rest) s =
     (case checker_tick env s of
        Waiting s' \<Rightarrow> Start env rest s'
      | p \<Rightarrow> p)"

definition NeedLeaderElection :: bool where "NeedLeaderElection = True"

text \<open>
  The checker has a cache; what the network answers while it runs comes later. \<open>SetupWithManager\<close> hands the
  checker to the manager. The error that the manager's \<open>Add\<close> returns
  is ignored.
\<close>

definition newChecker :: "(nat \<Rightarrow> cache_list) \<Rightarrow> (nat \<Rightarrow> http_env) \<Rightarrow> checker_env" where
  "newChecker cache http = \<lparr>ckCache = cache, ckHttp = http\<rparr>"

definition checker_SetupWithManager ::
  "(((nat \<Rightarrow> http_env) \<Rightarrow> checker_env) \<Rightarrow> 's \<Rightarrow> 's \<times> error option) \<Rightarrow> (nat \<Rightarrow> cache_list) \<Rightarrow> 's \<Rightarrow> 's \<times> error option" where
  "checker_SetupWithManager Add cache s = (fst (Add (newChecker cache) s), None)"

section \<open>What the cache promises the checker\<close>

lemma indexBySourceType_http:
  assumes "indexBySourceType c = Inr vs" "sourceTypeHttpRepository \<in> set vs"
  shows "srHttpRepository (coSourceRef c) \<noteq> None"
  using assms by (auto simp: indexBySourceType_def Let_def source_types split: if_splits)

lemma http_query:
  assumes "indexed_cache store clist" "clist [HasHttpRepository] = Inr items" "c \<in> set items"
  shows "c \<in> store \<and> srHttpRepository (coSourceRef c) \<noteq> None"
proof -
  have "set items = indexed store indexBySourceType sourceTypeHttpRepository"
    using indexed_cache_list [OF assms(1) index_funcs_lookup(1)] assms(2) by (simp add: HasHttpRepository_def)
  with assms(3) show ?thesis using indexBySourceType_http by (auto simp: indexed_def)
qed

section \<open>The effect of a tick\<close>

text \<open>The artifact the repository of a component offers at the n-th call, as the checker sees it.\<close>

definition offered :: "checker_env \<Rightarrow> nat \<Rightarrow> Component \<Rightarrow> (error + string \<times> string \<times> string) option" where
  "offered env n c = (case srHttpRepository (coSourceRef c) of None \<Rightarrow> None | Some h \<Rightarrow> fetch env n h)"

definition outdated :: "Component \<Rightarrow> (error + string \<times> string \<times> string) option \<Rightarrow> bool" where
  "outdated c r = (case r of
     Some (Inr (_, digest, revision)) \<Rightarrow>
       (digest, revision) \<noteq> (csLastAttemptedDigest (coStatus c), csLastAttemptedRevision (coStatus c))
   | _ \<Rightarrow> False)"

lemma check_result_effect [simp]:
  "ckTicks (check_result c r s) = ckTicks s" "ckCalls (check_result c r s) = ckCalls s"
  "ckTriggered (check_result c r s) =
     ckTriggered s @ (if outdated c (Some r) then [Component_NamespacedName c] else [])"
  by (auto simp: check_result_def component_Trigger_def log_error_def outdated_def split: sum.splits prod.splits)

text \<open>The components of a list with the numbers of their calls, the first one being call \<open>n\<close>.\<close>

definition numbered :: "nat \<Rightarrow> Component list \<Rightarrow> (Component \<times> nat) list" where
  "numbered n cs = zip cs [n..<n + length cs]"

lemma numbered_simps [simp]:
  "numbered n [] = []" "numbered n (c # cs) = (c, n) # numbered (Suc n) cs"
  by (simp_all add: numbered_def upt_conv_Cons del: upt_Suc)

lemma numbered_members: "(c, k) \<in> set (numbered n cs) \<Longrightarrow> c \<in> set cs"
  by (auto simp: numbered_def dest: set_zip_leftD)

definition stale_names :: "checker_env \<Rightarrow> nat \<Rightarrow> Component list \<Rightarrow> NamespacedName list" where
  "stale_names env n cs =
     map (\<lambda>(c, k). Component_NamespacedName c) (filter (\<lambda>(c, k). outdated c (offered env k c)) (numbered n cs))"

lemma check_components_Waiting:
  assumes "\<forall>(c, k) \<in> set (numbered (ckCalls s) cs). offered env k c \<noteq> None"
  shows "\<exists>s'. check_components env cs s = Waiting s' \<and> ckTicks s' = ckTicks s \<and>
    ckCalls s' = ckCalls s + length cs \<and> ckTriggered s' = ckTriggered s @ stale_names env (ckCalls s) cs"
  using assms
proof (induction cs arbitrary: s)
  case (Cons c cs)
  then obtain h r
    where h: "srHttpRepository (coSourceRef c) = Some h" "fetch env (ckCalls s) h = Some r"
    by (auto simp: offered_def split: option.splits)
  let ?s = "check_result c r (s\<lparr>ckCalls := ckCalls s + 1\<rparr>)"
  have "\<forall>(c, k) \<in> set (numbered (ckCalls ?s) cs). offered env k c \<noteq> None" using Cons.prems by simp
  from Cons.IH [OF this] obtain s' where s': "check_components env cs ?s = Waiting s'"
    "ckTicks s' = ckTicks s" "ckCalls s' = Suc (ckCalls s + length cs)"
    "ckTriggered s' = ckTriggered ?s @ stale_names env (Suc (ckCalls s)) cs"
    by auto
  have "offered env (ckCalls s) c = Some r" using h by (simp add: offered_def)
  with s' h show ?case by (simp add: stale_names_def)
qed (simp add: stale_names_def)

lemma check_components_hangs:
  assumes "c \<in> set cs" "\<And>n. offered env n c = None" "\<forall>c \<in> set cs. srHttpRepository (coSourceRef c) \<noteq> None"
  shows "\<exists>s'. check_components env cs s = Hanging s'"
  using assms(1,3)
proof (induction cs arbitrary: s)
  case (Cons d cs)
  then obtain h where h: "srHttpRepository (coSourceRef d) = Some h" by auto
  show ?case
  proof (cases "fetch env (ckCalls s) h")
    case None
    with h show ?thesis by simp
  next
    case (Some r)
    with h assms(2) [of "ckCalls s"] have "d \<noteq> c" by (auto simp: offered_def)
    with Cons h Some show ?thesis by simp
  qed
qed simp

section \<open>Properties\<close>

text \<open>
  A tick with a serving cache and repositories that answer triggers exactly the components
  whose repository offers a digest or revision other than the last attempted one, in the order of the
  list, and leaves the checker ready for the next tick.
\<close>

theorem tick_triggers_outdated:
  assumes "ckCache env (ckTicks s) [HasHttpRepository] = Inr cs"
    and "\<forall>(c, k) \<in> set (numbered (ckCalls s) cs). offered env k c \<noteq> None"
  shows "\<exists>s'. checker_tick env s = Waiting s' \<and>
    ckTriggered s' = ckTriggered s @ map (\<lambda>(c, k). Component_NamespacedName c)
      (filter (\<lambda>(c, k). outdated c (offered env k c)) (numbered (ckCalls s) cs))"
  using check_components_Waiting [of "s\<lparr>ckTicks := ckTicks s + 1\<rparr>" cs env] assms
  by (auto simp: checker_tick_def stale_names_def)

text \<open>
  As long as the cache answers by its indexes the checker never dereferences a missing
  http repository: its loop does not panic, whatever the repositories do.
\<close>

theorem Start_never_crashes:
  assumes "\<And>n. indexed_cache (store n) (ckCache env n)"
  shows "Start env ins s \<noteq> Crashed msg s'"
proof -
  have loop: "check_components env cs s \<noteq> Crashed msg s'"
    if "\<forall>c \<in> set cs. srHttpRepository (coSourceRef c) \<noteq> None" for cs s
    using that by (induction cs arbitrary: s) (auto split: option.splits)
  have tick: "checker_tick env s \<noteq> Crashed msg s'" for s
  proof (cases "ckCache env (ckTicks s) [HasHttpRepository]")
    case (Inr cs)
    then have "\<forall>c \<in> set cs. srHttpRepository (coSourceRef c) \<noteq> None"
      using http_query [OF assms] by blast
    with Inr show ?thesis by (simp add: checker_tick_def loop)
  qed (simp add: checker_tick_def)
  show ?thesis
  proof (induction ins arbitrary: s)
    case (Cons i ins)
    show ?case
    proof (cases i)
      case Tick
      with Cons tick [of s] show ?thesis by (auto split: progress.splits)
    qed simp
  qed simp
qed

text \<open>
  The loop ends with the context, never earlier and not later: when every repository answers,
  \<open>Start\<close> has returned exactly if the context was done among its inputs.
\<close>

theorem Start_ends_with_context:
  assumes "\<And>n. indexed_cache (store n) (ckCache env n)"
    and "\<And>n h. fetch env n h \<noteq> None"
  shows "(\<exists>s'. Start env ins s = Returned s') \<longleftrightarrow> CtxDone \<in> set ins"
proof -
  have tick: "\<exists>s'. checker_tick env s = Waiting s'" for s
  proof (cases "ckCache env (ckTicks s) [HasHttpRepository]")
    case (Inr cs)
    then have "\<forall>c \<in> set cs. srHttpRepository (coSourceRef c) \<noteq> None"
      using http_query [OF assms(1)] by blast
    then have "offered env k c \<noteq> None" if "c \<in> set cs" for c k
      using assms(2) that by (auto simp: offered_def split: option.splits)
    then have "\<forall>(c, k) \<in> set (numbered (ckCalls (s\<lparr>ckTicks := ckTicks s + 1\<rparr>)) cs). offered env k c \<noteq> None"
      by (auto dest: numbered_members)
    from check_components_Waiting [OF this] Inr show ?thesis by (auto simp: checker_tick_def)
  qed (simp add: checker_tick_def)
  show ?thesis
  proof (induction ins arbitrary: s)
    case (Cons i ins)
    show ?case
    proof (cases i)
      case Tick
      obtain t where "checker_tick env s = Waiting t" using tick by blast
      with Tick Cons.IH [of t] show ?thesis by simp
    qed simp
  qed simp
qed

text \<open>
  C34. One repository that redirects endlessly, without ever sending the digest header, stops the checker for
  good: the tick in which its component is listed hangs, so that neither later ticks nor the end of the
  context are noticed. The chain of redirects is that of the network as each call finds it: the n-th call
  follows \<open>u n 0\<close>, \<open>u n 1\<close> and so on.
\<close>

theorem Start_hangs_on_endless_redirects:
  assumes "indexed_cache store (ckCache env (ckTicks s))"
    and "ckCache env (ckTicks s) [HasHttpRepository] = Inr cs" "c \<in> set cs"
    and "srHttpRepository (coSourceRef c) = Some h"
    and "\<And>n. heParse (ckHttp env n) (hrUrl h) = Inr (u n 0)"
    and "\<And>n m. follows (ckHttp env n) (default_digestHeader (hrDigestHeader h)) m (u n m) (u n (Suc m))"
  shows "\<exists>s'. \<forall>rest. Start env (Tick # rest) s = Hanging s'"
proof -
  have "\<forall>c \<in> set cs. srHttpRepository (coSourceRef c) \<noteq> None"
    using http_query [OF assms(1,2)] by blast
  moreover have "fetch env n h = None" for n
    unfolding fetch_def using assms(5,6) by (rule GetArtifact_diverges)
  then have "\<And>n. offered env n c = None" using assms(4) by (simp add: offered_def)
  ultimately obtain s' where "check_components env cs (s\<lparr>ckTicks := ckTicks s + 1\<rparr>) = Hanging s'"
    using check_components_hangs [OF assms(3)] by blast
  with assms(2) show ?thesis by (simp add: checker_tick_def)
qed

end
