(* ===== verification/Hooks.thy ===== *)
theory Hooks
  imports ComponentCache SourceRef
begin

text \<open>
  The reconcile hooks of the component controller (\<open>internal/controllers/component/hooks.go\<close>). A hook
  that changes the component returns it together with its outcome, because the runtime keeps the
  changes even when the hook fails. Reading and listing the cache are function arguments.
\<close>

section \<open>Post-read: the pinned digest and revision\<close>

definition digest_mismatch :: "string \<Rightarrow> string \<Rightarrow> error" where
  "digest_mismatch is_digest spec_digest =
     Errorf (''source digest ('' @ is_digest @ '') does not match specified digest ('' @ spec_digest @ '')'')"

definition revision_mismatch :: "string \<Rightarrow> string \<Rightarrow> error" where
  "revision_mismatch is_revision spec_revision =
     Errorf (''source revision ('' @ is_revision @ '') does not match specified revision ('' @ spec_revision @ '')'')"

definition makeFuncPostRead :: "Component \<Rightarrow> unit result" where
  "makeFuncPostRead component =
     (let spec = coSpec component in
      if \<not> IsZero (omDeletionTimestamp (coMeta component)) then Inr ()
      else rbind
        (if spDigest spec \<noteq> [] then
           rbind (SourceReference_Artifact (spSourceRef spec)) (\<lambda>a.
             if artDigest a \<noteq> spDigest spec
             then Inl (Err (Retriable (digest_mismatch (artDigest a) (spDigest spec)) (Some (10 * second))))
             else Inr ())
         else Inr ())
        (\<lambda>_.
           if spRevision spec \<noteq> [] then
             rbind (SourceReference_Artifact (spSourceRef spec)) (\<lambda>a.
               if artRevision a \<noteq> spRevision spec
               then Inl (Err (Retriable (revision_mismatch (artRevision a) (spRevision spec)) (Some (10 * second))))
               else Inr ())
           else Inr ()))"

section \<open>Pre-reconcile: attempted source and dependencies\<close>

definition not_synced :: "Component \<Rightarrow> Component \<Rightarrow> bool" where
  "not_synced c component \<longleftrightarrow>
     SourceReference_Equals (coSourceRef c) (coSourceRef component) \<and>
     (csLastAttemptedDigest (coStatus c) = [] \<or>
      csLastAttemptedDigest (coStatus c) \<noteq> csLastAttemptedDigest (coStatus component) \<or>
      csLastAttemptedRevision (coStatus c) = [] \<or>
      csLastAttemptedRevision (coStatus c) \<noteq> csLastAttemptedRevision (coStatus component))"

definition dependent_message :: "Dependency \<Rightarrow> string \<Rightarrow> string" where
  "dependent_message dependency what = ''dependent component '' @ NamespacedName_String dependency @ what"

definition check_dependency ::
  "(NamespacedName \<Rightarrow> error + Component) \<Rightarrow> Component \<Rightarrow> Dependency \<Rightarrow> unit result" where
  "check_dependency cache_Get component dependency =
     (case cache_Get (WithDefaultNamespace dependency (coNamespace component)) of
        Inl err \<Rightarrow>
          if IsNotFound err then Inl (Err (Retriable (Wrap err (dependent_message dependency '' not found'')) None))
          else Inl (Err err)
      | Inr c \<Rightarrow>
          if not_synced c component
          then Inl (Err (Retriable (Errorf (dependent_message dependency '' not synced'')) None))
          else if \<not> Component_IsReady c
          then Inl (Err (Retriable (Errorf (dependent_message dependency '' not ready'')) None))
          else Inr ())"

fun check_dependencies ::
  "(NamespacedName \<Rightarrow> error + Component) \<Rightarrow> Component \<Rightarrow> Dependency list \<Rightarrow> unit result" where
  "check_dependencies cache_Get component [] = Inr ()"
| "check_dependencies cache_Get component (dependency # rest) =
     rbind (check_dependency cache_Get component dependency)
       (\<lambda>_. check_dependencies cache_Get component rest)"

definition set_attempted :: "Component \<Rightarrow> Artifact \<Rightarrow> Component" where
  "set_attempted component a =
     component\<lparr>coStatus := (coStatus component)\<lparr>csLastAttemptedDigest := artDigest a,
       csLastAttemptedRevision := artRevision a\<rparr>\<rparr>"

definition makeFuncPreReconcile ::
  "(NamespacedName \<Rightarrow> error + Component) \<Rightarrow> Component \<Rightarrow> Component \<times> unit result" where
  "makeFuncPreReconcile cache_Get component =
     (case SourceReference_Artifact (coSourceRef component) of
        Inl fault \<Rightarrow> (component, Inl fault)
      | Inr a \<Rightarrow>
          let component' = set_attempted component a
          in (component', check_dependencies cache_Get component' (spDependencies (coSpec component'))))"

section \<open>Post-reconcile and pre-delete\<close>

definition makeFuncPostReconcile :: "Component \<Rightarrow> Component" where
  "makeFuncPostReconcile component =
     component\<lparr>coStatus := (coStatus component)\<lparr>
       csLastAppliedDigest := csLastAttemptedDigest (coStatus component),
       csLastAppliedRevision := csLastAttemptedRevision (coStatus component)\<rparr>\<rparr>"

definition makeFuncPreDelete ::
  "(string \<Rightarrow> string \<Rightarrow> string) \<Rightarrow> cache_list \<Rightarrow> Component \<Rightarrow> unit result" where
  "makeFuncPreDelete key clist component =
     (case clist [MatchingDependency key component] of
        Inl err \<Rightarrow> Inl (Err err)
      | Inr [] \<Rightarrow> Inr ()
      | Inr [c] \<Rightarrow>
          Inl (Err (Retriable (Errorf (''deletion blocked by depending component '' @
            key (coNamespace c) (coName c))) None))
      | Inr (c # cs) \<Rightarrow>
          Inl (Err (Retriable (Errorf (''deletion blocked by depending component '' @
            key (coNamespace c) (coName c) @ '' (and '' @ nat_str (length cs) @ '' others)'')) None)))"

section \<open>Facts\<close>

definition dependency_met ::
  "(NamespacedName \<Rightarrow> error + Component) \<Rightarrow> Component \<Rightarrow> Dependency \<Rightarrow> bool" where
  "dependency_met cache_Get component dependency \<longleftrightarrow>
     (\<exists>c. cache_Get (WithDefaultNamespace dependency (coNamespace component)) = Inr c \<and>
        Component_IsReady c \<and> \<not> not_synced c component)"

lemma check_dependency_Inr [result_iff]:
  "check_dependency get c d = Inr () \<longleftrightarrow> dependency_met get c d"
  by (auto simp: check_dependency_def dependency_met_def split: sum.splits)

lemma check_dependencies_Inr:
  "check_dependencies get c ds = Inr () \<longleftrightarrow> (\<forall>d \<in> set ds. dependency_met get c d)"
  by (induction get c ds rule: check_dependencies.induct) (auto simp: result_iff)

text \<open>The loop reports the first dependency that is not met.\<close>

lemma check_dependencies_Inl:
  "check_dependencies get c ds = Inl f \<Longrightarrow>
     \<exists>ds1 d ds2. ds = ds1 @ d # ds2 \<and> (\<forall>d1 \<in> set ds1. dependency_met get c d1) \<and> check_dependency get c d = Inl f"
proof (induction get c ds rule: check_dependencies.induct)
  case (2 get c d ds)
  then show ?case
  proof (cases "check_dependency get c d")
    case (Inl a)
    with 2 show ?thesis by (intro exI [of _ "[]"] exI [of _ d] exI [of _ ds]) simp
  next
    case (Inr b)
    with 2 obtain ds1 e ds2 where "ds = ds1 @ e # ds2" "\<forall>d1 \<in> set ds1. dependency_met get c d1"
      "check_dependency get c e = Inl f" by auto
    moreover from Inr have "dependency_met get c d" by (simp add: check_dependency_Inr [symmetric])
    ultimately show ?thesis by (intro exI [of _ "d # ds1"] exI [of _ e] exI [of _ ds2]) simp
  qed
qed simp

lemma check_dependency_fault:
  "check_dependency get c d = Inl f \<Longrightarrow>
     (\<exists>e. f = Err (Retriable e None)) \<or>
     (\<exists>e. f = Err e \<and> get (WithDefaultNamespace d (coNamespace c)) = Inl e \<and> \<not> IsNotFound e)"
  by (auto simp: check_dependency_def split: sum.splits if_splits)

lemma set_attempted_simps [simp]:
  "coMeta (set_attempted c a) = coMeta c" "coSpec (set_attempted c a) = coSpec c"
  "csLastAttemptedDigest (coStatus (set_attempted c a)) = artDigest a"
  "csLastAttemptedRevision (coStatus (set_attempted c a)) = artRevision a"
  "csStatus (coStatus (set_attempted c a)) = csStatus (coStatus c)"
  by (simp_all add: set_attempted_def)

section \<open>Properties\<close>

text \<open>
  What the hook demands of a dependency, stated on the fields of the objects: the component of that name (in
  the own namespace by default) exists, is ready at its generation, and, if its source reference has the same
  fields, has attempted the same digest and revision, which are not empty.
\<close>

definition same_reference :: "SourceReference \<Rightarrow> SourceReference \<Rightarrow> bool" where
  "same_reference r s \<longleftrightarrow> srBlueprint r = srBlueprint s \<and> srHttpRepository r = srHttpRepository s \<and>
     srFluxGitRepository r = srFluxGitRepository s \<and> srFluxOciRepository r = srFluxOciRepository s \<and>
     srFluxBucket r = srFluxBucket s \<and> srFluxHelmChart r = srFluxHelmChart s"

definition dependency_done ::
  "(NamespacedName \<Rightarrow> error + Component) \<Rightarrow> Component \<Rightarrow> Artifact \<Rightarrow> Dependency \<Rightarrow> bool" where
  "dependency_done cache_Get c a d \<longleftrightarrow> (\<exists>x.
     cache_Get \<lparr>nnNamespace = (if nnNamespace d = [] then coNamespace c else nnNamespace d), nnName = nnName d\<rparr> = Inr x \<and>
     rsReady (csStatus (coStatus x)) \<and> rsObservedGeneration (csStatus (coStatus x)) = omGeneration (coMeta x) \<and>
     (same_reference (spSourceRef (coSpec x)) (spSourceRef (coSpec c)) \<longrightarrow>
        csLastAttemptedDigest (coStatus x) = artDigest a \<and> artDigest a \<noteq> [] \<and>
        csLastAttemptedRevision (coStatus x) = artRevision a \<and> artRevision a \<noteq> []))"

lemma dependency_done_met: "dependency_met get (set_attempted c a) d \<longleftrightarrow> dependency_done get c a d"
proof -
  have "\<lparr>nnNamespace = (if nnNamespace d = [] then coNamespace c else nnNamespace d), nnName = nnName d\<rparr> =
      WithDefaultNamespace d (coNamespace c)"
    by (simp add: WithDefaultNamespace_def)
  moreover have "SourceReference_Equals r s \<longleftrightarrow> same_reference r s" for r s by (simp add: Equals_iff same_reference_def)
  ultimately show ?thesis
    unfolding dependency_met_def dependency_done_def not_synced_def Component_IsReady_def by (simp only:) auto
qed

text \<open>
  C25. Pre-reconcile, on a loaded source, first records its digest and revision as attempted and changes
  nothing else of the component, whether it succeeds or not. It succeeds exactly when every dependency exists,
  is ready at its generation and, if its source reference has the same fields, has attempted the same
  non-empty digest and revision.
\<close>

theorem PreReconcile_spec:
  assumes "srLoaded (coSourceRef c)" and "makeFuncPreReconcile get c = (c', res)"
  shows "c' = c\<lparr>coStatus := (coStatus c)\<lparr>csLastAttemptedDigest := artDigest (srArtifact (coSourceRef c)),
      csLastAttemptedRevision := artRevision (srArtifact (coSourceRef c))\<rparr>\<rparr> \<and>
    (res = Inr () \<longleftrightarrow> (\<forall>d \<in> set (spDependencies (coSpec c)). dependency_done get c (srArtifact (coSourceRef c)) d))"
proof -
  have c': "c' = set_attempted c (srArtifact (coSourceRef c))"
    and "res = check_dependencies get c' (spDependencies (coSpec c))"
    using assms by (auto simp: makeFuncPreReconcile_def SourceReference_Artifact_def Let_def)
  then show ?thesis by (simp add: check_dependencies_Inr dependency_done_met) (simp add: set_attempted_def)
qed

text \<open>
  A failing pre-reconcile reports the first unmet dependency; the error is retriable with the
  default delay unless the cache itself failed.
\<close>

theorem PreReconcile_first_unmet:
  assumes "srLoaded (coSourceRef c)" and "makeFuncPreReconcile get c = (c', Inl f)"
  shows "\<exists>ds1 d ds2. spDependencies (coSpec c) = ds1 @ d # ds2 \<and>
    (\<forall>d1 \<in> set ds1. dependency_met get c' d1) \<and> \<not> dependency_met get c' d \<and>
    ((\<exists>e. f = Err (Retriable e None)) \<or>
     (\<exists>e. f = Err e \<and> get (WithDefaultNamespace d (coNamespace c)) = Inl e \<and> \<not> IsNotFound e))"
proof -
  from assms have c': "c' = set_attempted c (srArtifact (coSourceRef c))"
    and "check_dependencies get c' (spDependencies (coSpec c)) = Inl f"
    by (auto simp: makeFuncPreReconcile_def SourceReference_Artifact_def Let_def)
  from check_dependencies_Inl [OF this(2)] obtain ds1 d ds2 where
    d: "spDependencies (coSpec c) = ds1 @ d # ds2" "\<forall>d1 \<in> set ds1. dependency_met get c' d1"
    "check_dependency get c' d = Inl f" by blast
  moreover from d(3) have "\<not> dependency_met get c' d" by (simp add: check_dependency_Inr [symmetric])
  moreover have "coNamespace c' = coNamespace c" by (simp add: c')
  ultimately show ?thesis using check_dependency_fault [OF d(3)] by metis
qed

text \<open>
  Post-read lets a living component with a loaded source pass exactly when the source has the
  digest and the revision that the spec pins; otherwise it asks for a retry in ten seconds.
\<close>

theorem PostRead_spec:
  assumes "\<not> is_deleting c" "srLoaded (coSourceRef c)"
  shows "if (spDigest (coSpec c) = [] \<or> artDigest (srArtifact (coSourceRef c)) = spDigest (coSpec c)) \<and>
      (spRevision (coSpec c) = [] \<or> artRevision (srArtifact (coSourceRef c)) = spRevision (coSpec c))
    then makeFuncPostRead c = Inr ()
    else \<exists>e. makeFuncPostRead c = Inl (Err (Retriable e (Some (10 * second))))"
  using assms by (auto simp: makeFuncPostRead_def is_deleting_def SourceReference_Artifact_def Let_def)

text \<open>
  C26. Deletion of a component passes the pre-delete hook exactly when no component in the cache depends
  on it; a dependent component blocks it with a retriable error.
\<close>

theorem PreDelete_spec:
  assumes "cache_serves store key clist" "CHR ''/'' \<notin> set (coNamespace c)"
    and "clist [MatchingDependency key c] = Inr items"
  shows "if \<exists>c' \<in> store. \<exists>d \<in> set (spDependencies (coSpec c')). resolves_to c' d (coNamespace c) (coName c)
    then \<exists>e. makeFuncPreDelete key clist c = Inl (Err (Retriable e None))
    else makeFuncPreDelete key clist c = Inr ()"
proof -
  let ?deps = "{c' \<in> store. \<exists>d \<in> set (spDependencies (coSpec c')). resolves_to c' d (coNamespace c) (coName c)}"
  have items: "set items = ?deps" by (rule dependency_query [OF assms])
  show ?thesis
  proof (cases items)
    case Nil
    with items have "?deps = {}" by simp
    with Nil assms(3) show ?thesis by (auto simp: makeFuncPreDelete_def)
  next
    case (Cons x xs)
    then have "x \<in> ?deps" using items by (metis list.set_intros(1))
    with Cons assms(3) show ?thesis
      by (auto simp: makeFuncPreDelete_def split: list.splits)
  qed
qed

text \<open>
  C40. Equal source references are compared without their default namespaces. A component whose
  dependency lives in another namespace is held back as not synced although the dependency is ready
  and follows a different flux source, as soon as the two references are written alike (no namespace,
  same name) and the two sources are at different digests.
\<close>

theorem PreReconcile_compares_unresolved_references:
  assumes "srLoaded (coSourceRef c)"
    and "spDependencies (coSpec c) = d # ds"
    and "get (WithDefaultNamespace d (coNamespace c)) = Inr c'" "Component_IsReady c'"
    and "coNamespace c' \<noteq> coNamespace c"
    and "SourceReference_Equals (coSourceRef c') (coSourceRef c)"
    and "flux_ref kind c = Some n" "nnNamespace n = []"
    and "csLastAttemptedDigest (coStatus c') \<noteq> artDigest (srArtifact (coSourceRef c))"
  shows "WithDefaultNamespace n (coNamespace c') \<noteq> WithDefaultNamespace n (coNamespace c) \<and>
    flux_ref kind c' = Some n \<and>
    snd (makeFuncPreReconcile get c) =
      Inl (Err (Retriable (Errorf (dependent_message d '' not synced'')) None))"
proof -
  have "nnNamespace (WithDefaultNamespace n (coNamespace c')) \<noteq> nnNamespace (WithDefaultNamespace n (coNamespace c))"
    using assms(5,8) by simp
  moreover have "flux_ref kind c' = Some n"
    using assms(6,7) by (simp add: Equals_iff flux_ref_def split: FluxKind.splits)
  moreover have "snd (makeFuncPreReconcile get c) =
      Inl (Err (Retriable (Errorf (dependent_message d '' not synced'')) None))"
    using assms by (simp add: makeFuncPreReconcile_def SourceReference_Artifact_def Let_def
        check_dependency_def not_synced_def)
  ultimately show ?thesis by metis
qed

end
