(* ===== verification/GoPath.thy ===== *)
theory GoPath
  imports Prelude
begin

text \<open>
  What the program uses of Go's \<open>path/filepath\<close> (on Unix), \<open>strings\<close> and \<open>io/fs\<close>: lexical path
  functions on byte strings, and the meaning of an absolute path as its list of directory names.
\<close>

section \<open>Lexical paths\<close>

abbreviation slash :: char where "slash \<equiv> CHR ''/''"
abbreviation dot :: string where "dot \<equiv> ''.''"
abbreviation dotdot :: string where "dotdot \<equiv> ''..''"

text \<open>The elements kept so far are on a stack, the last one on top.\<close>

definition clean_step :: "bool \<Rightarrow> string list \<Rightarrow> string \<Rightarrow> string list" where
  "clean_step rooted st e =
     (if e = [] \<or> e = dot then st
      else if e = dotdot then
        (case st of
           [] \<Rightarrow> if rooted then [] else [dotdot]
         | t # ts \<Rightarrow> if t = dotdot then dotdot # st else ts)
      else e # st)"

definition clean_stack :: "bool \<Rightarrow> string \<Rightarrow> string list" where
  "clean_stack rooted path = foldl (clean_step rooted) [] (split_on slash path)"

definition IsAbs :: "string \<Rightarrow> bool" where
  "IsAbs path \<longleftrightarrow> path \<noteq> [] \<and> hd path = slash"

definition Clean :: "string \<Rightarrow> string" where
  "Clean path =
     (if path = [] then dot
      else if IsAbs path then slash # join_with [slash] (rev (clean_stack True path))
      else if clean_stack False path = [] then dot
      else join_with [slash] (rev (clean_stack False path)))"

definition Join :: "string list \<Rightarrow> string" where
  "Join elem = (case dropWhile (\<lambda>e. e = []) elem of
     [] \<Rightarrow> []
   | rest \<Rightarrow> Clean (join_with [slash] rest))"

text \<open>The part of a path up to and including its last slash.\<close>

definition dir_part :: "string \<Rightarrow> string" where
  "dir_part path = rev (dropWhile (\<lambda>c. c \<noteq> slash) (rev path))"

definition filepath_Dir :: "string \<Rightarrow> string" where
  "filepath_Dir path = Clean (dir_part path)"

text \<open>The suffix from the last dot of the last element, empty without one.\<close>

definition Ext :: "string \<Rightarrow> string" where
  "Ext path =
     (let base = rev (takeWhile (\<lambda>c. c \<noteq> slash) (rev path)) in
      if CHR ''.'' \<in> set base then CHR ''.'' # rev (takeWhile (\<lambda>c. c \<noteq> CHR ''.'') (rev base)) else [])"

definition HasPrefix :: "string \<Rightarrow> string \<Rightarrow> bool" where
  "HasPrefix s p \<longleftrightarrow> take (length p) s = p"

fun Contains :: "string \<Rightarrow> string \<Rightarrow> bool" where
  "Contains [] sub \<longleftrightarrow> sub = []"
| "Contains (c # s) sub \<longleftrightarrow> HasPrefix (c # s) sub \<or> Contains s sub"

text \<open>\<open>fs.ValidPath\<close>, the paths an \<open>fs.FS\<close> accepts, for valid UTF-8.\<close>

definition ValidPath :: "string \<Rightarrow> bool" where
  "ValidPath name \<longleftrightarrow>
     name = dot \<or> (\<forall>e \<in> set (split_on slash name). e \<noteq> [] \<and> e \<noteq> dot \<and> e \<noteq> dotdot)"

text \<open>The directory names an absolute path leads through, in a file system without links.\<close>

definition resolve :: "string \<Rightarrow> string list" where
  "resolve path = rev (clean_stack True path)"

section \<open>Facts about cleaning\<close>

lemma Contains_iff: "Contains s sub \<longleftrightarrow> sublist sub s"
proof (induction s)
  case (Cons c s)
  have "HasPrefix (c # s) sub \<longleftrightarrow> prefix sub (c # s)"
    by (metis HasPrefix_def append_eq_conv_conj append_take_drop_id prefix_def)
  with Cons show ?case by (simp add: sublist_Cons_right)
qed simp

definition plain_elem :: "string \<Rightarrow> bool" where
  "plain_elem e \<longleftrightarrow> e \<noteq> [] \<and> e \<noteq> dot \<and> e \<noteq> dotdot \<and> slash \<notin> set e"

lemma clean_step_plain [simp]: "plain_elem e \<Longrightarrow> clean_step r st e = e # st"
  by (simp add: clean_step_def plain_elem_def)

text \<open>Stacks of plain elements stay such when the path is rooted.\<close>

definition plain_list :: "string list \<Rightarrow> bool" where
  "plain_list es \<longleftrightarrow> list_all plain_elem es"

lemma plain_list_simps [simp]:
  "plain_list []" "plain_list (e # es) \<longleftrightarrow> plain_elem e \<and> plain_list es"
  "plain_list (es @ fs) \<longleftrightarrow> plain_list es \<and> plain_list fs" "plain_list (rev es) \<longleftrightarrow> plain_list es"
  by (simp_all add: plain_list_def)

lemma plain_listD: "plain_list es \<Longrightarrow> e \<in> set es \<Longrightarrow> plain_elem e"
  by (simp add: plain_list_def list_all_iff)

lemma clean_step_rooted:
  assumes "plain_list st" "slash \<notin> set e"
  shows "plain_list (clean_step True st e)"
proof (cases "plain_elem e")
  case False
  with assms have "e = [] \<or> e = dot \<or> e = dotdot" unfolding plain_elem_def by blast
  with assms(1) show ?thesis by (cases st) (auto simp: clean_step_def plain_elem_def)
qed (use assms in simp)

lemma foldl_clean_plain: "plain_list es \<Longrightarrow> foldl (clean_step r) st es = rev es @ st"
  by (induction es arbitrary: st) simp_all

lemma foldl_clean_rooted:
  "plain_list st \<Longrightarrow> (\<And>e. e \<in> set es \<Longrightarrow> slash \<notin> set e) \<Longrightarrow> plain_list (foldl (clean_step True) st es)"
  by (induction es arbitrary: st) (simp_all add: clean_step_rooted)

lemma resolve_plain [simp]: "plain_list (resolve path)"
  unfolding resolve_def clean_stack_def plain_list_simps
  by (rule foldl_clean_rooted) (auto dest: split_on_no_sep)

lemma clean_step_keeps_dotdot: "dotdot \<in> set st \<Longrightarrow> dotdot \<in> set (clean_step False st e)"
  by (cases st) (auto simp: clean_step_def)

lemma foldl_clean_keeps_dotdot:
  "dotdot \<in> set st \<Longrightarrow> dotdot \<in> set (foldl (clean_step False) st es)"
  by (induction es arbitrary: st) (simp_all add: clean_step_keeps_dotdot)

text \<open>A relative path that cleans to a path without \<open>..\<close> never leaves the directory it starts in.\<close>

lemma foldl_clean_below:
  assumes "dotdot \<notin> set (foldl (clean_step False) st es)"
  shows "foldl (clean_step True) (st @ base) es = foldl (clean_step False) st es @ base"
  using assms
proof (induction es arbitrary: st)
  case (Cons e es)
  have no: "dotdot \<notin> set (clean_step False st e)"
    using Cons.prems foldl_clean_keeps_dotdot by force
  then have "clean_step True (st @ base) e = clean_step False st e @ base"
    by (cases st) (auto simp: clean_step_def split: if_splits)
  with Cons show ?case by simp
qed simp

lemma clean_step_rooted_eq:
  "dotdot \<notin> set st \<Longrightarrow> e \<noteq> dotdot \<Longrightarrow> clean_step False st e = clean_step True st e"
  by (simp add: clean_step_def)

lemma clean_step_subset: "set (clean_step r st e) \<subseteq> insert e (set st)"
  by (cases st) (auto simp: clean_step_def)

lemma foldl_clean_subset: "set (foldl (clean_step r) st es) \<subseteq> set es \<union> set st"
proof (induction es arbitrary: st)
  case (Cons e es)
  then show ?case using clean_step_subset [of r st e] by fastforce
qed simp

lemma split_on_sublist: "w \<in> set (split_on c s) \<Longrightarrow> sublist w s"
proof (induction s arbitrary: w)
  case (Cons x s)
  show ?case
  proof (cases "x = c")
    case True
    with Cons show ?thesis by (auto simp: sublist_Cons_right)
  next
    case False
    obtain v vs where vs: "split_on c s = v # vs" by (cases "split_on c s") simp_all
    have pre: "prefix v s" using vs join_with_split [of c s] by (cases vs) (auto simp: join_with_Cons)
    from Cons.prems False vs consider "w = x # v" | "w \<in> set vs" by auto
    then show ?thesis
    proof cases
      case 1
      with pre show ?thesis by (simp add: sublist_Cons_right)
    next
      case 2
      with Cons.IH vs show ?thesis by (simp add: sublist_Cons_right)
    qed
  qed
qed simp

lemma no_dotdot_elems: "\<not> Contains path dotdot \<Longrightarrow> dotdot \<notin> set (split_on slash path)"
  using split_on_sublist Contains_iff by blast

section \<open>Joining below a directory\<close>

text \<open>Directories as the program makes them: absolute and clean.\<close>

definition abs_path :: "string list \<Rightarrow> string" where
  "abs_path ds = slash # join_with [slash] ds"

lemma split_abs_path:
  assumes "plain_list ds" "ds \<noteq> []"
  shows "split_on slash (abs_path ds) = [] # ds"
proof -
  have "split_on slash (join_with [slash] ds) = ds"
    using assms by (intro split_on_join) (auto simp: plain_elem_def dest: plain_listD)
  then show ?thesis by (simp add: abs_path_def)
qed

lemma clean_step_nothing [simp]: "clean_step r st [] = st"
  by (simp add: clean_step_def)

lemma resolve_abs_path: "plain_list ds \<Longrightarrow> resolve (abs_path ds) = ds"
  by (cases "ds = []")
    (simp_all add: resolve_def clean_stack_def split_abs_path foldl_clean_plain, simp add: abs_path_def)

lemma Clean_abs: "IsAbs path \<Longrightarrow> Clean path = abs_path (resolve path)"
  by (auto simp: Clean_def IsAbs_def abs_path_def resolve_def)

lemma resolve_Clean_abs: "IsAbs path \<Longrightarrow> resolve (Clean path) = resolve path"
  by (simp add: Clean_abs resolve_abs_path)

lemma Join_abs:
  assumes "IsAbs target"
  shows "resolve (Join [target, path]) = rev (foldl (clean_step True) (rev (resolve target)) (split_on slash path))"
    and "IsAbs (Join [target, path])"
proof -
  have ne: "target \<noteq> []" "IsAbs (target @ slash # path)" using assms by (auto simp: IsAbs_def)
  then have j: "Join [target, path] = Clean (target @ slash # path)" by (simp add: Join_def)
  then show "IsAbs (Join [target, path])" using ne by (simp add: Clean_abs abs_path_def IsAbs_def)
  have "resolve (target @ slash # path) = rev (foldl (clean_step True) (rev (resolve target)) (split_on slash path))"
    by (simp add: resolve_def clean_stack_def split_on_append_gen)
  with j ne show "resolve (Join [target, path]) = rev (foldl (clean_step True) (rev (resolve target)) (split_on slash path))"
    by (simp add: resolve_Clean_abs)
qed

text \<open>The names a relative path adds to the directory it is joined to, when it stays below it.\<close>

definition rel_names :: "string \<Rightarrow> string list" where
  "rel_names path = rev (clean_stack False path)"

definition stays_below :: "string \<Rightarrow> bool" where
  "stays_below path \<longleftrightarrow> dotdot \<notin> set (rel_names path)"

lemma Join_below:
  assumes "IsAbs target" "stays_below path"
  shows "resolve (Join [target, path]) = resolve target @ rel_names path"
proof -
  have "dotdot \<notin> set (foldl (clean_step False) [] (split_on slash path))"
    using assms(2) by (simp add: stays_below_def rel_names_def clean_stack_def)
  from foldl_clean_below [OF this, of "rev (resolve target)"] show ?thesis
    by (simp add: Join_abs [OF assms(1)] rel_names_def clean_stack_def)
qed

lemma no_dotdot_stays_below: "\<not> Contains path dotdot \<Longrightarrow> stays_below path"
  using no_dotdot_elems [of path] foldl_clean_subset [of False "[]" "split_on slash path"]
  by (auto simp: stays_below_def rel_names_def clean_stack_def)

lemma rel_names_resolve: "stays_below path \<Longrightarrow> rel_names path = resolve path"
  using foldl_clean_below [of "[]" "split_on slash path" "[]"]
  by (simp add: stays_below_def rel_names_def resolve_def clean_stack_def)

lemma rel_names_plain: "stays_below path \<Longrightarrow> plain_list (rel_names path)"
  by (simp add: rel_names_resolve)

lemma plain_list_no_dotdot: "plain_list ds \<Longrightarrow> dotdot \<notin> set ds"
  by (auto simp: plain_elem_def dest: plain_listD)

lemma rel_names_joined: "plain_list ds \<Longrightarrow> ds \<noteq> [] \<Longrightarrow> rel_names (join_with [slash] ds) = ds"
proof -
  assume "plain_list ds" "ds \<noteq> []"
  moreover from this have "split_on slash (join_with [slash] ds) = ds"
    by (intro split_on_join) (auto simp: plain_elem_def dest: plain_listD)
  ultimately show ?thesis by (simp add: rel_names_def clean_stack_def foldl_clean_plain)
qed

lemma rel_names_abs_path: "plain_list ds \<Longrightarrow> rel_names (abs_path ds) = ds"
  by (cases "ds = []")
    (simp_all add: rel_names_def clean_stack_def split_abs_path foldl_clean_plain, simp add: abs_path_def)

text \<open>Cleaning a path does not change where it leads.\<close>

lemma rel_names_Clean:
  assumes "stays_below path"
  shows "rel_names (Clean path) = rel_names path"
proof (cases "IsAbs path")
  case True
  with assms show ?thesis by (simp add: Clean_abs rel_names_abs_path rel_names_resolve)
next
  case False
  have dot_names: "rel_names dot = []" "rel_names [] = []"
    by (simp_all add: rel_names_def clean_stack_def clean_step_def)
  show ?thesis
  proof (cases "rel_names path = []")
    case True
    with False dot_names show ?thesis by (auto simp: Clean_def rel_names_def)
  next
    case nonempty: False
    with False dot_names have "Clean path = join_with [slash] (rel_names path)"
      by (auto simp: Clean_def rel_names_def)
    with nonempty assms show ?thesis by (simp add: rel_names_joined rel_names_plain)
  qed
qed

lemma stays_below_Clean: "stays_below path \<Longrightarrow> stays_below (Clean path)"
  by (simp add: stays_below_def rel_names_Clean)

text \<open>The directory of a path without \<open>..\<close> elements.\<close>

lemma dir_part_prefix: "\<exists>rest. path = dir_part path @ rest \<and> slash \<notin> set rest"
proof -
  have "rev path = takeWhile (\<lambda>c. c \<noteq> slash) (rev path) @ dropWhile (\<lambda>c. c \<noteq> slash) (rev path)" by simp
  then have "path = dir_part path @ rev (takeWhile (\<lambda>c. c \<noteq> slash) (rev path))"
    unfolding dir_part_def by (metis rev_append rev_rev_ident)
  moreover have "slash \<notin> set (rev (takeWhile (\<lambda>c. c \<noteq> slash) (rev path)))"
    by (auto dest: set_takeWhileD)
  ultimately show ?thesis by blast
qed

lemma filepath_Dir_below: "\<not> Contains path dotdot \<Longrightarrow> stays_below (filepath_Dir path)"
proof -
  assume "\<not> Contains path dotdot"
  moreover obtain rest where "path = dir_part path @ rest" using dir_part_prefix by blast
  then have "sublist (dir_part path) path" by (metis sublist_append_rightI)
  ultimately have "\<not> Contains (dir_part path) dotdot"
    unfolding Contains_iff using sublist_order.order.trans by blast
  then show ?thesis by (simp add: filepath_Dir_def stays_below_Clean no_dotdot_stays_below)
qed

text \<open>The directory of an absolute clean path.\<close>

lemma Dir_abs:
  assumes "plain_list ds" "ds \<noteq> []"
  shows "resolve (filepath_Dir (abs_path ds)) = butlast ds"
proof -
  obtain es e where ds: "ds = es @ [e]" using assms(2) by (metis rev_exhaust)
  have e: "slash \<notin> set e" "plain_list es" using assms(1) ds by (simp_all add: plain_elem_def)
  have split: "abs_path ds = (if es = [] then [slash] else abs_path es @ [slash]) @ e"
  proof (cases "es = []")
    case False
    have "join_with [slash] (es @ [e]) = join_with [slash] es @ slash # e"
      using False by (induction "[slash]" es rule: join_with.induct) (simp_all add: join_with_Cons)
    with False ds show ?thesis by (simp add: abs_path_def)
  qed (simp add: ds abs_path_def)
  have dp: "dir_part (u @ slash # v) = u @ [slash]" if "slash \<notin> set v" for u v
  proof -
    have "dropWhile (\<lambda>c. c \<noteq> slash) (rev v @ slash # rev u) = slash # rev u"
      using that by (subst dropWhile_append2) auto
    then show ?thesis by (simp add: dir_part_def)
  qed
  have d: "dir_part (abs_path ds) = (if es = [] then [slash] else abs_path es @ [slash])"
    using dp [OF e(1), of "[]"] dp [OF e(1), of "abs_path es"] unfolding split by simp
  have "resolve (abs_path es @ [slash]) = es"
  proof -
    have "resolve (abs_path es @ slash # []) = resolve (abs_path es)"
      unfolding resolve_def clean_stack_def split_on_append_gen by simp
    then show ?thesis using e(2) by (simp add: resolve_abs_path)
  qed
  moreover have "resolve [slash] = []" by (simp add: resolve_def clean_stack_def)
  moreover have "IsAbs (dir_part (abs_path ds))" unfolding d by (simp add: IsAbs_def abs_path_def)
  ultimately show ?thesis using d ds by (simp add: filepath_Dir_def resolve_Clean_abs)
qed

lemma Join_abs_clean:
  assumes "IsAbs target"
  shows "Join [target, path] = abs_path (resolve (Join [target, path]))"
proof -
  have ne: "target \<noteq> []" "IsAbs (target @ slash # path)" using assms by (auto simp: IsAbs_def)
  then have "Join [target, path] = Clean (target @ slash # path)" by (simp add: Join_def)
  then show ?thesis using ne by (simp add: Clean_abs resolve_abs_path)
qed

end
