(* ===== verification/FileSystem.thy ===== *)
theory FileSystem
  imports GoPath
begin

text \<open>
  The file system the program works on, as far as it uses it: directories and regular files without
  links, named by the list of names from the root. The operations are those of package \<open>os\<close> with the
  program's flags. Failures of the operating system that the tree does not determine (permissions, a
  full disk) are the parameter \<open>fsFault\<close>, the name picked for a temporary directory is \<open>fsTempName\<close>.
\<close>

section \<open>State and errors\<close>

datatype os_error = NotExist | NotDir | IsDirectory | Exist | PathEscapes | InvalidPath | OtherOS string

fun os_message :: "os_error \<Rightarrow> string" where
  "os_message NotExist = ''no such file or directory''"
| "os_message NotDir = ''not a directory''"
| "os_message IsDirectory = ''is a directory''"
| "os_message Exist = ''file exists''"
| "os_message PathEscapes = ''path escapes from parent''"
| "os_message InvalidPath = ''invalid argument''"
| "os_message (OtherOS m) = m"

definition os_err :: "os_error \<Rightarrow> error" where
  "os_err e = Failure (os_message e)"

datatype entry = DirEntry | FileEntry string

type_synonym abspath = "string list"
type_synonym tree = "(abspath \<times> entry) list"

record file_sys =
  fsEntries :: tree
  fsFault :: "string \<Rightarrow> abspath \<Rightarrow> os_error option"
  fsTempName :: "string \<Rightarrow> tree \<Rightarrow> string"

definition fs_get :: "file_sys \<Rightarrow> abspath \<Rightarrow> entry option" where
  "fs_get s p = (if p = [] then Some DirEntry else map_of (fsEntries s) p)"

definition fs_put :: "abspath \<Rightarrow> entry \<Rightarrow> file_sys \<Rightarrow> file_sys" where
  "fs_put p e s = s\<lparr>fsEntries := AList.update p e (fsEntries s)\<rparr>"

definition is_file :: "entry option \<Rightarrow> bool" where
  "is_file e = (case e of Some (FileEntry _) \<Rightarrow> True | _ \<Rightarrow> False)"

text \<open>The error for a path with no entry: a file on the way is not the same as nothing there.\<close>

definition missing_error :: "file_sys \<Rightarrow> abspath \<Rightarrow> os_error" where
  "missing_error s p = (if list_ex (\<lambda>q. is_file (fs_get s q)) (prefixes p) then NotDir else NotExist)"

section \<open>Operations\<close>

definition Stat_at :: "file_sys \<Rightarrow> abspath \<Rightarrow> os_error + entry" where
  "Stat_at s p = (case fsFault s ''stat'' p of
     Some e \<Rightarrow> Inl e
   | None \<Rightarrow> (case fs_get s p of Some x \<Rightarrow> Inr x | None \<Rightarrow> Inl (missing_error s p)))"

definition os_Stat :: "file_sys \<Rightarrow> string \<Rightarrow> os_error + entry" where
  "os_Stat s path = Stat_at s (resolve path)"

fun mkdir_below :: "file_sys \<Rightarrow> abspath \<Rightarrow> string list \<Rightarrow> file_sys \<times> os_error option" where
  "mkdir_below s d [] = (s, None)"
| "mkdir_below s d (n # ns) =
     (case fs_get s (d @ [n]) of
        Some DirEntry \<Rightarrow> mkdir_below s (d @ [n]) ns
      | Some (FileEntry _) \<Rightarrow> (s, Some NotDir)
      | None \<Rightarrow>
        (case fsFault s ''mkdir'' (d @ [n]) of
           Some e \<Rightarrow> (s, Some e)
         | None \<Rightarrow> mkdir_below (fs_put (d @ [n]) DirEntry s) (d @ [n]) ns))"

definition MkdirAll :: "file_sys \<Rightarrow> string \<Rightarrow> file_sys \<times> os_error option" where
  "MkdirAll s path = mkdir_below s [] (resolve path)"

text \<open>Opening a file for writing creates or empties it; its directory must exist.\<close>

definition open_for_write :: "file_sys \<Rightarrow> abspath \<Rightarrow> os_error + file_sys" where
  "open_for_write s p =
     (case fsFault s ''open'' p of
        Some e \<Rightarrow> Inl e
      | None \<Rightarrow>
        (case fs_get s p of
           Some DirEntry \<Rightarrow> Inl IsDirectory
         | Some (FileEntry _) \<Rightarrow> Inr (fs_put p (FileEntry []) s)
         | None \<Rightarrow> if fs_get s (butlast p) = Some DirEntry then Inr (fs_put p (FileEntry []) s)
                   else Inl (missing_error s p)))"

definition write_at :: "file_sys \<Rightarrow> abspath \<Rightarrow> string \<Rightarrow> file_sys \<times> os_error option" where
  "write_at s p content = (case open_for_write s p of
     Inl e \<Rightarrow> (s, Some e)
   | Inr s' \<Rightarrow> (fs_put p (FileEntry content) s', None))"

definition os_WriteFile :: "file_sys \<Rightarrow> string \<Rightarrow> string \<Rightarrow> file_sys \<times> os_error option" where
  "os_WriteFile s path content = write_at s (resolve path) content"

definition read_at :: "file_sys \<Rightarrow> abspath \<Rightarrow> os_error + string" where
  "read_at s p = (case fsFault s ''read'' p of
     Some e \<Rightarrow> Inl e
   | None \<Rightarrow> (case fs_get s p of
       Some (FileEntry c) \<Rightarrow> Inr c
     | Some DirEntry \<Rightarrow> Inl IsDirectory
     | None \<Rightarrow> Inl (missing_error s p)))"

text \<open>The program ignores the error of \<open>os.RemoveAll\<close>; what cannot be removed is not modelled.\<close>

definition RemoveAll :: "file_sys \<Rightarrow> string \<Rightarrow> file_sys" where
  "RemoveAll s path = s\<lparr>fsEntries := filter (\<lambda>(q, _). \<not> prefix (resolve path) q) (fsEntries s)\<rparr>"

text \<open>\<open>os.MkdirTemp\<close> in the default directory: the picked name must be new and its parent a directory.\<close>

definition MkdirTemp :: "file_sys \<Rightarrow> string \<Rightarrow> file_sys \<times> (os_error + string)" where
  "MkdirTemp s pattern =
     (let p = resolve (fsTempName s pattern (fsEntries s)) in
      if fs_get s p \<noteq> None then (s, Inl Exist)
      else if fs_get s (butlast p) \<noteq> Some DirEntry then (s, Inl (missing_error s p))
      else (case fsFault s ''mkdir'' p of
          Some e \<Rightarrow> (s, Inl e)
        | None \<Rightarrow> (fs_put p DirEntry s, Inr (abs_path p))))"

section \<open>A root directory\<close>

text \<open>
  \<open>os.Root\<close> confines paths to a directory: absolute paths and paths that lead out of it are refused.
  Its \<open>FS\<close> moreover admits valid paths only. \<open>WalkDir\<close> visits a directory tree in lexical order,
  a directory before its members.
\<close>

definition in_root :: "abspath \<Rightarrow> string \<Rightarrow> os_error + abspath" where
  "in_root root path =
     (if path = [] \<or> IsAbs path \<or> \<not> stays_below path then Inl PathEscapes else Inr (root @ rel_names path))"

definition root_Stat :: "file_sys \<Rightarrow> abspath \<Rightarrow> string \<Rightarrow> os_error + entry" where
  "root_Stat s root path = rbind (in_root root path) (Stat_at s)"

definition root_ReadFile :: "file_sys \<Rightarrow> abspath \<Rightarrow> string \<Rightarrow> os_error + string" where
  "root_ReadFile s root path = rbind (in_root root path) (read_at s)"

definition root_WriteFile :: "file_sys \<Rightarrow> abspath \<Rightarrow> string \<Rightarrow> string \<Rightarrow> file_sys \<times> os_error option" where
  "root_WriteFile s root path content = (case in_root root path of
     Inl e \<Rightarrow> (s, Some e)
   | Inr p \<Rightarrow> write_at s p content)"

definition walk_names :: "file_sys \<Rightarrow> abspath \<Rightarrow> abspath list" where
  "walk_names s p = sort (map fst (filter (\<lambda>(q, _). prefix p q) (fsEntries s)))"

definition name_in_root :: "string list \<Rightarrow> string" where
  "name_in_root ns = (if ns = [] then dot else join_with [slash] ns)"

text \<open>The names that \<open>fs.WalkDir(root.FS(), path, fn)\<close> hands to \<open>fn\<close>, or the error it hands over.\<close>

definition walk_dir :: "file_sys \<Rightarrow> abspath \<Rightarrow> string \<Rightarrow> os_error + string list" where
  "walk_dir s root path =
     (if \<not> ValidPath path then Inl InvalidPath
      else rbind (root_Stat s root path) (\<lambda>_.
        Inr (map (\<lambda>q. name_in_root (drop (length root) q)) (walk_names s (root @ rel_names path)))))"

text \<open>The tree below a directory, with names relative to it and in lexical order.\<close>

definition subtree :: "file_sys \<Rightarrow> abspath \<Rightarrow> tree" where
  "subtree s p = map (\<lambda>q. (drop (length p) q, the (fs_get s q))) (filter (\<lambda>q. q \<noteq> p) (walk_names s p))"

section \<open>Well-formed trees\<close>

definition wf_fs :: "file_sys \<Rightarrow> bool" where
  "wf_fs s \<longleftrightarrow> distinct_keys (fsEntries s) \<and>
     (\<forall>p x. p \<noteq> [] \<longrightarrow> fs_get s p = Some x \<longrightarrow> fs_get s (butlast p) = Some DirEntry)"

lemma fs_get_Nil [simp]: "fs_get s [] = Some DirEntry"
  by (simp add: fs_get_def)

lemma fs_get_put: "p \<noteq> [] \<Longrightarrow> fs_get (fs_put p e s) q = (if q = p then Some e else fs_get s q)"
  by (simp add: fs_get_def fs_put_def)

lemma fs_put_fields [simp]:
  "fsFault (fs_put p e s) = fsFault s" "fsTempName (fs_put p e s) = fsTempName s"
  by (simp_all add: fs_put_def)

lemma wf_parent: "wf_fs s \<Longrightarrow> fs_get s (d @ [n]) = Some x \<Longrightarrow> fs_get s d = Some DirEntry"
  unfolding wf_fs_def by (metis butlast_snoc snoc_eq_iff_butlast)

text \<open>In a well-formed tree, whatever lies above an entry is a directory.\<close>

lemma wf_above:
  "wf_fs s \<Longrightarrow> fs_get s (d @ ns) = Some x \<Longrightarrow> ns \<noteq> [] \<Longrightarrow> fs_get s d = Some DirEntry"
proof (induction ns arbitrary: x rule: rev_induct)
  case (snoc n ns)
  from snoc.prems(1,2) have up: "fs_get s (d @ ns) = Some DirEntry" using wf_parent [of s "d @ ns" n] by simp
  show ?case
  proof (cases "ns = []")
    case False
    with snoc.IH [OF snoc.prems(1) up] show ?thesis by simp
  qed (use up in simp)
qed simp

lemma wf_put_dir:
  assumes "wf_fs s" "fs_get s (butlast p) = Some DirEntry" "fs_get s p = None"
  shows "wf_fs (fs_put p DirEntry s)"
proof -
  have p: "p \<noteq> []" using assms(3) by auto
  have "distinct_keys (fsEntries (fs_put p DirEntry s))"
    using assms(1) by (simp add: wf_fs_def fs_put_def distinct_update)
  with assms p show ?thesis unfolding wf_fs_def by (auto simp: fs_get_put)
qed

lemma wf_put_file:
  assumes "wf_fs s" "fs_get s (butlast p) = Some DirEntry" "p \<noteq> []" "fs_get s p \<noteq> Some DirEntry"
  shows "wf_fs (fs_put p (FileEntry c) s)"
proof -
  have "distinct_keys (fsEntries (fs_put p (FileEntry c) s))"
    using assms(1) by (simp add: wf_fs_def fs_put_def distinct_update)
  moreover have "butlast q \<noteq> p" if "q \<noteq> []" "fs_get s q = Some x" for q x
    using that assms(1,4) by (auto simp: wf_fs_def)
  moreover have "butlast p \<noteq> p" using assms(3) by (metis append_butlast_last_id append_self_conv not_Cons_self2)
  ultimately show ?thesis using assms unfolding wf_fs_def by (auto simp: fs_get_put)
qed

section \<open>What the operations change\<close>

text \<open>Everything outside the directory is as before.\<close>

definition same_outside :: "abspath \<Rightarrow> file_sys \<Rightarrow> file_sys \<Rightarrow> bool" where
  "same_outside d s s' \<longleftrightarrow> (\<forall>q. \<not> prefix d q \<longrightarrow> fs_get s' q = fs_get s q)"

lemma same_outside_refl [simp]: "same_outside d s s"
  by (simp add: same_outside_def)

lemma same_outside_trans: "same_outside d s t \<Longrightarrow> same_outside d t u \<Longrightarrow> same_outside d s u"
  by (simp add: same_outside_def)

lemma same_outside_put: "d \<noteq> [] \<Longrightarrow> same_outside d s (fs_put (d @ ns) e s)"
  by (auto simp: same_outside_def fs_get_put)

text \<open>
  The invariant of an operation that works below the directory \<open>d\<close>: the tree stays well-formed, the
  directory is there, and nothing outside it changes.
\<close>

definition works_below :: "abspath \<Rightarrow> file_sys \<Rightarrow> file_sys \<Rightarrow> bool" where
  "works_below d s s' \<longleftrightarrow> wf_fs s' \<and> fs_get s' d = Some DirEntry \<and> same_outside d s s'"

lemma works_below_refl: "wf_fs s \<Longrightarrow> fs_get s d = Some DirEntry \<Longrightarrow> works_below d s s"
  by (simp add: works_below_def)

lemma works_below_trans: "works_below d s t \<Longrightarrow> works_below d t u \<Longrightarrow> works_below d s u"
  unfolding works_below_def using same_outside_trans by blast

lemma mkdir_below_skip:
  assumes "wf_fs s" "fs_get s (d @ ds) = Some DirEntry"
  shows "mkdir_below s d (ds @ ns) = mkdir_below s (d @ ds) ns"
  using assms(2)
proof (induction ds arbitrary: d)
  case (Cons a ds)
  have "fs_get s (d @ [a]) = Some DirEntry"
  proof (cases "ds = []")
    case False
    with wf_above [OF assms(1), of "d @ [a]" ds DirEntry] Cons.prems show ?thesis by simp
  qed (use Cons.prems in simp)
  with Cons.IH [of "d @ [a]"] Cons.prems show ?case by simp
qed simp

lemma mkdir_below_works:
  assumes "wf_fs s" "fs_get s (d @ ns) = Some DirEntry" "d \<noteq> []" "fs_get s d = Some DirEntry"
    and "mkdir_below s (d @ ns) ms = (s', r)"
  shows "works_below d s s' \<and> (r = None \<longrightarrow> fs_get s' (d @ ns @ ms) = Some DirEntry)"
  using assms(1,2,4,5)
proof (induction ms arbitrary: s ns)
  case Nil
  then show ?case by (simp add: works_below_def)
next
  case (Cons m ms)
  show ?case
  proof (cases "fs_get s (d @ ns @ [m])")
    case None
    show ?thesis
    proof (cases "fsFault s ''mkdir'' (d @ ns @ [m])")
      case none: None
      let ?s = "fs_put (d @ ns @ [m]) DirEntry s"
      have wf: "wf_fs ?s"
        using wf_put_dir [OF Cons.prems(1), of "d @ ns @ [m]"] None Cons.prems(2) by (simp add: butlast_append)
      have get: "fs_get ?s (d @ ns @ [m]) = Some DirEntry" "fs_get ?s d = Some DirEntry"
        using Cons.prems(3) by (simp_all add: fs_get_put)
      have "mkdir_below ?s (d @ ns @ [m]) ms = (s', r)" using Cons.prems(4) None none by simp
      with Cons.IH [OF wf, of "ns @ [m]"] get
      have rest: "works_below d ?s s'" "r = None \<longrightarrow> fs_get s' (d @ ns @ m # ms) = Some DirEntry" by simp_all
      moreover have "same_outside d s ?s" using assms(3) by (rule same_outside_put)
      ultimately show ?thesis by (auto simp: works_below_def intro: same_outside_trans)
    qed (use Cons.prems None in \<open>auto simp: works_below_def\<close>)
  next
    case (Some x)
    show ?thesis
    proof (cases x)
      case DirEntry
      with Some Cons.prems Cons.IH [of s "ns @ [m]"] show ?thesis by simp
    qed (use Some Cons.prems in \<open>auto simp: works_below_def\<close>)
  qed
qed

lemma MkdirAll_works:
  assumes "wf_fs s" "fs_get s d = Some DirEntry" "d \<noteq> []" "resolve path = d @ ns"
    and "MkdirAll s path = (s', r)"
  shows "works_below d s s'" "r = None \<Longrightarrow> fs_get s' (d @ ns) = Some DirEntry"
proof -
  have "mkdir_below s d ns = (s', r)"
    using assms(4,5) mkdir_below_skip [OF assms(1), of "[]" d ns] assms(2) by (simp add: MkdirAll_def)
  with mkdir_below_works [OF assms(1), of d "[]" ns s' r] assms(2,3)
  show "works_below d s s'" "r = None \<Longrightarrow> fs_get s' (d @ ns) = Some DirEntry" by simp_all
qed

lemma fs_put_twice: "p \<noteq> [] \<Longrightarrow> fs_get (fs_put p e (fs_put p e' s)) q = fs_get (fs_put p e s) q"
  by (simp add: fs_get_put)

lemma open_for_write_works:
  assumes "wf_fs s" "fs_get s d = Some DirEntry" "d \<noteq> []" "open_for_write s (d @ ns) = Inr s'"
  shows "ns \<noteq> []" "s' = fs_put (d @ ns) (FileEntry []) s" "works_below d s (fs_put (d @ ns) (FileEntry c) s)"
proof -
  have some: "fs_get s (d @ ns) \<noteq> Some DirEntry" and s': "s' = fs_put (d @ ns) (FileEntry []) s"
    and up: "fs_get s (butlast (d @ ns)) = Some DirEntry"
    using assms(1,3,4) by (auto simp: open_for_write_def wf_fs_def split: option.splits entry.splits if_splits)
  show ne: "ns \<noteq> []" using some assms(2) by auto
  show "s' = fs_put (d @ ns) (FileEntry []) s" by (rule s')
  show "works_below d s (fs_put (d @ ns) (FileEntry c) s)"
    using wf_put_file [OF assms(1) up _ some] assms(2,3) ne
    by (simp add: works_below_def same_outside_put fs_get_put)
qed

lemma write_at_works:
  assumes "wf_fs s" "fs_get s d = Some DirEntry" "d \<noteq> []" "write_at s (d @ ns) c = (s', r)"
  shows "works_below d s s'"
    "r = None \<Longrightarrow> fs_get s' q = (if q = d @ ns then Some (FileEntry c) else fs_get s q)"
    "r \<noteq> None \<Longrightarrow> s' = s"
proof -
  have put: "s' = fs_put (d @ ns) (FileEntry c) s \<and> r = None" if "open_for_write s (d @ ns) = Inr t" for t
    using assms(4) that open_for_write_works(2) [OF assms(1-3) that] by (simp add: write_at_def fs_put_def)
  have err: "s' = s \<and> r \<noteq> None" if "open_for_write s (d @ ns) = Inl e" for e
    using assms(4) that by (auto simp: write_at_def)
  show "works_below d s s'"
    using put err open_for_write_works(3) [OF assms(1-3)] works_below_refl [OF assms(1,2)]
    by (cases "open_for_write s (d @ ns)") auto
  show "r = None \<Longrightarrow> fs_get s' q = (if q = d @ ns then Some (FileEntry c) else fs_get s q)" "r \<noteq> None \<Longrightarrow> s' = s"
    using put err assms(3) by (cases "open_for_write s (d @ ns)"; simp add: fs_get_put)+
qed

section \<open>Temporary directories\<close>

lemma MkdirTemp_works:
  assumes "wf_fs s" "MkdirTemp s pattern = (s', Inr tmp)"
  obtains d where "tmp = abs_path d" "plain_list d" "resolve tmp = d" "d \<noteq> []" "fs_get s d = None"
    "s' = fs_put d DirEntry s" "wf_fs s'" "fs_get s' d = Some DirEntry"
proof -
  define p where "p = resolve (fsTempName s pattern (fsEntries s))"
  have get: "fs_get s p = None" "fs_get s (butlast p) = Some DirEntry"
    and s': "s' = fs_put p DirEntry s" "tmp = abs_path p"
    using assms(2) by (auto simp: MkdirTemp_def Let_def p_def [symmetric] split: if_splits option.splits)
  have p: "p \<noteq> []" "plain_list p" using get(1) by (auto simp: p_def)
  with that [of p] get s' wf_put_dir [OF assms(1) get(2,1)]
  show thesis by (simp add: resolve_abs_path fs_get_put)
qed

lemma fs_get_RemoveAll:
  "resolve path \<noteq> [] \<Longrightarrow> fs_get (RemoveAll s path) q = (if prefix (resolve path) q then None else fs_get s q)"
proof -
  have "map_of (filter (\<lambda>(q, _). P q) m) q = (if P q then map_of m q else None)" for P and m :: tree
    by (induction m) auto
  from this [of "\<lambda>q. \<not> prefix (resolve path) q" "fsEntries s"]
  show "resolve path \<noteq> [] \<Longrightarrow> ?thesis" by (auto simp: fs_get_def RemoveAll_def)
qed

lemma wf_RemoveAll:
  assumes "wf_fs s" "resolve path \<noteq> []"
  shows "wf_fs (RemoveAll s path)"
proof -
  have "distinct_keys (filter f m)" if "distinct_keys m" for f and m :: tree
    using that by (induction m) auto
  then have "distinct_keys (fsEntries (RemoveAll s path))"
    using assms(1) by (simp add: wf_fs_def RemoveAll_def)
  moreover have "\<not> prefix d (butlast q)" if "\<not> prefix d q" for d q :: abspath
    using that prefix_order.trans [OF _ prefixeq_butlast, of d q] by blast
  ultimately show ?thesis
    using assms unfolding wf_fs_def by (auto simp: fs_get_RemoveAll split: if_splits)
qed

text \<open>Working below a fresh temporary directory and removing it leaves no trace.\<close>

lemma temp_dir_no_trace:
  assumes "wf_fs s" "MkdirTemp s pattern = (s1, Inr tmp)" "works_below (resolve tmp) s1 s2"
  shows "fs_get (RemoveAll s2 tmp) q = fs_get s q"
proof -
  from MkdirTemp_works [OF assms(1,2)] obtain d
    where d: "resolve tmp = d" "d \<noteq> []" "fs_get s d = None" "s1 = fs_put d DirEntry s" by metis
  have "fs_get s q = None" if "prefix d q"
  proof (rule ccontr)
    assume "fs_get s q \<noteq> None"
    then obtain x where x: "fs_get s q = Some x" by blast
    from that obtain ns where "q = d @ ns" by (auto simp: prefix_def)
    with x d(3) wf_above [OF assms(1), of d ns x] show False by (cases "ns = []") auto
  qed
  moreover have "fs_get s2 q = fs_get s q" if "\<not> prefix d q"
    using assms(3) that d by (auto simp: works_below_def same_outside_def fs_get_put)
  ultimately show ?thesis using d by (simp add: fs_get_RemoveAll)
qed

section \<open>The files of a tree\<close>

text \<open>The files alone, as a map from paths to contents; making directories does not change it.\<close>

definition file_at :: "file_sys \<Rightarrow> abspath \<rightharpoonup> string" where
  "file_at s p = (case fs_get s p of Some (FileEntry c) \<Rightarrow> Some c | _ \<Rightarrow> None)"

lemma file_at_iff: "file_at s p = Some c \<longleftrightarrow> fs_get s p = Some (FileEntry c)"
  by (auto simp: file_at_def split: option.splits entry.splits)

lemma mkdir_below_files: "file_at (fst (mkdir_below s d ns)) = file_at s"
proof (induction s d ns rule: mkdir_below.induct)
  case (2 s d n ns)
  have "file_at (fs_put (d @ [n]) DirEntry s) = file_at s" if "fs_get s (d @ [n]) = None"
    using that by (auto simp: file_at_def fs_get_put)
  with 2 show ?case by (auto split: option.splits entry.splits)
qed simp

lemma MkdirAll_files: "MkdirAll s path = (s', r) \<Longrightarrow> file_at s' = file_at s"
  using mkdir_below_files [of s "[]" "resolve path"] by (simp add: MkdirAll_def)

lemma write_at_files:
  assumes "wf_fs s" "fs_get s d = Some DirEntry" "d \<noteq> []" "write_at s (d @ ns) c = (s', None)"
  shows "file_at s' = (file_at s)(d @ ns \<mapsto> c)"
  using write_at_works(2) [OF assms] by (auto simp: file_at_def)

text \<open>The directories of a tree.\<close>

definition dir_at :: "file_sys \<Rightarrow> abspath \<Rightarrow> bool" where
  "dir_at s p \<longleftrightarrow> fs_get s p = Some DirEntry"

lemma write_at_dirs:
  assumes "wf_fs s" "fs_get s d = Some DirEntry" "d \<noteq> []" "write_at s (d @ ns) c = (s', r)"
    "file_at s (d @ ns) \<noteq> None"
  shows "dir_at s' = dir_at s"
proof (cases r)
  case None
  with write_at_works(2) [OF assms(1-4)] assms(5) show ?thesis
    by (auto simp: dir_at_def fun_eq_iff file_at_def split: option.splits entry.splits)
next
  case (Some e)
  with write_at_works(3) [OF assms(1-4)] show ?thesis by simp
qed

lemma works_belowD:
  "works_below d s s' \<Longrightarrow> wf_fs s'" "works_below d s s' \<Longrightarrow> fs_get s' d = Some DirEntry"
  by (simp_all add: works_below_def)

lemma MkdirAll_existing:
  assumes "wf_fs s" "fs_get s (resolve path) = Some DirEntry"
  shows "MkdirAll s path = (s, None)"
  using mkdir_below_skip [OF assms(1), of "[]" "resolve path" "[]"] assms(2) by (simp add: MkdirAll_def)

lemma write_at_directory: "fs_get s p = Some DirEntry \<Longrightarrow> \<exists>e. write_at s p c = (s, Some e)"
  by (auto simp: write_at_def open_for_write_def split: option.splits)

end
