(* ===== verification/Decrypt.thy ===== *)
theory Decrypt
  imports FileSystem
begin

text \<open>
  \<open>internal/decrypt/sops.go\<close>: detecting sops-encrypted files by their marker bytes, decrypting them with
  the sops library, and the key service that uses the imported PGP and age keys. The sops library, the
  PGP and age implementations and the key import are parameters (\<open>sops_lib\<close>, \<open>crypto_lib\<close>,
  \<open>import_lib\<close>); what the code does around their calls is modelled, panics and \<open>recover\<close> included.
\<close>

section \<open>Formats and markers\<close>

datatype Format = Binary | Dotenv | Ini | Json | Yaml | unsupportedFormat

definition decryptionPGPExt :: string where "decryptionPGPExt = ''.asc''"
definition decryptionAgeExt :: string where "decryptionAgeExt = ''.agekey''"

fun sopsFormatToString :: "Format \<Rightarrow> string" where
  "sopsFormatToString Dotenv = ''dotenv''"
| "sopsFormatToString Ini = ''INI''"
| "sopsFormatToString Json = ''JSON''"
| "sopsFormatToString Yaml = ''YAML''"
| "sopsFormatToString _ = []"

definition sopsFormatToMarkerBytes :: "(Format \<times> string) list" where
  "sopsFormatToMarkerBytes =
     [(Dotenv, ''sops_mac=ENC[''),
      (Ini, ''[sops]''),
      (Json, CHR 0x22 # ''mac'' @ CHR 0x22 # '': '' @ CHR 0x22 # ''ENC[''),
      (Yaml, ''mac: ENC['')]"

text \<open>
  Go visits the entries of a map in an unspecified order. Every order of a map with few entries is
  given by some ranking of its keys, which is a parameter.
\<close>

definition map_order :: "('k \<Rightarrow> nat) \<Rightarrow> ('k \<times> 'v) list \<Rightarrow> ('k \<times> 'v) list" where
  "map_order rank m = sort_key (\<lambda>(k, v). rank k) m"

fun first_marker :: "string \<Rightarrow> (Format \<times> string) list \<Rightarrow> Format" where
  "first_marker b [] = unsupportedFormat"
| "first_marker b ((k, v) # rest) = (if Contains b v then k else first_marker b rest)"

definition detectFormatFromMarkerBytes :: "(Format \<Rightarrow> nat) \<Rightarrow> string \<Rightarrow> Format" where
  "detectFormatFromMarkerBytes rank b = first_marker b (map_order rank sopsFormatToMarkerBytes)"

section \<open>The key service\<close>

text \<open>A key of a request: its type is a PGP fingerprint, an age recipient, or any other kind.\<close>

datatype 'k KeyType = Key_PgpKey string | Key_AgeKey string | Key_Other 'k

record 'k Key =
  keyType :: "'k KeyType option"

record 'k EncryptRequest =
  erKey :: "'k Key option"
  erPlaintext :: string

record 'k DecryptRequest =
  drKey :: "'k Key option"
  drCiphertext :: string

record 'k KeyServiceServer =
  kssEncrypt :: "'k EncryptRequest \<Rightarrow> string result"
  kssDecrypt :: "'k DecryptRequest \<Rightarrow> string result"

record ('p, 'a, 'i) crypto_lib =
  pgNewFromFingerprint :: "string \<Rightarrow> 'p"
  pgDisableOpenPGP :: "'p \<Rightarrow> 'p"
  pgApplyHome :: "string \<Rightarrow> 'p \<Rightarrow> 'p"
  pgSetEncryptedKey :: "string \<Rightarrow> 'p \<Rightarrow> 'p"
  pgEncryptedKey :: "'p \<Rightarrow> string"
  pgEncrypt :: "string \<Rightarrow> 'p \<Rightarrow> error + 'p"
  pgDecrypt :: "'p \<Rightarrow> error + string"
  agForRecipient :: "string \<Rightarrow> 'a"
  agApplyIdentities :: "'i list \<Rightarrow> 'a \<Rightarrow> 'a"
  agSetEncryptedKey :: "string \<Rightarrow> 'a \<Rightarrow> 'a"
  agEncryptedKey :: "'a \<Rightarrow> string"
  agEncrypt :: "string \<Rightarrow> 'a \<Rightarrow> error + 'a"
  agDecrypt :: "'a \<Rightarrow> error + string"

record ('k, 'i) Server =
  svGnuPGHome :: string
  svAgeIdentities :: "'i list"
  svDefaultServer :: "'k KeyServiceServer option"

datatype 'i ServerOption = WithGnuPGHome string | WithAgeIdentities "'i list"

fun ApplyToServer :: "'i ServerOption \<Rightarrow> ('k, 'i) Server \<Rightarrow> ('k, 'i) Server" where
  "ApplyToServer (WithGnuPGHome home) s = s\<lparr>svGnuPGHome := home\<rparr>"
| "ApplyToServer (WithAgeIdentities ids) s = s\<lparr>svAgeIdentities := ids\<rparr>"

text \<open>The second parameter is the library's own server; setting the log level is left out.\<close>

definition NewServer :: "'k KeyServiceServer \<Rightarrow> 'i ServerOption list \<Rightarrow> ('k, 'i) Server" where
  "NewServer library_server options =
     (let s = fold ApplyToServer options \<lparr>svGnuPGHome = [], svAgeIdentities = [], svDefaultServer = None\<rparr> in
      case svDefaultServer s of
        None \<Rightarrow> s\<lparr>svDefaultServer := Some library_server\<rparr>
      | Some _ \<Rightarrow> s)"

definition pgp_key :: "('p, 'a, 'i) crypto_lib \<Rightarrow> ('k, 'i) Server \<Rightarrow> string \<Rightarrow> 'p" where
  "pgp_key lib ks fingerprint =
     (let pgpKey = pgDisableOpenPGP lib (pgNewFromFingerprint lib fingerprint) in
      if svGnuPGHome ks \<noteq> [] then pgApplyHome lib (svGnuPGHome ks) pgpKey else pgpKey)"

definition encryptWithPgp :: "('p, 'a, 'i) crypto_lib \<Rightarrow> ('k, 'i) Server \<Rightarrow> string \<Rightarrow> string \<Rightarrow> error + string" where
  "encryptWithPgp lib ks fingerprint plaintext =
     rbind (pgEncrypt lib plaintext (pgp_key lib ks fingerprint)) (\<lambda>pgpKey. Inr (pgEncryptedKey lib pgpKey))"

definition decryptWithPgp :: "('p, 'a, 'i) crypto_lib \<Rightarrow> ('k, 'i) Server \<Rightarrow> string \<Rightarrow> string \<Rightarrow> error + string" where
  "decryptWithPgp lib ks fingerprint ciphertext =
     pgDecrypt lib (pgSetEncryptedKey lib ciphertext (pgp_key lib ks fingerprint))"

definition encryptWithAge :: "('p, 'a, 'i) crypto_lib \<Rightarrow> ('k, 'i) Server \<Rightarrow> string \<Rightarrow> string \<Rightarrow> error + string" where
  "encryptWithAge lib ks recipient plaintext =
     rbind (agEncrypt lib plaintext (agForRecipient lib recipient)) (\<lambda>ageKey. Inr (agEncryptedKey lib ageKey))"

definition decryptWithAge :: "('p, 'a, 'i) crypto_lib \<Rightarrow> ('k, 'i) Server \<Rightarrow> string \<Rightarrow> string \<Rightarrow> error + string" where
  "decryptWithAge lib ks recipient ciphertext =
     agDecrypt lib (agSetEncryptedKey lib ciphertext
       (agApplyIdentities lib (svAgeIdentities ks) (agForRecipient lib recipient)))"

definition nil_pointer :: string where
  "nil_pointer = ''invalid memory address or nil pointer dereference''"

text \<open>A missing key is a nil pointer, a key without a type an error; other kinds go to the default server.\<close>

definition Server_Encrypt :: "('p, 'a, 'i) crypto_lib \<Rightarrow> ('k, 'i) Server \<Rightarrow> 'k EncryptRequest \<Rightarrow> string result" where
  "Server_Encrypt lib ks req = (case erKey req of
     None \<Rightarrow> Inl (Panic nil_pointer)
   | Some key \<Rightarrow>
     (case keyType key of
        Some (Key_PgpKey k) \<Rightarrow> lift_error (encryptWithPgp lib ks k (erPlaintext req))
      | Some (Key_AgeKey k) \<Rightarrow> lift_error (encryptWithAge lib ks k (erPlaintext req))
      | None \<Rightarrow> Inl (Err (Errorf ''must provide a key''))
      | Some (Key_Other _) \<Rightarrow>
        (case svDefaultServer ks of None \<Rightarrow> Inl (Panic nil_pointer) | Some d \<Rightarrow> kssEncrypt d req)))"

definition Server_Decrypt :: "('p, 'a, 'i) crypto_lib \<Rightarrow> ('k, 'i) Server \<Rightarrow> 'k DecryptRequest \<Rightarrow> string result" where
  "Server_Decrypt lib ks req = (case drKey req of
     None \<Rightarrow> Inl (Panic nil_pointer)
   | Some key \<Rightarrow>
     (case keyType key of
        Some (Key_PgpKey k) \<Rightarrow> lift_error (decryptWithPgp lib ks k (drCiphertext req))
      | Some (Key_AgeKey k) \<Rightarrow> lift_error (decryptWithAge lib ks k (drCiphertext req))
      | None \<Rightarrow> Inl (Err (Errorf ''must provide a key''))
      | Some (Key_Other _) \<Rightarrow>
        (case svDefaultServer ks of None \<Rightarrow> Inl (Panic nil_pointer) | Some d \<Rightarrow> kssDecrypt d req)))"

section \<open>The decryptor\<close>

record ('k, 'i) SopsDecryptor =
  sdGnuPGHome :: string
  sdAgeIdentities :: "'i list"
  sdKeyServices :: "('k, 'i) Server list"

record 'i import_lib =
  ilGnuPGImport :: "file_sys \<Rightarrow> string \<Rightarrow> string \<Rightarrow> file_sys \<times> error option"
  ilAgeImport :: "'i list \<Rightarrow> string \<Rightarrow> error + 'i list"

text \<open>The loop over the keys, in the iteration order of the map.\<close>

fun import_keys ::
  "'i import_lib \<Rightarrow> string \<Rightarrow> file_sys \<Rightarrow> 'i list \<Rightarrow> (string \<times> string) list \<Rightarrow> file_sys \<times> (error + 'i list)" where
  "import_keys lib home fs ids [] = (fs, Inr ids)"
| "import_keys lib home fs ids ((name, content) # keys) =
     (if Ext name = decryptionPGPExt then
        (case ilGnuPGImport lib fs home content of
           (fs', Some err) \<Rightarrow> (fs', Inl err)
         | (fs', None) \<Rightarrow> import_keys lib home fs' ids keys)
      else if Ext name = decryptionAgeExt then
        (case ilAgeImport lib ids content of
           Inl err \<Rightarrow> (fs, Inl err)
         | Inr ids' \<Rightarrow> import_keys lib home fs ids' keys)
      else import_keys lib home fs ids keys)"

definition NewSopsDecryptor ::
  "'i import_lib \<Rightarrow> 'k KeyServiceServer \<Rightarrow> file_sys \<Rightarrow> (string \<times> string) list \<Rightarrow>
     file_sys \<times> (error + ('k, 'i) SopsDecryptor)" where
  "NewSopsDecryptor lib library_server fs keys =
     (case MkdirTemp fs ''gpg-'' of
        (fs1, Inl err) \<Rightarrow> (fs1, Inl (os_err err))
      | (fs1, Inr gnuPGHome) \<Rightarrow>
        (case import_keys lib gnuPGHome fs1 [] keys of
           (fs2, Inl err) \<Rightarrow> (RemoveAll fs2 gnuPGHome, Inl err)
         | (fs2, Inr ageIdentities) \<Rightarrow>
           (let server = NewServer library_server [WithGnuPGHome gnuPGHome, WithAgeIdentities ageIdentities]
            in (fs2, Inr \<lparr>sdGnuPGHome = gnuPGHome, sdAgeIdentities = ageIdentities, sdKeyServices = [server]\<rparr>))))"

definition Cleanup :: "('k, 'i) SopsDecryptor \<Rightarrow> file_sys \<Rightarrow> file_sys" where
  "Cleanup d fs = (if sdGnuPGHome d \<noteq> [] then RemoveAll fs (sdGnuPGHome d) else fs)"

section \<open>Decryption\<close>

text \<open>Go's \<open>any\<close>, as far as the code inspects it, and the parts of a sops tree the code touches.\<close>

datatype 'v any = AnyString string | AnyOther 'v

record 'v TreeItem =
  tiKey :: "'v any"
  tiValue :: "'v any"

datatype 'm MasterKey = PgpMasterKey 'm | AgeMasterKey 'm | OtherMasterKey 'm

record ('v, 'm, 'r) Tree =
  trBranches :: "'v TreeItem list list"
  trKeyGroups :: "'m MasterKey list list"
  trRest :: 'r

record ('v, 'm, 'r, 'k, 'i) sops_lib =
  slFormatForPath :: "string \<Rightarrow> Format"
  slLoadEncryptedFile :: "Format \<Rightarrow> string \<Rightarrow> ('v, 'm, 'r) Tree result"
  slGetDataKey :: "('v, 'm, 'r) Tree \<Rightarrow> ('k, 'i) Server list \<Rightarrow> string result"
  slDecryptTree :: "string \<Rightarrow> ('v, 'm, 'r) Tree \<Rightarrow> ('v, 'm, 'r) Tree result"
  slEmitPlainFile :: "Format \<Rightarrow> 'v TreeItem list list \<Rightarrow> string result"
  slUserError :: "error \<Rightarrow> string option"

fun isOfflineMethod :: "'m MasterKey \<Rightarrow> bool" where
  "isOfflineMethod (PgpMasterKey _) = True"
| "isOfflineMethod (AgeMasterKey _) = True"
| "isOfflineMethod (OtherMasterKey _) = False"

text \<open>\<open>sort.SliceStable\<close>: an element moves behind another one only if that one is less.\<close>

fun insert_stable :: "('a \<Rightarrow> 'a \<Rightarrow> bool) \<Rightarrow> 'a \<Rightarrow> 'a list \<Rightarrow> 'a list" where
  "insert_stable lt x [] = [x]"
| "insert_stable lt x (y # ys) = (if lt y x then y # insert_stable lt x ys else x # y # ys)"

definition SliceStable :: "('a \<Rightarrow> 'a \<Rightarrow> bool) \<Rightarrow> 'a list \<Rightarrow> 'a list" where
  "SliceStable lt xs = foldr (insert_stable lt) xs []"

definition offline_first :: "'m MasterKey list \<Rightarrow> 'm MasterKey list" where
  "offline_first keyGroup = SliceStable (\<lambda>a b. isOfflineMethod a \<and> \<not> isOfflineMethod b) keyGroup"

definition seemsBinary :: "('v, 'm, 'r) Tree \<Rightarrow> bool result" where
  "seemsBinary tree = (case trBranches tree of
     [] \<Rightarrow> Inl (Panic ''index out of range [0] with length 0'')
   | branch # _ \<Rightarrow> (case branch of
       [item] \<Rightarrow> (case (tiKey item, tiValue item) of
           (AnyString k, AnyString v) \<Rightarrow> Inr (k = ''data'')
         | _ \<Rightarrow> Inr False)
     | _ \<Rightarrow> Inr False))"

definition sopsUserErr :: "('v, 'm, 'r, 'k, 'i) sops_lib \<Rightarrow> string \<Rightarrow> error \<Rightarrow> error" where
  "sopsUserErr lib msg err =
     (let err = (case slUserError lib err of Some u \<Rightarrow> Errorf u | None \<Rightarrow> err) in Wrap err msg)"

text \<open>A call of the library whose error, if any, is turned into one for the user.\<close>

fun user_call :: "('v, 'm, 'r, 'k, 'i) sops_lib \<Rightarrow> string \<Rightarrow> 'x result \<Rightarrow> 'x result" where
  "user_call lib msg (Inr x) = Inr x"
| "user_call lib msg (Inl (Err err)) = Inl (Err (sopsUserErr lib msg err))"
| "user_call lib msg (Inl (Panic r)) = Inl (Panic r)"

definition load_message :: "Format \<Rightarrow> string" where
  "load_message inputFormat = ''failed to load encrypted '' @ sopsFormatToString inputFormat @ '' data''"

definition emit_message :: "Format \<Rightarrow> Format \<Rightarrow> string" where
  "emit_message inputFormat outputFormat = ''failed to emit encrypted '' @ sopsFormatToString inputFormat @
     '' file as decrypted '' @ sopsFormatToString outputFormat"

text \<open>The body also returns the output format as far as it got, which the deferred function prints.\<close>

definition decrypt_body ::
  "('v, 'm, 'r, 'k, 'i) sops_lib \<Rightarrow> ('k, 'i) SopsDecryptor \<Rightarrow> string \<Rightarrow> Format \<Rightarrow> Format \<Rightarrow> Format \<times> string result" where
  "decrypt_body lib d input inputFormat outputFormat =
     (let before_emit =
        rbind (user_call lib (load_message inputFormat) (slLoadEncryptedFile lib inputFormat input)) (\<lambda>tree.
        let tree = tree\<lparr>trKeyGroups := map offline_first (trKeyGroups tree)\<rparr> in
        rbind (user_call lib ''cannot get sops data key'' (slGetDataKey lib tree (sdKeyServices d))) (\<lambda>metadataKey.
        rbind (user_call lib ''error decrypting sops tree'' (slDecryptTree lib metadataKey tree)) (\<lambda>tree.
        rbind (seemsBinary tree) (\<lambda>bin. Inr (tree, if bin then Binary else outputFormat)))))
      in case before_emit of
           Inl fault \<Rightarrow> (outputFormat, Inl fault)
         | Inr (tree, format) \<Rightarrow>
           (format, user_call lib (emit_message inputFormat format) (slEmitPlainFile lib format (trBranches tree))))"

definition SopsDecryptWithFormat ::
  "('v, 'm, 'r, 'k, 'i) sops_lib \<Rightarrow> ('k, 'i) SopsDecryptor \<Rightarrow> string \<Rightarrow> Format \<Rightarrow> Format \<Rightarrow> error + string" where
  "SopsDecryptWithFormat lib d input inputFormat outputFormat =
     (case decrypt_body lib d input inputFormat outputFormat of
        (_, Inr out) \<Rightarrow> Inr out
      | (_, Inl (Err err)) \<Rightarrow> Inl err
      | (format, Inl (Panic r)) \<Rightarrow> Inl (Errorf (emit_message inputFormat format @ '': '' @ r)))"

definition Decrypt ::
  "('v, 'm, 'r, 'k, 'i) sops_lib \<Rightarrow> (Format \<Rightarrow> nat) \<Rightarrow> ('k, 'i) SopsDecryptor \<Rightarrow> string \<Rightarrow> string \<Rightarrow> error + string" where
  "Decrypt lib rank d input path =
     (let inputFormat = detectFormatFromMarkerBytes rank input in
      if inputFormat = unsupportedFormat then Inr input
      else SopsDecryptWithFormat lib d input inputFormat (slFormatForPath lib path))"

section \<open>Detection\<close>

definition markers :: "string \<Rightarrow> Format set" where
  "markers b = {k. \<exists>v. (k, v) \<in> set sopsFormatToMarkerBytes \<and> Contains b v}"

definition has_marker :: "string \<Rightarrow> bool" where
  "has_marker b \<longleftrightarrow> list_ex (\<lambda>(k, v). Contains b v) sopsFormatToMarkerBytes"

lemma has_marker_iff: "has_marker b \<longleftrightarrow> markers b \<noteq> {}"
  by (auto simp: has_marker_def markers_def list_ex_iff)

lemma markers_filter: "markers b = set (map fst (filter (\<lambda>(k, v). Contains b v) sopsFormatToMarkerBytes))"
  by (force simp: markers_def)

lemma map_order_set [simp]: "set (map_order rank m) = set m"
  by (simp add: map_order_def)

lemma unsupported_no_marker: "unsupportedFormat \<notin> markers b" "Binary \<notin> markers b"
  by (auto simp: markers_def sopsFormatToMarkerBytes_def)

lemma first_marker_cases:
  "first_marker b m = unsupportedFormat \<and> (\<forall>(k, v) \<in> set m. Contains b v \<longrightarrow> k = unsupportedFormat) \<or>
     (\<exists>v. (first_marker b m, v) \<in> set m \<and> Contains b v)"
  by (induction b m rule: first_marker.induct) auto

lemma detect_cases:
  "detectFormatFromMarkerBytes rank b = unsupportedFormat \<and> markers b = {} \<or>
     detectFormatFromMarkerBytes rank b \<in> markers b"
  using first_marker_cases [of b "map_order rank sopsFormatToMarkerBytes"] unsupported_no_marker(1) [of b]
  by (auto simp: detectFormatFromMarkerBytes_def markers_def)

section \<open>Sorting the keys\<close>

lemma mset_insert_stable [simp]: "mset (insert_stable lt x xs) = add_mset x (mset xs)"
  by (induction xs) auto

lemma insert_stable_filter:
  "insert_stable (\<lambda>a b. P a \<and> \<not> P b) x (filter P xs @ filter (\<lambda>x. \<not> P x) xs) =
     (if P x then x # filter P xs @ filter (\<lambda>x. \<not> P x) xs
      else filter P xs @ x # filter (\<lambda>x. \<not> P x) xs)"
proof -
  have ins: "insert_stable (\<lambda>a b. P a \<and> \<not> P b) x (ys @ zs) =
      (if P x then x # ys @ zs else ys @ x # zs)" if "\<forall>y \<in> set ys. P y" "\<forall>z \<in> set zs. \<not> P z" for ys zs
    using that
  proof (induction ys)
    case Nil
    then show ?case by (cases zs) auto
  qed auto
  show ?thesis by (rule ins) auto
qed

lemma SliceStable_partition:
  "SliceStable (\<lambda>a b. P a \<and> \<not> P b) xs = filter P xs @ filter (\<lambda>x. \<not> P x) xs"
proof (induction xs)
  case (Cons x xs)
  then show ?case by (simp add: SliceStable_def insert_stable_filter)
qed (simp add: SliceStable_def)

section \<open>Import and cleanup\<close>

text \<open>The import of a PGP key works in the key ring's home directory only.\<close>

definition import_confined :: "'i import_lib \<Rightarrow> bool" where
  "import_confined lib \<longleftrightarrow>
     (\<forall>fs home content. wf_fs fs \<longrightarrow> fs_get fs (resolve home) = Some DirEntry \<longrightarrow>
        works_below (resolve home) fs (fst (ilGnuPGImport lib fs home content)))"

lemma import_keys_works:
  assumes "import_confined lib" "wf_fs fs" "fs_get fs (resolve home) = Some DirEntry"
  shows "works_below (resolve home) fs (fst (import_keys lib home fs ids keys))"
  using assms(2,3)
proof (induction keys arbitrary: fs ids)
  case (Cons key keys)
  obtain name content where key: "key = (name, content)" by (cases key)
  show ?case
  proof (cases "Ext name = decryptionPGPExt")
    case True
    obtain fs' r where i: "ilGnuPGImport lib fs home content = (fs', r)" by (meson surj_pair)
    have w: "works_below (resolve home) fs fs'"
      using assms(1) Cons.prems i unfolding import_confined_def by (metis fst_conv)
    then have "works_below (resolve home) fs' (fst (import_keys lib home fs' ids keys))" for ids
      using Cons.IH by (simp add: works_below_def)
    with w works_below_trans [OF w] key True i show ?thesis by (cases r) simp_all
  next
    case False
    with key Cons show ?thesis by (auto simp: works_below_refl split: sum.splits)
  qed
qed (simp add: works_below_refl)

text \<open>What the constructor leaves in the file system: nothing, or the home directory of the key ring.\<close>

lemma NewSopsDecryptor_works:
  assumes "import_confined lib" "wf_fs fs" "NewSopsDecryptor lib srv fs keys = (fs', r)"
  shows "wf_fs fs'"
    and "\<And>e q. r = Inl e \<Longrightarrow> fs_get fs' q = fs_get fs q"
    and "\<And>d. r = Inr d \<Longrightarrow> \<exists>fs1. MkdirTemp fs ''gpg-'' = (fs1, Inr (sdGnuPGHome d)) \<and>
      works_below (resolve (sdGnuPGHome d)) fs1 fs' \<and> sdGnuPGHome d \<noteq> []"
proof -
  have none: "fs' = fs \<and> (\<exists>e. r = Inl e)" if t: "MkdirTemp fs ''gpg-'' = (fs1, Inl err)" for fs1 err
  proof -
    have "fs1 = fs" using t by (auto simp: MkdirTemp_def Let_def split: if_splits option.splits)
    with t assms(3) show ?thesis by (auto simp: NewSopsDecryptor_def)
  qed
  have "wf_fs fs' \<and> (\<forall>e q. r = Inl e \<longrightarrow> fs_get fs' q = fs_get fs q) \<and>
      (\<forall>d. r = Inr d \<longrightarrow> sdGnuPGHome d = home \<and> works_below (resolve home) fs1 fs' \<and> home \<noteq> [])"
    if t: "MkdirTemp fs ''gpg-'' = (fs1, Inr home)" for fs1 home
  proof -
    obtain fs2 i where i: "import_keys lib home fs1 [] keys = (fs2, i)" by (meson surj_pair)
    from MkdirTemp_works [OF assms(2) t]
    have h: "wf_fs fs1" "fs_get fs1 (resolve home) = Some DirEntry" "resolve home \<noteq> []" "home \<noteq> []"
      by (metis, metis, metis, metis abs_path_def list.distinct(1))
    have w: "works_below (resolve home) fs1 fs2"
      using import_keys_works [OF assms(1) h(1,2), of "[]" keys] i by simp
    show ?thesis
    proof (cases i)
      case (Inl e)
      with t i assms(3) have r: "fs' = RemoveAll fs2 home" "r = Inl e" by (auto simp: NewSopsDecryptor_def)
      moreover have "wf_fs (RemoveAll fs2 home)" using w h(3) wf_RemoveAll by (simp add: works_below_def)
      ultimately show ?thesis using temp_dir_no_trace [OF assms(2) t w] by simp
    next
      case (Inr ids)
      with t i assms(3) have "fs' = fs2" "\<exists>d. r = Inr d \<and> sdGnuPGHome d = home"
        by (auto simp: NewSopsDecryptor_def Let_def)
      with w h(4) show ?thesis by (auto simp: works_below_def)
    qed
  qed
  then show "wf_fs fs'" "\<And>e q. r = Inl e \<Longrightarrow> fs_get fs' q = fs_get fs q"
    "\<And>d. r = Inr d \<Longrightarrow> \<exists>fs1. MkdirTemp fs ''gpg-'' = (fs1, Inr (sdGnuPGHome d)) \<and>
      works_below (resolve (sdGnuPGHome d)) fs1 fs' \<and> sdGnuPGHome d \<noteq> []"
    using none assms(2) by (cases "MkdirTemp fs ''gpg-''"; cases "snd (MkdirTemp fs ''gpg-'')"; fastforce)+
qed

section \<open>Successful decryption\<close>

lemma user_call_Inr [result_iff]: "user_call lib m r = Inr x \<longleftrightarrow> r = Inr x"
  by (cases "(lib, m, r)" rule: user_call.cases) auto

lemma SopsDecryptWithFormat_Inr:
  "SopsDecryptWithFormat lib d input f g = Inr out \<longleftrightarrow> snd (decrypt_body lib d input f g) = Inr out"
  by (cases "decrypt_body lib d input f g") (auto simp: SopsDecryptWithFormat_def split: sum.splits fault.splits)

lemma decrypt_body_Inr:
  "snd (decrypt_body lib d input f g) = Inr out \<longleftrightarrow>
     (\<exists>tree key tree' bin. slLoadEncryptedFile lib f input = Inr tree \<and>
        slGetDataKey lib (tree\<lparr>trKeyGroups := map offline_first (trKeyGroups tree)\<rparr>) (sdKeyServices d) = Inr key \<and>
        slDecryptTree lib key (tree\<lparr>trKeyGroups := map offline_first (trKeyGroups tree)\<rparr>) = Inr tree' \<and>
        seemsBinary tree' = Inr bin \<and>
        slEmitPlainFile lib (if bin then Binary else g) (trBranches tree') = Inr out)"
proof -
  have case_Inr: "snd (case x of Inl fault \<Rightarrow> (g, Inl fault) | Inr (t, u) \<Rightarrow> (u, h t u)) = Inr out \<longleftrightarrow>
      (\<exists>t u. x = Inr (t, u) \<and> h t u = Inr out)" for x and h :: "_ \<Rightarrow> Format \<Rightarrow> string result"
    by (cases x) auto
  show ?thesis
    unfolding decrypt_body_def Let_def case_Inr by (simp only: result_iff sum.inject prod.inject) blast
qed

section \<open>Decryptors\<close>

text \<open>
  What the callers of a decryptor rely on: it hands back files without a marker as they are.
\<close>

locale file_decryptor =
  fixes dec :: "string \<Rightarrow> string \<Rightarrow> error + string"
  assumes unmarked: "\<not> has_marker b \<Longrightarrow> dec b p = Inr b"
begin

lemma changed_has_marker: "dec b p = Inr c \<Longrightarrow> c \<noteq> b \<Longrightarrow> has_marker b"
  using unmarked [of b p] by (metis Inr_inject)

lemma failed_has_marker: "dec b p = Inl e \<Longrightarrow> has_marker b"
  using unmarked [of b p] by (metis sum.simps(4))

end

interpretation sops: file_decryptor "Decrypt lib rank d" for lib rank d
proof
  fix b p
  assume "\<not> has_marker b"
  then have "detectFormatFromMarkerBytes rank b = unsupportedFormat"
    using detect_cases [of rank b] by (auto simp: has_marker_iff)
  then show "Decrypt lib rank d b p = Inr b" by (simp add: Decrypt_def)
qed

section \<open>Properties\<close>

text \<open>
  The format of a file is the one whose marker it contains: a file without marker is not taken
  for encrypted, and with markers of one format only, the detection does not depend on the order in which
  Go visits the marker table.
\<close>

theorem detect_unique_marker:
  "(detectFormatFromMarkerBytes rank b = unsupportedFormat \<longleftrightarrow> markers b = {}) \<and>
   (markers b = {f} \<longrightarrow> detectFormatFromMarkerBytes rank b = f)"
  using detect_cases [of rank b] unsupported_no_marker(1) [of b] by auto

text \<open>
  A file that carries the markers of two formats is read in either of them, depending on the
  iteration order of a Go map: the detection is not a function of the file.
\<close>

theorem detect_depends_on_map_order:
  "\<exists>b rank rank'. detectFormatFromMarkerBytes rank b = Ini \<and> detectFormatFromMarkerBytes rank' b = Yaml"
proof (intro exI conjI)
  let ?b = "''[sops] mac: ENC[''"
  show "detectFormatFromMarkerBytes (\<lambda>f. case f of Ini \<Rightarrow> 0 | Yaml \<Rightarrow> 2 | _ \<Rightarrow> 1) ?b = Ini"
    by (simp add: detectFormatFromMarkerBytes_def map_order_def sopsFormatToMarkerBytes_def HasPrefix_def)
  show "detectFormatFromMarkerBytes (\<lambda>f. case f of Ini \<Rightarrow> 2 | Yaml \<Rightarrow> 0 | _ \<Rightarrow> 1) ?b = Yaml"
    by (simp add: detectFormatFromMarkerBytes_def map_order_def sopsFormatToMarkerBytes_def HasPrefix_def)
qed

text \<open>
  Keys that can be used offline are tried first: sorting a key group puts the PGP and age keys
  in front of the others and keeps the order within both parts.
\<close>

theorem offline_first_partition:
  "offline_first ks = filter isOfflineMethod ks @ filter (\<lambda>k. \<not> isOfflineMethod k) ks"
  by (simp add: offline_first_def SliceStable_partition)

text \<open>
  \<open>Decrypt\<close> changes nothing but encrypted files, and its result for an encrypted file is either
  what the library emits for a tree it loaded, got the data key for (with the offline keys first) and
  decrypted, or an error; a panic of the library comes back as an error naming both formats.
\<close>

theorem Decrypt_result:
  "Decrypt lib rank d input path = Inr out \<longleftrightarrow>
     (markers input = {} \<and> out = input) \<or>
     (\<exists>tree key tree' bin.
        detectFormatFromMarkerBytes rank input \<in> markers input \<and>
        slLoadEncryptedFile lib (detectFormatFromMarkerBytes rank input) input = Inr tree \<and>
        slGetDataKey lib (tree\<lparr>trKeyGroups := map offline_first (trKeyGroups tree)\<rparr>) (sdKeyServices d) = Inr key \<and>
        slDecryptTree lib key (tree\<lparr>trKeyGroups := map offline_first (trKeyGroups tree)\<rparr>) = Inr tree' \<and>
        seemsBinary tree' = Inr bin \<and>
        slEmitPlainFile lib (if bin then Binary else slFormatForPath lib path) (trBranches tree') = Inr out)"
proof -
  let ?f = "detectFormatFromMarkerBytes rank input"
  note detect = detect_cases [of rank input] unsupported_no_marker(1) [of input]
  have "Decrypt lib rank d input path = Inr out \<longleftrightarrow> markers input = {} \<and> out = input \<or>
      ?f \<in> markers input \<and> snd (decrypt_body lib d input ?f (slFormatForPath lib path)) = Inr out"
    using detect by (auto simp: Decrypt_def Let_def SopsDecryptWithFormat_Inr)
  then show ?thesis unfolding decrypt_body_Inr by blast
qed

text \<open>
  No panic escapes the decryptor: when the library panics before or while emitting, or returns a
  tree without branches, the caller gets an error that names the panic, and an ordinary error otherwise.
\<close>

theorem Decrypt_recovers:
  assumes "snd (decrypt_body lib d input f g) = Inl (Panic r)"
  shows "\<exists>format. SopsDecryptWithFormat lib d input f g = Inl (Errorf (emit_message f format @ '': '' @ r))"
  using assms by (cases "decrypt_body lib d input f g") (auto simp: SopsDecryptWithFormat_def)

text \<open>
  The key service decrypts what it encrypted for a PGP key or an age key, as far as the underlying
  implementations do, with the key ring and the identities it was created with.
\<close>

theorem key_service_roundtrip:
  assumes "\<And>k k' p. pgEncrypt lib p k = Inr k' \<Longrightarrow> pgDecrypt lib (pgSetEncryptedKey lib (pgEncryptedKey lib k') k) = Inr p"
    and "\<And>r k' p. agEncrypt lib p (agForRecipient lib r) = Inr k' \<Longrightarrow>
      agDecrypt lib (agSetEncryptedKey lib (agEncryptedKey lib k')
        (agApplyIdentities lib (svAgeIdentities ks) (agForRecipient lib r))) = Inr p"
    and "erKey req = Some key" "keyType key = Some (Key_PgpKey n) \<or> keyType key = Some (Key_AgeKey n)"
    and "Server_Encrypt lib ks req = Inr c"
  shows "Server_Decrypt lib ks \<lparr>drKey = Some key, drCiphertext = c\<rparr> = Inr (erPlaintext req)"
  using assms(3-5)
  by (auto simp: Server_Encrypt_def Server_Decrypt_def encryptWithPgp_def decryptWithPgp_def
      encryptWithAge_def decryptWithAge_def result_iff intro: assms(1,2))

lemma NewServer_default: "svDefaultServer (NewServer srv opts :: ('a, 'b) Server) = Some srv"
proof -
  have "svDefaultServer (ApplyToServer opt s) = svDefaultServer s" for opt and s :: "('a, 'b) Server"
    by (cases opt) simp_all
  then have "svDefaultServer (fold ApplyToServer opts s) = svDefaultServer s" for s :: "('a, 'b) Server"
    by (induction opts arbitrary: s) simp_all
  then show ?thesis by (simp add: NewServer_def Let_def)
qed

text \<open>
  A server built by \<open>NewServer\<close> always has a default server, so that a request with any key never
  crashes it by a nil pointer; keys of other kinds get the default server's answer.
\<close>

theorem NewServer_delegates:
  assumes "keyType key = Some (Key_Other k)"
  shows "Server_Decrypt lib (NewServer srv opts) \<lparr>drKey = Some key, drCiphertext = c\<rparr> =
      kssDecrypt srv \<lparr>drKey = Some key, drCiphertext = c\<rparr>"
    and "Server_Encrypt lib (NewServer srv opts) \<lparr>erKey = Some key, erPlaintext = c\<rparr> =
      kssEncrypt srv \<lparr>erKey = Some key, erPlaintext = c\<rparr>"
proof -
  from NewServer_default [of srv opts] assms show "Server_Decrypt lib (NewServer srv opts) \<lparr>drKey = Some key, drCiphertext = c\<rparr> =
      kssDecrypt srv \<lparr>drKey = Some key, drCiphertext = c\<rparr>"
    "Server_Encrypt lib (NewServer srv opts) \<lparr>erKey = Some key, erPlaintext = c\<rparr> =
      kssEncrypt srv \<lparr>erKey = Some key, erPlaintext = c\<rparr>"
    by (simp_all add: Server_Decrypt_def Server_Encrypt_def)
qed

text \<open>
  C35. No decryptor leaves private keys behind: when the constructor fails, and when \<open>Cleanup\<close> has run
  on the decryptor it returned, every path of the file system is as it was before the call.
\<close>

theorem decryptor_leaves_no_keys:
  assumes "import_confined lib" "wf_fs fs" "NewSopsDecryptor lib srv fs keys = (fs', r)"
  shows "fs_get (case r of Inl e \<Rightarrow> fs' | Inr d \<Rightarrow> Cleanup d fs') q = fs_get fs q"
proof (cases r)
  case (Inl e)
  with NewSopsDecryptor_works(2) [OF assms] show ?thesis by simp
next
  case (Inr d)
  from NewSopsDecryptor_works(3) [OF assms Inr] temp_dir_no_trace [OF assms(2)] Inr
  show ?thesis by (auto simp: Cleanup_def)
qed

end
