(* ===== verification/Downloads.thy ===== *)
theory Downloads
  imports SourceRef Decrypt
begin

text \<open>
  The part of \<open>internal/generator/factory.go\<close> that works on the temporary directory: writing the files
  of a blueprint version, unpacking the archive of another source, and decrypting the files of a
  directory in place. The HTTP server is a function from URLs to replies.
\<close>

section \<open>Downloaded archives\<close>

text \<open>
  A download: the status of the reply and its body, an error of the gzip reader or the entries of the
  tar archive up to an error of the tar reader. Each entry has what was copied of its content and
  the error, if any, that ended the copy.
\<close>

datatype Typeflag = TypeDir | TypeReg | TypeOther nat

record tar_header =
  hdName :: string
  hdTypeflag :: Typeflag

datatype tar_item = TarEntry tar_header string "error option" | TarError error

record download =
  dlStatusCode :: int
  dlStatus :: string
  dlBody :: "error + tar_item list"

section \<open>Downloads\<close>

text \<open>The regular expression of blueprint URLs: three non-empty parts without slashes.\<close>

definition blueprint_scheme :: string where "blueprint_scheme = ''blueprint://''"

definition match_blueprint_url :: "string \<Rightarrow> (string \<times> string \<times> string) option" where
  "match_blueprint_url url =
     (if HasPrefix url blueprint_scheme then
        (case split_on slash (drop (length blueprint_scheme) url) of
           [a, b, c] \<Rightarrow> if a \<noteq> [] \<and> b \<noteq> [] \<and> c \<noteq> [] then Some (a, b, c) else None
         | _ \<Rightarrow> None)
      else None)"

fun write_files :: "file_sys \<Rightarrow> string \<Rightarrow> (string \<times> string) list \<Rightarrow> file_sys \<times> error option" where
  "write_files fs targetPath [] = (fs, None)"
| "write_files fs targetPath ((path, content) # files) =
     (if path \<noteq> Clean path \<or> Contains path dotdot then
        (fs, Some (Errorf (''invalid file path in blueprint: '' @ path)))
      else
        (case MkdirAll fs (Join [targetPath, filepath_Dir path]) of
           (fs1, Some err) \<Rightarrow> (fs1, Some (os_err err))
         | (fs1, None) \<Rightarrow>
           (case os_WriteFile fs1 (Join [targetPath, path]) content of
              (fs2, Some err) \<Rightarrow> (fs2, Some (os_err err))
            | (fs2, None) \<Rightarrow> write_files fs2 targetPath files)))"

definition downloadBlueprint ::
  "'s client \<Rightarrow> 's \<Rightarrow> file_sys \<Rightarrow> string \<Rightarrow> string \<Rightarrow> file_sys \<times> error option" where
  "downloadBlueprint clnt s fs url targetPath = (case match_blueprint_url url of
     Some (blueprintNamespace, blueprintName, blueprintDigest) \<Rightarrow>
       (case clGetVersion clnt s \<lparr>nnNamespace = blueprintNamespace,
               nnName = blueprintName @ ''--'' @ blueprintDigest\<rparr> of
          Inl err \<Rightarrow> (fs, Some err)
        | Inr blueprintVersion \<Rightarrow> write_files fs targetPath (bsFiles (bvsSpec (bvSpec blueprintVersion))))
   | None \<Rightarrow> (fs, Some (Errorf (''invalid blueprint URL: '' @ url))))"

text \<open>\<open>os.Create\<close> and the copy: what was copied stays in the file when the copy fails.\<close>

definition copy_file :: "file_sys \<Rightarrow> string \<Rightarrow> string \<Rightarrow> error option \<Rightarrow> file_sys \<times> error option" where
  "copy_file fs fullPath content copy_error = (case write_at fs (resolve fullPath) content of
     (fs', Some err) \<Rightarrow> (fs', Some (os_err err))
   | (fs', None) \<Rightarrow> (fs', copy_error))"

definition extract_entry ::
  "file_sys \<Rightarrow> string \<Rightarrow> tar_header \<Rightarrow> string \<Rightarrow> error option \<Rightarrow> file_sys \<times> error option" where
  "extract_entry fs targetPath header content copy_error =
     (if hdName header = dot then (fs, None)
      else if IsAbs (hdName header) then
        (fs, Some (Errorf (''archive must not contain entries with absolute paths ('' @ hdName header @ '')'')))
      else
        let path = Clean (hdName header);
            fullPath = Join [targetPath, path]
        in case hdTypeflag header of
             TypeDir \<Rightarrow> (case MkdirAll fs fullPath of (fs', e) \<Rightarrow> (fs', map_option os_err e))
           | TypeReg \<Rightarrow>
             (case MkdirAll fs (filepath_Dir fullPath) of
                (fs', Some err) \<Rightarrow> (fs', Some (os_err err))
              | (fs', None) \<Rightarrow> copy_file fs' fullPath content copy_error)
           | TypeOther t \<Rightarrow> (fs, Some (Errorf (''encountered unknown tar type while downloading URL: '' @
               nat_str t @ '' in '' @ path))))"

fun extract_entries :: "file_sys \<Rightarrow> string \<Rightarrow> tar_item list \<Rightarrow> file_sys \<times> error option" where
  "extract_entries fs targetPath [] = (fs, None)"
| "extract_entries fs targetPath (TarError err # items) = (fs, Some err)"
| "extract_entries fs targetPath (TarEntry header content copy_error # items) =
     (case extract_entry fs targetPath header content copy_error of
        (fs', Some err) \<Rightarrow> (fs', Some err)
      | (fs', None) \<Rightarrow> extract_entries fs' targetPath items)"

definition downloadArchive ::
  "(string \<Rightarrow> error + download) \<Rightarrow> file_sys \<Rightarrow> string \<Rightarrow> string \<Rightarrow> file_sys \<times> error option" where
  "downloadArchive get fs url targetPath = (case get url of
     Inl err \<Rightarrow> (fs, Some err)
   | Inr resp \<Rightarrow>
     if dlStatusCode resp \<noteq> 200 then
       (fs, Some (Errorf (''error downloading '' @ url @ '': '' @ dlStatus resp)))
     else (case dlBody resp of
         Inl err \<Rightarrow> (fs, Some err)
       | Inr items \<Rightarrow> extract_entries fs targetPath items))"

section \<open>Decrypting a directory\<close>

definition visit_file ::
  "(string \<Rightarrow> string \<Rightarrow> error + string) \<Rightarrow> abspath \<Rightarrow> file_sys \<Rightarrow> string \<Rightarrow> file_sys \<times> error option" where
  "visit_file dec root fs p =
     (if fs_get fs (root @ rel_names p) = Some DirEntry then (fs, None)
      else (case root_ReadFile fs root p of
          Inl err \<Rightarrow> (fs, Some (os_err err))
        | Inr oldData \<Rightarrow>
          (case dec oldData p of
             Inl err \<Rightarrow> (fs, Some err)
           | Inr newData \<Rightarrow>
             if newData \<noteq> oldData then
               (case root_WriteFile fs root p newData of (fs', e) \<Rightarrow> (fs', map_option os_err e))
             else (fs, None))))"

fun visit_files ::
  "(string \<Rightarrow> string \<Rightarrow> error + string) \<Rightarrow> abspath \<Rightarrow> file_sys \<Rightarrow> string list \<Rightarrow> file_sys \<times> error option" where
  "visit_files dec root fs [] = (fs, None)"
| "visit_files dec root fs (p # ps) = (case visit_file dec root fs p of
     (fs', Some err) \<Rightarrow> (fs', Some err)
   | (fs', None) \<Rightarrow> visit_files dec root fs' ps)"

definition decryptDirectory ::
  "file_sys \<Rightarrow> abspath \<Rightarrow> string \<Rightarrow> (string \<Rightarrow> string \<Rightarrow> error + string) option \<Rightarrow> file_sys \<times> error option" where
  "decryptDirectory fs root path decryptor = (case decryptor of
     None \<Rightarrow> (fs, None)
   | Some dec \<Rightarrow> (case walk_dir fs root path of
       Inl err \<Rightarrow> (fs, Some (os_err err))
     | Inr names \<Rightarrow> visit_files dec root fs names))"

section \<open>URLs\<close>

lemma match_blueprint_url_url:
  assumes "slash \<notin> set ns" "slash \<notin> set n" "slash \<notin> set d" "ns \<noteq> []" "n \<noteq> []" "d \<noteq> []"
  shows "match_blueprint_url (blueprint_url ns n d) = Some (ns, n, d)"
proof -
  have "split_on slash (ns @ slash # n @ slash # d) = [ns, n, d]"
    using assms by (simp add: split_on_append split_on_single)
  with assms show ?thesis
    by (simp add: match_blueprint_url_def blueprint_url_def blueprint_scheme_def HasPrefix_def)
qed

lemma match_blueprint_url_shape:
  assumes "match_blueprint_url url = Some (ns, n, d)"
  shows "url = blueprint_url ns n d" "ns \<noteq> []" "n \<noteq> []" "d \<noteq> []"
    "slash \<notin> set ns" "slash \<notin> set n" "slash \<notin> set d"
proof -
  let ?rest = "drop (length blueprint_scheme) url"
  have p: "HasPrefix url blueprint_scheme" and sp: "split_on slash ?rest = [ns, n, d]"
    and ne: "ns \<noteq> []" "n \<noteq> []" "d \<noteq> []"
    using assms by (auto simp: match_blueprint_url_def split: if_splits list.splits)
  have "url = blueprint_scheme @ ?rest"
    using p append_take_drop_id [of "length blueprint_scheme" url] by (simp add: HasPrefix_def)
  moreover have "?rest = join_with [slash] [ns, n, d]" using join_with_split [of slash ?rest] sp by simp
  ultimately show "url = blueprint_url ns n d" by (simp add: blueprint_url_def blueprint_scheme_def)
  show "ns \<noteq> []" "n \<noteq> []" "d \<noteq> []" by (fact ne)+
  show "slash \<notin> set ns" "slash \<notin> set n" "slash \<notin> set d"
    using split_on_no_sep [of _ slash ?rest] sp by simp_all
qed

section \<open>Files of a blueprint\<close>

definition path_ok :: "string \<Rightarrow> bool" where
  "path_ok path \<longleftrightarrow> path = Clean path \<and> \<not> Contains path dotdot"

text \<open>Where a file of a blueprint goes, below the target directory \<open>d\<close>.\<close>

definition put_files :: "abspath \<Rightarrow> (string \<times> string) list \<Rightarrow> (abspath \<rightharpoonup> string) \<Rightarrow> (abspath \<rightharpoonup> string)" where
  "put_files d files m = fold (\<lambda>(path, content) m. m(d @ rel_names path \<mapsto> content)) files m"

text \<open>A target directory: absolute, and there.\<close>

definition target_dir :: "file_sys \<Rightarrow> string \<Rightarrow> bool" where
  "target_dir fs target \<longleftrightarrow> wf_fs fs \<and> IsAbs target \<and> resolve target \<noteq> [] \<and>
     fs_get fs (resolve target) = Some DirEntry"

lemma target_dir_works: "target_dir fs target \<Longrightarrow> works_below (resolve target) fs fs' \<Longrightarrow> target_dir fs' target"
  by (simp add: target_dir_def works_below_def)

lemma target_dir_refl: "target_dir fs target \<Longrightarrow> works_below (resolve target) fs fs"
  by (simp add: target_dir_def works_below_refl)

lemma MkdirAll_in_target:
  assumes "target_dir fs target" "stays_below path" "MkdirAll fs (Join [target, path]) = (fs', r)"
  shows "works_below (resolve target) fs fs'" "file_at fs' = file_at fs"
    "r = None \<Longrightarrow> fs_get fs' (resolve target @ rel_names path) = Some DirEntry"
proof -
  have j: "resolve (Join [target, path]) = resolve target @ rel_names path"
    using assms(1,2) Join_below by (simp add: target_dir_def)
  show "works_below (resolve target) fs fs'"
    "r = None \<Longrightarrow> fs_get fs' (resolve target @ rel_names path) = Some DirEntry"
    using MkdirAll_works [OF _ _ _ j assms(3)] assms(1) by (simp_all add: target_dir_def)
  show "file_at fs' = file_at fs" using assms(3) by (rule MkdirAll_files)
qed

lemma WriteFile_in_target:
  assumes "target_dir fs target" "stays_below path" "write_at fs (resolve (Join [target, path])) c = (fs', r)"
  shows "works_below (resolve target) fs fs'"
    "r = None \<Longrightarrow> file_at fs' = (file_at fs)(resolve target @ rel_names path \<mapsto> c)"
proof -
  have j: "resolve (Join [target, path]) = resolve target @ rel_names path"
    using assms(1,2) Join_below by (simp add: target_dir_def)
  show "works_below (resolve target) fs fs'"
    using write_at_works(1) [of fs "resolve target" "rel_names path" c fs' r] assms(1,3) j
    by (simp add: target_dir_def)
  show "r = None \<Longrightarrow> file_at fs' = (file_at fs)(resolve target @ rel_names path \<mapsto> c)"
    using write_at_files [of fs "resolve target" "rel_names path" c fs'] assms(1,3) j
    by (simp add: target_dir_def)
qed

lemma write_files_works:
  assumes "target_dir fs target" "write_files fs target files = (fs', r)"
  shows "works_below (resolve target) fs fs' \<and>
    (r = None \<longrightarrow> file_at fs' = put_files (resolve target) files (file_at fs) \<and> (\<forall>(p, c) \<in> set files. path_ok p))"
  using assms
proof (induction files arbitrary: fs)
  case Nil
  then show ?case by (simp add: put_files_def target_dir_refl)
next
  case (Cons f files)
  obtain path content where f: "f = (path, content)" by (cases f)
  show ?case
  proof (cases "path_ok path")
    case False
    with f Cons.prems have "fs' = fs" "r \<noteq> None" by (auto simp: path_ok_def)
    then show ?thesis using target_dir_refl [OF Cons.prems(1)] by blast
  next
    case True
    then have below: "stays_below (filepath_Dir path)" "stays_below path"
      by (simp_all add: path_ok_def filepath_Dir_below no_dotdot_stays_below)
    obtain fs1 r1 where m: "MkdirAll fs (Join [target, filepath_Dir path]) = (fs1, r1)" by (meson surj_pair)
    note w1 = MkdirAll_in_target [OF Cons.prems(1) below(1) m]
    obtain fs2 r2 where w: "write_at fs1 (resolve (Join [target, path])) content = (fs2, r2)" by (meson surj_pair)
    note w2 = WriteFile_in_target [OF target_dir_works [OF Cons.prems(1) w1(1)] below(2) w]
    have w12: "works_below (resolve target) fs fs2" using w1(1) w2(1) by (rule works_below_trans)
    have run: "write_files fs target (f # files) =
        (case r1 of Some e \<Rightarrow> (fs1, Some (os_err e))
         | None \<Rightarrow> (case r2 of Some e \<Rightarrow> (fs2, Some (os_err e)) | None \<Rightarrow> write_files fs2 target files))"
      using True by (simp add: f path_ok_def m os_WriteFile_def w split: option.splits)
    show ?thesis
    proof (cases "r1 = None \<and> r2 = None")
      case False
      with run Cons.prems(2) have "r \<noteq> None" "fs' = fs1 \<or> fs' = fs2" by (auto split: option.splits)
      with w1(1) w12 show ?thesis by auto
    next
      case both: True
      with run Cons.prems(2) have "write_files fs2 target files = (fs', r)" by simp
      from Cons.IH [OF target_dir_works [OF Cons.prems(1) w12] this]
      have ih: "works_below (resolve target) fs2 fs'"
        "r = None \<longrightarrow> file_at fs' = put_files (resolve target) files (file_at fs2) \<and> (\<forall>(p, c) \<in> set files. path_ok p)"
        by simp_all
      from w12 ih(1) have "works_below (resolve target) fs fs'" by (rule works_below_trans)
      with ih(2) both True w1(2) w2(2) show ?thesis by (simp add: put_files_def f)
    qed
  qed
qed

section \<open>Entries of an archive\<close>

text \<open>The files an archive brings, entries named \<open>.\<close> and directories left out.\<close>

fun archive_files :: "tar_item list \<Rightarrow> (string \<times> string) list" where
  "archive_files [] = []"
| "archive_files (TarEntry header content copy_error # items) =
     (if hdTypeflag header = TypeReg \<and> hdName header \<noteq> dot then [(hdName header, content)] else []) @
     archive_files items"
| "archive_files (TarError err # items) = archive_files items"

definition entries_below :: "tar_item list \<Rightarrow> bool" where
  "entries_below items \<longleftrightarrow>
     list_all (\<lambda>i. case i of TarEntry h _ _ \<Rightarrow> stays_below (hdName h) | TarError _ \<Rightarrow> True) items"

text \<open>The parent directory and the file of an entry are made below the target, or the entry is the target itself.\<close>

lemma extract_regular_works:
  assumes "target_dir fs target" "stays_below (hdName h)" "\<not> (hdName h = dot \<or> IsAbs (hdName h))" "hdTypeflag h = TypeReg"
    and "extract_entry fs target h content cerr = (fs', r)"
  shows "works_below (resolve target) fs fs' \<and>
    (r = None \<longrightarrow> file_at fs' = (file_at fs)(resolve target @ rel_names (hdName h) \<mapsto> content))"
proof -
  let ?path = "Clean (hdName h)"
  let ?full = "Join [target, ?path]"
  have below: "stays_below ?path" "rel_names ?path = rel_names (hdName h)"
    using assms(2) by (simp_all add: stays_below_Clean rel_names_Clean)
  have full: "resolve ?full = resolve target @ rel_names (hdName h)"
    using Join_below [of target ?path] assms(1) below by (simp add: target_dir_def)
  obtain fs1 r1 where m: "MkdirAll fs (filepath_Dir ?full) = (fs1, r1)" by (meson surj_pair)
  obtain fs2 r2 where w: "write_at fs1 (resolve ?full) content = (fs2, r2)" by (meson surj_pair)
  have run: "extract_entry fs target h content cerr =
      (case r1 of Some e \<Rightarrow> (fs1, Some (os_err e))
       | None \<Rightarrow> (case r2 of Some e \<Rightarrow> (fs2, Some (os_err e)) | None \<Rightarrow> (fs2, cerr)))"
    using assms(3,4) m w by (auto simp: extract_entry_def Let_def copy_file_def split: option.splits)
  have full_dir: "resolve (filepath_Dir ?full) = butlast (resolve target @ rel_names (hdName h))"
    using Dir_abs [of "resolve ?full"] Join_abs_clean [of target ?path] assms(1,2)
    by (simp add: full target_dir_def rel_names_plain)
  show ?thesis
  proof (cases "rel_names (hdName h) = []")
    case True
    have "fs_get fs (butlast (resolve target)) = Some DirEntry" using assms(1) by (auto simp: target_dir_def wf_fs_def)
    then have "fs1 = fs" using MkdirAll_existing [of fs "filepath_Dir ?full"] m assms(1) full_dir True
      by (simp add: target_dir_def)
    moreover from this have "fs2 = fs \<and> r2 \<noteq> None"
      using write_at_directory [of fs "resolve target" content] w assms(1) full True by (auto simp: target_dir_def)
    ultimately show ?thesis using run assms(5) target_dir_refl [OF assms(1)] by (auto split: option.splits)
  next
    case False
    then have "resolve (filepath_Dir ?full) = resolve target @ butlast (rel_names (hdName h))"
      using full_dir by (simp add: butlast_append)
    with MkdirAll_works(1) [OF _ _ _ this m] assms(1)
    have w1: "works_below (resolve target) fs fs1" by (simp add: target_dir_def)
    note w2 = WriteFile_in_target [OF target_dir_works [OF assms(1) w1] below(1) w]
    show ?thesis
      using run assms(5) w1 works_below_trans [OF w1 w2(1)] w2(2) MkdirAll_files [OF m] below(2)
      by (auto split: option.splits)
  qed
qed

lemma extract_entry_works:
  assumes "target_dir fs target" "stays_below (hdName h)"
    and "extract_entry fs target h content cerr = (fs', r)"
  shows "works_below (resolve target) fs fs' \<and>
    (r = None \<longrightarrow> file_at fs' = put_files (resolve target) (archive_files [TarEntry h content cerr]) (file_at fs))"
proof (cases "hdName h = dot \<or> IsAbs (hdName h)")
  case True
  with assms(1,3) show ?thesis by (auto simp: extract_entry_def target_dir_refl put_files_def split: if_splits)
next
  case rel: False
  show ?thesis
  proof (cases "hdTypeflag h")
    case TypeDir
    let ?path = "Clean (hdName h)"
    have below: "stays_below ?path" using assms(2) by (simp add: stays_below_Clean)
    obtain fs1 r1 where m: "MkdirAll fs (Join [target, ?path]) = (fs1, r1)" by (meson surj_pair)
    with rel TypeDir assms(3) have "fs' = fs1" by (simp add: extract_entry_def Let_def)
    with MkdirAll_in_target(1,2) [OF assms(1) below m] TypeDir show ?thesis by (simp add: put_files_def)
  next
    case TypeReg
    with extract_regular_works [OF assms(1,2) rel TypeReg assms(3)] rel show ?thesis by (simp add: put_files_def)
  next
    case (TypeOther t)
    with rel assms(1,3) show ?thesis by (auto simp: extract_entry_def Let_def target_dir_refl)
  qed
qed

lemma extract_entries_works:
  assumes "target_dir fs target" "entries_below items" "extract_entries fs target items = (fs', r)"
  shows "works_below (resolve target) fs fs' \<and>
    (r = None \<longrightarrow> file_at fs' = put_files (resolve target) (archive_files items) (file_at fs))"
  using assms
proof (induction items arbitrary: fs)
  case Nil
  then show ?case by (simp add: target_dir_refl put_files_def)
next
  case (Cons item items)
  show ?case
  proof (cases item)
    case (TarEntry h content cerr)
    obtain fs1 r1 where e: "extract_entry fs target h content cerr = (fs1, r1)" by (meson surj_pair)
    have "stays_below (hdName h)" using Cons.prems(2) TarEntry by (simp add: entries_below_def)
    from extract_entry_works [OF Cons.prems(1) this e]
    have w1: "works_below (resolve target) fs fs1"
      "r1 = None \<longrightarrow> file_at fs1 = put_files (resolve target) (archive_files [TarEntry h content cerr]) (file_at fs)"
      by simp_all
    show ?thesis
    proof (cases r1)
      case None
      with Cons.prems TarEntry e have "extract_entries fs1 target items = (fs', r)" "entries_below items"
        by (simp_all add: entries_below_def)
      with Cons.IH [OF target_dir_works [OF Cons.prems(1) w1(1)]]
      have ih: "works_below (resolve target) fs1 fs'"
        "r = None \<longrightarrow> file_at fs' = put_files (resolve target) (archive_files items) (file_at fs1)" by simp_all
      from w1(1) ih(1) have "works_below (resolve target) fs fs'" by (rule works_below_trans)
      with ih(2) w1(2) None TarEntry show ?thesis by (simp add: put_files_def)
    next
      case (Some err)
      with Cons.prems TarEntry e w1(1) show ?thesis by auto
    qed
  next
    case (TarError err)
    with Cons.prems show ?thesis by (auto simp: target_dir_refl)
  qed
qed

section \<open>Decrypting in place\<close>

text \<open>The names of a tree are plain: no slash, and neither \<open>.\<close> nor \<open>..\<close>.\<close>

definition plain_tree :: "file_sys \<Rightarrow> bool" where
  "plain_tree fs \<longleftrightarrow> (\<forall>p. fs_get fs p \<noteq> None \<longrightarrow> plain_list p)"

lemma in_root_name:
  assumes "plain_list ns"
  shows "in_root root (name_in_root ns) = Inr (root @ ns)" "rel_names (name_in_root ns) = ns"
proof -
  have dot_names: "rel_names dot = []" by (simp add: rel_names_def clean_stack_def clean_step_def)
  show n: "rel_names (name_in_root ns) = ns"
    using assms dot_names by (cases "ns = []") (simp_all add: name_in_root_def rel_names_joined)
  have "name_in_root ns \<noteq> [] \<and> \<not> IsAbs (name_in_root ns)"
  proof (cases ns)
    case (Cons e es)
    with assms obtain a e' where "e = a # e'" "a \<noteq> slash" by (cases e) (auto simp: plain_elem_def)
    with Cons show ?thesis by (cases es) (simp_all add: name_in_root_def IsAbs_def)
  qed (simp add: name_in_root_def IsAbs_def)
  with n assms show "in_root root (name_in_root ns) = Inr (root @ ns)"
    by (simp add: in_root_def stays_below_def plain_list_no_dotdot)
qed

lemma rewrite_file:
  assumes "wf_fs fs" "file_at fs p = Some old" "write_at fs p c = (fs', r)"
  shows "wf_fs fs' \<and> dir_at fs' = dir_at fs \<and> file_at fs' = (if r = None then (file_at fs)(p \<mapsto> c) else file_at fs)"
proof -
  have get: "fs_get fs p = Some (FileEntry old)" using assms(2) by (simp add: file_at_iff)
  then have p: "p \<noteq> []" by auto
  have up: "fs_get fs (butlast p) = Some DirEntry" using assms(1) get p by (auto simp: wf_fs_def)
  show ?thesis
  proof (cases "fsFault fs ''open'' p")
    case None
    with get assms(3) have "fs' = fs_put p (FileEntry c) fs" "r = None"
      by (simp_all add: write_at_def open_for_write_def fs_put_def)
    with wf_put_file [OF assms(1) up p] get p show ?thesis
      by (auto simp: dir_at_def file_at_def fun_eq_iff fs_get_put)
  next
    case (Some e)
    with get assms(1,3) show ?thesis by (auto simp: write_at_def open_for_write_def)
  qed
qed

text \<open>The name under which the walk reports a path.\<close>

abbreviation walk_name :: "abspath \<Rightarrow> abspath \<Rightarrow> string" where
  "walk_name root q \<equiv> name_in_root (drop (length root) q)"

lemma present_iff: "fs_get fs p \<noteq> None \<longleftrightarrow> dir_at fs p \<or> file_at fs p \<noteq> None"
  by (auto simp: dir_at_def file_at_def split: option.splits entry.splits)

lemma visit_file_works:
  assumes "wf_fs fs" "prefix root q" "plain_list q" "fs_get fs q \<noteq> None"
    and "visit_file dec root fs (walk_name root q) = (fs', r)"
  shows "wf_fs fs' \<and> dir_at fs' = dir_at fs \<and> (\<forall>p. p \<noteq> q \<longrightarrow> file_at fs' p = file_at fs p) \<and>
    (r = None \<longrightarrow> (case file_at fs q of
        None \<Rightarrow> file_at fs' q = None
      | Some c \<Rightarrow> \<exists>c'. dec c (walk_name root q) = Inr c' \<and> file_at fs' q = Some c'))"
proof -
  obtain ns where q: "q = root @ ns" using assms(2) by (auto simp: prefix_def)
  with assms(3) have ns: "plain_list ns" by simp
  note nm = in_root_name(1) [OF ns, of root] in_root_name(2) [OF ns]
  have v: "visit_file dec root fs (name_in_root ns) = (fs', r)" using assms(5) q by simp
  show ?thesis
  proof (cases "fs_get fs q = Some DirEntry")
    case True
    with v nm q have "fs' = fs" "r = None" by (simp_all add: visit_file_def)
    with True assms(1) show ?thesis by (simp add: file_at_def)
  next
    case False
    with assms(4) obtain c where c: "file_at fs q = Some c"
      unfolding present_iff dir_at_def by blast
    show ?thesis
    proof (cases "fsFault fs ''read'' q")
      case (Some e)
      with v nm q False assms(1) c show ?thesis by (auto simp: visit_file_def root_ReadFile_def read_at_def)
    next
      case None
      with c q nm have read: "root_ReadFile fs root (name_in_root ns) = Inr c"
        by (simp add: root_ReadFile_def read_at_def file_at_iff)
      show ?thesis
      proof (cases "dec c (name_in_root ns)")
        case (Inl e)
        with v nm q False read assms(1) c show ?thesis by (auto simp: visit_file_def)
      next
        case (Inr c')
        obtain fs1 r1 where w: "write_at fs q c' = (fs1, r1)" by (meson surj_pair)
        have "(fs', r) = (if c' \<noteq> c then (fs1, map_option os_err r1) else (fs, None))"
          using v nm q False read Inr w by (auto simp: visit_file_def root_WriteFile_def split: if_splits)
        with rewrite_file [OF assms(1) c w] Inr q c assms(1) show ?thesis by (auto split: if_splits)
      qed
    qed
  qed
qed

lemma visit_files_works:
  assumes "wf_fs fs" "distinct qs" "\<forall>q \<in> set qs. prefix root q \<and> plain_list q \<and> fs_get fs q \<noteq> None"
    and "visit_files dec root fs (map (walk_name root) qs) = (fs', r)"
  shows "wf_fs fs' \<and> dir_at fs' = dir_at fs \<and> (\<forall>p. p \<notin> set qs \<longrightarrow> file_at fs' p = file_at fs p) \<and>
    (r = None \<longrightarrow> (\<forall>q \<in> set qs. case file_at fs q of
        None \<Rightarrow> file_at fs' q = None
      | Some c \<Rightarrow> \<exists>c'. dec c (walk_name root q) = Inr c' \<and> file_at fs' q = Some c'))"
  using assms
proof (induction qs arbitrary: fs)
  case (Cons q qs)
  obtain fs1 r1 where v: "visit_file dec root fs (walk_name root q) = (fs1, r1)" by (meson surj_pair)
  have q: "prefix root q" "plain_list q" "fs_get fs q \<noteq> None" using Cons.prems(3) by simp_all
  note w = visit_file_works [OF Cons.prems(1) q v]
  show ?case
  proof (cases r1)
    case (Some e)
    with Cons.prems(4) v w show ?thesis by auto
  next
    case None
    then have run: "visit_files dec root fs1 (map (walk_name root) qs) = (fs', r)" using Cons.prems(4) v by simp
    have still: "fs_get fs1 p \<noteq> None" if "fs_get fs p \<noteq> None" "p \<noteq> q" for p
      using that w unfolding present_iff by metis
    have "\<forall>p \<in> set qs. prefix root p \<and> plain_list p \<and> fs_get fs1 p \<noteq> None"
    proof
      fix p assume "p \<in> set qs"
      with Cons.prems(2,3) still [of p] show "prefix root p \<and> plain_list p \<and> fs_get fs1 p \<noteq> None" by fastforce
    qed
    with Cons.IH [OF _ _ this run] w Cons.prems(2)
    have ih: "wf_fs fs' \<and> dir_at fs' = dir_at fs1 \<and> (\<forall>p. p \<notin> set qs \<longrightarrow> file_at fs' p = file_at fs1 p) \<and>
      (r = None \<longrightarrow> (\<forall>q \<in> set qs. case file_at fs1 q of
        None \<Rightarrow> file_at fs' q = None
      | Some c \<Rightarrow> \<exists>c'. dec c (walk_name root q) = Inr c' \<and> file_at fs' q = Some c'))" by simp
    have same: "file_at fs1 p = file_at fs p" if "p \<in> set qs" for p
      using w that Cons.prems(2) by auto
    show ?thesis using ih w None Cons.prems(2) same by (auto split: option.splits)
  qed
qed simp

text \<open>What the walk visits: the entries below the directory, each once.\<close>

lemma walk_names_set: "set (walk_names fs p) = {q. prefix p q \<and> q \<in> fst ` set (fsEntries fs)}"
  by (auto simp: walk_names_def)

lemma walk_names_distinct: "wf_fs fs \<Longrightarrow> distinct (walk_names fs p)"
proof -
  assume "wf_fs fs"
  moreover have "distinct (map fst (filter f m))" if "distinct_keys m" for f and m :: tree
    using that by (induction m) auto
  ultimately show ?thesis by (simp add: walk_names_def wf_fs_def)
qed

lemma walk_names_get:
  assumes "wf_fs fs" "p \<noteq> []"
  shows "q \<in> set (walk_names fs p) \<longleftrightarrow> prefix p q \<and> fs_get fs q \<noteq> None"
proof (cases "prefix p q")
  case True
  with assms(2) have "q \<noteq> []" by auto
  then have "fs_get fs q \<noteq> None \<longleftrightarrow> q \<in> fst ` set (fsEntries fs)"
    by (simp add: fs_get_def map_of_eq_None_iff)
  with True show ?thesis by (simp add: walk_names_set)
qed (simp add: walk_names_set)

context file_decryptor
begin

text \<open>Decrypting in place with any decryptor keeps the files that carry no marker.\<close>

lemma decryptDirectory_effect:
  assumes "wf_fs fs" "plain_tree fs" "root \<noteq> []" "decryptDirectory fs root path (Some dec) = (fs', None)"
  shows "dir_at fs' = dir_at fs \<and>
    (\<forall>q. \<not> prefix (root @ rel_names path) q \<or> file_at fs q = None \<longrightarrow> file_at fs' q = file_at fs q) \<and>
    (\<forall>q c. prefix (root @ rel_names path) q \<and> file_at fs q = Some c \<longrightarrow>
       (\<exists>c'. dec c (walk_name root q) = Inr c' \<and> file_at fs' q = Some c' \<and> (\<not> has_marker c \<longrightarrow> c' = c)))"
proof -
  let ?p = "root @ rel_names path"
  obtain names where w: "walk_dir fs root path = Inr names" and v: "visit_files dec root fs names = (fs', None)"
    using assms(4) by (auto simp: decryptDirectory_def split: sum.splits)
  have names: "names = map (walk_name root) (walk_names fs ?p)"
    using w by (auto simp: walk_dir_def result_iff split: if_splits)
  note qs = walk_names_get [OF assms(1), of ?p]
  have "\<forall>q \<in> set (walk_names fs ?p). prefix root q \<and> plain_list q \<and> fs_get fs q \<noteq> None"
    using qs assms(2,3) by (auto simp: plain_tree_def dest: append_prefixD)
  from visit_files_works [OF assms(1) walk_names_distinct [OF assms(1)] this] v names
  have e: "dir_at fs' = dir_at fs" "\<And>q. q \<notin> set (walk_names fs ?p) \<Longrightarrow> file_at fs' q = file_at fs q"
    "\<And>q. q \<in> set (walk_names fs ?p) \<Longrightarrow> (case file_at fs q of
        None \<Rightarrow> file_at fs' q = None
      | Some c \<Rightarrow> \<exists>c'. dec c (walk_name root q) = Inr c' \<and> file_at fs' q = Some c')" by auto
  have in_walk: "q \<in> set (walk_names fs ?p) \<longleftrightarrow> prefix ?p q" if "file_at fs q = Some c" for q c
    using qs [of q] that assms(3) by (simp add: file_at_iff)
  show ?thesis
  proof (intro conjI allI impI)
    show "dir_at fs' = dir_at fs" by (rule e(1))
    show "file_at fs' q = file_at fs q" if "\<not> prefix ?p q \<or> file_at fs q = None" for q
      using that e(2,3) [of q] qs [of q] assms(3) by (cases "q \<in> set (walk_names fs ?p)") auto
    show "\<exists>c'. dec c (walk_name root q) = Inr c' \<and> file_at fs' q = Some c' \<and> (\<not> has_marker c \<longrightarrow> c' = c)"
      if h: "prefix ?p q \<and> file_at fs q = Some c" for q c
    proof -
      obtain c' where "dec c (walk_name root q) = Inr c'" "file_at fs' q = Some c'"
        using e(3) [of q] in_walk [of q c] h by auto
      with changed_has_marker show ?thesis by blast
    qed
  qed
qed

end

section \<open>Properties\<close>

text \<open>
  C19. Downloading a blueprint asks the cluster for exactly the version named in the URL; when it
  succeeds, the files below the target directory are the files there were before, overwritten by those of
  the version at their paths, and in any case nothing outside the target directory changes.
\<close>

theorem downloadBlueprint_files:
  assumes "target_dir fs target" "slash \<notin> set ns" "slash \<notin> set n" "slash \<notin> set d" "ns \<noteq> []" "n \<noteq> []" "d \<noteq> []"
    and "downloadBlueprint clnt s fs (blueprint_url ns n d) target = (fs', r)"
  shows "same_outside (resolve target) fs fs' \<and>
    (r = None \<longrightarrow> (\<exists>v. clGetVersion clnt s \<lparr>nnNamespace = ns, nnName = blueprint_version_name n d\<rparr> = Inr v \<and>
       file_at fs' = put_files (resolve target) (bsFiles (bvsSpec (bvSpec v))) (file_at fs)))"
proof (cases "clGetVersion clnt s \<lparr>nnNamespace = ns, nnName = blueprint_version_name n d\<rparr>")
  case (Inl e)
  with assms(8) show ?thesis
    by (simp add: downloadBlueprint_def match_blueprint_url_url [OF assms(2-7)] blueprint_version_name_def)
      (auto simp: same_outside_def)
next
  case (Inr v)
  with assms(8) have "write_files fs target (bsFiles (bvsSpec (bvSpec v))) = (fs', r)"
    by (simp add: downloadBlueprint_def match_blueprint_url_url [OF assms(2-7)] blueprint_version_name_def)
  from write_files_works [OF assms(1) this] Inr show ?thesis by (simp add: works_below_def)
qed

text \<open>
  C36. Unpacking an archive whose entry names do not lead out of the target directory changes nothing
  outside it, and on success the files are those there were before, overwritten by the archive's.
\<close>

theorem downloadArchive_files:
  assumes "target_dir fs target" "get url = Inr resp" "dlStatusCode resp = 200" "dlBody resp = Inr items"
    and "entries_below items" "downloadArchive get fs url target = (fs', r)"
  shows "same_outside (resolve target) fs fs' \<and>
    (r = None \<longrightarrow> file_at fs' = put_files (resolve target) (archive_files items) (file_at fs))"
  using extract_entries_works [OF assms(1,5)] assms(2-4,6) by (simp add: downloadArchive_def works_below_def)

text \<open>
  C20. Decrypting a directory in place changes the contents of files below it only, each into what
  the decryptor makes of it; directories, and files without a sops marker, stay as they are.
\<close>

theorem decryptDirectory_keeps_plain_files:
  assumes "wf_fs fs" "plain_tree fs" "root \<noteq> []"
    and "decryptDirectory fs root path (Some (Decrypt lib rank d)) = (fs', None)"
  shows "dir_at fs' = dir_at fs \<and>
    (\<forall>q. \<not> prefix (root @ rel_names path) q \<or> file_at fs q = None \<longrightarrow> file_at fs' q = file_at fs q) \<and>
    (\<forall>q c. prefix (root @ rel_names path) q \<and> file_at fs q = Some c \<longrightarrow>
       (\<exists>c'. Decrypt lib rank d c (walk_name root q) = Inr c' \<and> file_at fs' q = Some c' \<and>
         (\<not> has_marker c \<longrightarrow> c' = c)))"
  by (rule sops.decryptDirectory_effect [OF assms])

text \<open>
  With decryption configured, a chart at the default path is never decrypted: the walk refuses
  the empty path, as every path that is not a valid name in the root, so the source cannot be used.
\<close>

theorem decryptDirectory_refuses_default_path:
  "decryptDirectory fs root [] (Some dec) = (fs, Some (os_err InvalidPath)) \<and>
   decryptDirectory fs root (''./'' @ p) (Some dec) = (fs, Some (os_err InvalidPath))"
  by (cases p) (auto simp: decryptDirectory_def walk_dir_def ValidPath_def)

text \<open>
  C37. The archive of a source can write outside the temporary directory: an entry named
  \<open>../x\<close> is neither absolute nor refused, and is written next to the target directory.
\<close>

theorem archive_escapes_target:
  assumes "wf_fs fs" "plain_list (ds @ [tmp, x])" "x \<noteq> tmp" "fs_get fs ds = Some DirEntry"
    and "fs_get fs (ds @ [x]) = None" "fsFault fs ''open'' (ds @ [x]) = None"
  shows "\<exists>fs'. extract_entries fs (abs_path (ds @ [tmp]))
      [TarEntry \<lparr>hdName = ''../'' @ x, hdTypeflag = TypeReg\<rparr> c None] = (fs', None) \<and>
    file_at fs' (ds @ [x]) = Some c \<and> \<not> prefix (resolve (abs_path (ds @ [tmp]))) (ds @ [x])"
proof -
  let ?t = "abs_path (ds @ [tmp])"
  let ?full = "Join [?t, ''../'' @ x]"
  have x: "plain_elem x" "slash \<notin> set x" using assms(2) by (simp_all add: plain_elem_def)
  have t: "IsAbs ?t" "resolve ?t = ds @ [tmp]" using assms(2) by (simp add: IsAbs_def abs_path_def, simp add: resolve_abs_path)
  have split: "split_on slash (''../'' @ x) = [dotdot, x]" using x(2) by (simp add: split_on_single)
  have clean: "Clean (''../'' @ x) = ''../'' @ x" "\<not> IsAbs (''../'' @ x)" "''../'' @ x \<noteq> dot"
    using x(1) split by (simp_all add: Clean_def IsAbs_def clean_stack_def clean_step_def plain_elem_def)
  have full: "resolve ?full = ds @ [x]"
    using Join_abs(1) [OF t(1), of "''../'' @ x"] split t(2) x(1) assms(2)
    by (simp add: clean_step_def plain_elem_def)
  have "resolve (filepath_Dir ?full) = ds"
    using Dir_abs [of "ds @ [x]"] Join_abs_clean [OF t(1), of "''../'' @ x"] full assms(2) by simp
  then have m: "MkdirAll fs (filepath_Dir ?full) = (fs, None)" using MkdirAll_existing assms(1,4) by simp
  have w: "write_at fs (ds @ [x]) c = (fs_put (ds @ [x]) (FileEntry c) fs, None)"
    using assms(4-6) by (simp add: write_at_def open_for_write_def fs_put_def)
  have "extract_entries fs ?t [TarEntry \<lparr>hdName = ''../'' @ x, hdTypeflag = TypeReg\<rparr> c None] =
      (fs_put (ds @ [x]) (FileEntry c) fs, None)"
    using clean m w full by (simp add: extract_entry_def copy_file_def del: append.simps)
  moreover have "file_at (fs_put (ds @ [x]) (FileEntry c) fs) (ds @ [x]) = Some c"
    by (simp add: file_at_def fs_get_put)
  moreover have "\<not> prefix (ds @ [tmp]) (ds @ [x])" using assms(3) by simp
  ultimately show ?thesis using t(2) by simp
qed

text \<open>
  The files of a blueprint are a Go map, which is iterated in any order. The names \<open>a\<close> and \<open>/a\<close> are
  both accepted and lead to the same file, whose content is then that of the name that came last.
\<close>

theorem write_files_depends_on_order:
  assumes "target_dir fs target"
    and "write_files fs target [(''a'', x), (''/a'', y)] = (fs1, None)"
    and "write_files fs target [(''/a'', y), (''a'', x)] = (fs2, None)"
  shows "file_at fs1 (resolve target @ [''a'']) = Some y \<and> file_at fs2 (resolve target @ [''a'']) = Some x"
proof -
  have "rel_names ''a'' = [''a'']" "rel_names ''/a'' = [''a'']"
    by (simp_all add: rel_names_def clean_stack_def clean_step_def)
  then show ?thesis
    using write_files_works [OF assms(1,2)] write_files_works [OF assms(1,3)] by (simp add: put_files_def)
qed

end
