(* ===== verification/Factory.thy ===== *)
theory Factory
  imports Downloads
begin

text \<open>
  \<open>internal/generator/factory.go\<close>: the factory of resource generators. It lets a source be
  downloaded into a temporary directory and decrypted (\<open>Downloads\<close>), builds a Helm or a Kustomize
  generator on it, and caches the generator for 60 minutes after its last use. The HTTP server, the
  two generator constructors, the cluster and the sops library are parameters (\<open>factory_env\<close>); the mutex makes each
  call of \<open>GetGenerator\<close> and each sweep of the expiry goroutine one step.
\<close>

section \<open>Items and their expiry\<close>

record 'g Item =
  itGenerator :: 'g
  itValidUntil :: int

type_synonym 'g items = "string \<rightharpoonup> 'g Item"

definition validity :: int where "validity = 60 * minute"

definition item_put :: "int \<Rightarrow> string \<Rightarrow> 'g \<Rightarrow> 'g items \<Rightarrow> 'g items" where
  "item_put now ident g items = items(ident \<mapsto> \<lparr>itGenerator = g, itValidUntil = now + validity\<rparr>)"

definition item_touch :: "int \<Rightarrow> string \<Rightarrow> 'g items \<Rightarrow> 'g items" where
  "item_touch now ident items = (case items ident of
     None \<Rightarrow> items
   | Some item \<Rightarrow> items(ident \<mapsto> item\<lparr>itValidUntil := now + validity\<rparr>))"

text \<open>One tick of the goroutine that \<open>newFactory\<close> starts.\<close>

definition expire :: "int \<Rightarrow> 'g items \<Rightarrow> 'g items" where
  "expire now items = (\<lambda>ident. case items ident of
     None \<Rightarrow> None
   | Some item \<Rightarrow> if itValidUntil item < now then None else Some item)"

text \<open>The goroutine that \<open>newFactory\<close> starts, with the times of its ticks.\<close>

fun expiry_loop :: "int list \<Rightarrow> 'g items \<Rightarrow> 'g items" where
  "expiry_loop [] items = items"
| "expiry_loop (now # ticks) items = expiry_loop ticks (expire now items)"

definition new_items :: "'g items" where "new_items = Map.empty"

section \<open>Parameters\<close>

record ('s, 'g, 'v, 'm, 'r, 'k, 'i) factory_env =
  feClient :: "'s client"
  feHttpGet :: "string \<Rightarrow> error + download"
  feHelm :: "tree \<Rightarrow> string \<Rightarrow> error + 'g"
  feKustomize :: "tree \<Rightarrow> string \<Rightarrow> (string \<Rightarrow> string \<Rightarrow> error + string) option \<Rightarrow> error + 'g"
  feSops :: "('v, 'm, 'r, 'k, 'i) sops_lib"
  feImport :: "'i import_lib"
  feServer :: "'k KeyServiceServer"
  feRank :: "Format \<Rightarrow> nat"

section \<open>GetGenerator\<close>

type_synonym keys = "(string \<times> string) list option"

definition keys_json :: "keys \<Rightarrow> jval" where
  "keys_json keys = (case keys of
     None \<Rightarrow> JNull
   | Some m \<Rightarrow> json_map (map (\<lambda>(k, v). (k, JString (base64 v))) m))"

text \<open>The generator package has digests of its own, written as those of the API types.\<close>

definition generator_sha256hex :: "string \<Rightarrow> string" where
  "generator_sha256hex data = (let sum = Sum256 data in EncodeToString sum)"

definition generator_calculateDigest :: "jval list \<Rightarrow> string" where
  "generator_calculateDigest values =
     (let raw = marshal (if values = [] then JNull else JArr values) in generator_sha256hex raw)"

lemma generator_digest_api [simp]: "generator_calculateDigest values = calculateDigest values"
  by (simp add: generator_calculateDigest_def generator_sha256hex_def calculateDigest_def sha256hex_def digest_text_def)

abbreviation newline :: string where "newline \<equiv> [CHR 0x0A]"

definition generator_id :: "string \<Rightarrow> string \<Rightarrow> string \<Rightarrow> string \<Rightarrow> keys \<Rightarrow> string" where
  "generator_id url path digest decryptionProvider decryptionKeys =
     url @ newline @ digest @ newline @ path @ newline @ decryptionProvider @ newline @
     generator_calculateDigest [keys_json decryptionKeys]"

definition key_entries :: "keys \<Rightarrow> (string \<times> string) list" where
  "key_entries keys = (case keys of None \<Rightarrow> [] | Some m \<Rightarrow> m)"

definition make_decryptor ::
  "('s, 'g, 'v, 'm, 'r, 'k, 'i) factory_env \<Rightarrow> file_sys \<Rightarrow> string \<Rightarrow> keys \<Rightarrow>
     file_sys \<times> (error + ('k, 'i) SopsDecryptor option)" where
  "make_decryptor env fs decryptionProvider decryptionKeys =
     (if length (key_entries decryptionKeys) > 0 then
        if decryptionProvider = ''sops'' \<or> decryptionProvider = [] then
          (case NewSopsDecryptor (feImport env) (feServer env) fs (key_entries decryptionKeys) of
             (fs', Inl err) \<Rightarrow> (fs', Inl err)
           | (fs', Inr d) \<Rightarrow> (fs', Inr (Some d)))
        else (fs, Inl (Errorf (''invalid decryption provider: '' @ decryptionProvider)))
      else (fs, Inr None))"

definition decrypt_function ::
  "('s, 'g, 'v, 'm, 'r, 'k, 'i) factory_env \<Rightarrow> ('k, 'i) SopsDecryptor option \<Rightarrow>
     (string \<Rightarrow> string \<Rightarrow> error + string) option" where
  "decrypt_function env d = map_option (Decrypt (feSops env) (feRank env)) d"

definition download_source ::
  "('s, 'g, 'v, 'm, 'r, 'k, 'i) factory_env \<Rightarrow> 's \<Rightarrow> file_sys \<Rightarrow> string \<Rightarrow> string \<Rightarrow> file_sys \<times> error option" where
  "download_source env s fs url tmpdir =
     (if HasPrefix url blueprint_scheme then downloadBlueprint (feClient env) s fs url tmpdir
      else downloadArchive (feHttpGet env) fs url tmpdir)"

text \<open>From the downloaded directory to the generator: a chart is decrypted first, and Helm takes it.\<close>

definition load_generator ::
  "('s, 'g, 'v, 'm, 'r, 'k, 'i) factory_env \<Rightarrow> file_sys \<Rightarrow> string \<Rightarrow> string \<Rightarrow>
     (string \<Rightarrow> string \<Rightarrow> error + string) option \<Rightarrow> file_sys \<times> (error + 'g)" where
  "load_generator env fs tmpdir path decryptor =
     (case os_Stat fs (Join [tmpdir, path]) of
        Inl NotExist \<Rightarrow> (fs, Inl (Errorf (''no such file or directory: '' @ path)))
      | Inl err \<Rightarrow> (fs, Inl (os_err err))
      | Inr (FileEntry _) \<Rightarrow> (fs, Inl (Errorf (''not a directory: '' @ path)))
      | Inr DirEntry \<Rightarrow>
        let root = resolve tmpdir in
        (case root_Stat fs root (Join [path, ''Chart.yaml'']) of
           Inr _ \<Rightarrow>
             (case decryptDirectory fs root path decryptor of
                (fs', Some err) \<Rightarrow> (fs', Inl err)
              | (fs', None) \<Rightarrow> (fs', feHelm env (subtree fs' root) path))
         | Inl NotExist \<Rightarrow> (fs, feKustomize env (subtree fs root) path decryptor)
         | Inl err \<Rightarrow> (fs, Inl (os_err err))))"

definition build_generator ::
  "('s, 'g, 'v, 'm, 'r, 'k, 'i) factory_env \<Rightarrow> 's \<Rightarrow> file_sys \<Rightarrow> string \<Rightarrow> string \<Rightarrow> string \<Rightarrow> string \<Rightarrow> keys \<Rightarrow>
     file_sys \<times> (error + 'g)" where
  "build_generator env s fs tmpdir url path decryptionProvider decryptionKeys =
     (case make_decryptor env fs decryptionProvider decryptionKeys of
        (fs1, Inl err) \<Rightarrow> (fs1, Inl err)
      | (fs1, Inr d) \<Rightarrow>
        (case (case download_source env s fs1 url tmpdir of
                 (fs2, Some err) \<Rightarrow> (fs2, Inl err)
               | (fs2, None) \<Rightarrow> load_generator env fs2 tmpdir path (decrypt_function env d)) of
           (fs3, r) \<Rightarrow> (case d of None \<Rightarrow> fs3 | Some sd \<Rightarrow> Cleanup sd fs3, r)))"

text \<open>A call reads the clock once, when it touches or stores an item; \<open>now\<close> is what it reads.\<close>

definition GetGenerator ::
  "('s, 'g, 'v, 'm, 'r, 'k, 'i) factory_env \<Rightarrow> 's \<Rightarrow> int \<Rightarrow> file_sys \<Rightarrow> 'g items \<Rightarrow>
     string \<Rightarrow> string \<Rightarrow> string \<Rightarrow> string \<Rightarrow> keys \<Rightarrow> file_sys \<times> 'g items \<times> (error + 'g)" where
  "GetGenerator env s now fs items url path digest decryptionProvider decryptionKeys =
     (let ident = generator_id url path digest decryptionProvider decryptionKeys in
      case items ident of
        Some item \<Rightarrow> (fs, item_touch now ident items, Inr (itGenerator item))
      | None \<Rightarrow>
        (case MkdirTemp fs ''component-operator-'' of
           (fs1, Inl err) \<Rightarrow> (fs1, items, Inl (os_err err))
         | (fs1, Inr tmpdir) \<Rightarrow>
           (case build_generator env s fs1 tmpdir url path decryptionProvider decryptionKeys of
              (fs2, Inl err) \<Rightarrow> (RemoveAll fs2 tmpdir, items, Inl err)
            | (fs2, Inr generator) \<Rightarrow> (RemoveAll fs2 tmpdir, item_put now ident generator items, Inr generator))))"

section \<open>The store of generators\<close>

text \<open>
  The interface between \<open>GetGenerator\<close> and the map of items: what is found for an id, with the time until
  which it stays valid, after the entry was stored, used, or the expired ones were swept out.
\<close>

locale expiring_store =
  fixes find :: "'st \<Rightarrow> string \<Rightarrow> ('g \<times> int) option"
    and put :: "int \<Rightarrow> string \<Rightarrow> 'g \<Rightarrow> 'st \<Rightarrow> 'st"
    and touch :: "int \<Rightarrow> string \<Rightarrow> 'st \<Rightarrow> 'st"
    and sweep :: "int \<Rightarrow> 'st \<Rightarrow> 'st"
    and lifetime :: int
  assumes find_put: "find (put now i g st) j = (if j = i then Some (g, now + lifetime) else find st j)"
    and find_touch: "find (touch now i st) j =
      (if j = i then map_option (\<lambda>(g, u). (g, now + lifetime)) (find st i) else find st j)"
    and find_sweep: "find (sweep now st) j = (case find st j of
      None \<Rightarrow> None | Some (g, u) \<Rightarrow> if u < now then None else Some (g, u))"
begin

text \<open>An entry is \<open>fresh\<close> at a time when it will be valid for the rest of its lifetime after that time.\<close>

definition fresh :: "int \<Rightarrow> string \<Rightarrow> 'g \<Rightarrow> 'st \<Rightarrow> bool" where
  "fresh t0 i g st \<longleftrightarrow> (\<exists>u. find st i = Some (g, u) \<and> t0 + lifetime \<le> u)"

lemma fresh_put: "fresh now i g (put now i g st)"
  by (simp add: fresh_def find_put)

lemma fresh_put_other: "j \<noteq> i \<Longrightarrow> fresh t0 i g (put now j h st) = fresh t0 i g st"
  by (simp add: fresh_def find_put)

lemma fresh_touch: "fresh t0 i g st \<Longrightarrow> t0 \<le> now \<Longrightarrow> fresh t0 i g (touch now j st)"
  by (auto simp: fresh_def find_touch)

lemma fresh_touched: "find st i = Some (g, u) \<Longrightarrow> fresh now i g (touch now i st)"
  by (simp add: fresh_def find_touch)

lemma fresh_sweep: "fresh t0 i g st \<Longrightarrow> now \<le> t0 + lifetime \<Longrightarrow> fresh t0 i g (sweep now st)"
  by (auto simp: fresh_def find_sweep)

lemma swept_valid: "find (sweep now st) i = Some (g, u) \<Longrightarrow> now \<le> u"
  by (auto simp: find_sweep split: option.splits if_splits)

end

definition find_item :: "'g items \<Rightarrow> string \<Rightarrow> ('g \<times> int) option" where
  "find_item items ident = map_option (\<lambda>item. (itGenerator item, itValidUntil item)) (items ident)"

interpretation item_store: expiring_store find_item item_put item_touch expire validity
  by unfold_locales
    (auto simp: find_item_def item_put_def item_touch_def expire_def split: option.splits)

section \<open>Generator ids\<close>

text \<open>
  What two calls have in common when their ids agree. The keys are compared as JSON, where a nil map
  differs from an empty one.
\<close>

definition keys_ok :: "keys \<Rightarrow> bool" where
  "keys_ok keys \<longleftrightarrow> distinct_keys (key_entries keys) \<and> (\<forall>(k, v) \<in> set (key_entries keys). valid_utf8 k)"

definition same_keys :: "keys \<Rightarrow> keys \<Rightarrow> bool" where
  "same_keys k k' \<longleftrightarrow> (case (k, k') of
     (None, None) \<Rightarrow> True
   | (Some m, Some n) \<Rightarrow> map_of m = map_of n
   | _ \<Rightarrow> False)"

definition encoded :: "(string \<times> string) list \<Rightarrow> (string \<times> string) list" where
  "encoded m = map (\<lambda>(k, v). (k, base64 v)) m"

lemma keys_json_encoded:
  "keys_json (Some m) = json_map (map (\<lambda>(k, v). (k, JString v)) (encoded m))"
  by (simp add: keys_json_def encoded_def o_def case_prod_unfold)

lemma encoded_keys [simp]: "distinct_keys (encoded m) = distinct_keys m"
proof -
  have "map fst (encoded m) = map fst m" unfolding encoded_def by (induction m) auto
  then show ?thesis by simp
qed

lemma encoded_inject: "map_of (encoded m) = map_of (encoded n) \<longleftrightarrow> map_of m = map_of n"
proof -
  have mo: "map_of (encoded m) = map_option base64 \<circ> map_of m" for m
    unfolding encoded_def by (rule ext, induction m) auto
  show ?thesis
    unfolding mo by (metis (no_types, lifting) base64_inject comp_apply ext option.inj_map_strong)
qed

lemma keys_json_ok: "keys_ok keys \<Longrightarrow> jval_ok (keys_json keys)"
proof (cases keys)
  case (Some m)
  assume "keys_ok keys"
  with Some have "\<forall>(k, v) \<in> set (encoded m). valid_utf8 k \<and> valid_utf8 v"
    by (auto simp: keys_ok_def key_entries_def encoded_def)
  then show ?thesis unfolding Some keys_json_encoded by (rule json_map_strings_ok)
qed (simp add: keys_json_def)

lemma keys_json_eq: "keys_ok k \<Longrightarrow> keys_ok k' \<Longrightarrow> keys_json k = keys_json k' \<longleftrightarrow> same_keys k k'"
proof (cases k; cases k')
  fix m n
  assume ok: "keys_ok k" "keys_ok k'" and k: "k = Some m" "k' = Some n"
  then have "distinct_keys (encoded m)" "distinct_keys (encoded n)" by (simp_all add: keys_ok_def key_entries_def)
  from json_map_strings_eq [OF this] k show "keys_json k = keys_json k' \<longleftrightarrow> same_keys k k'"
    by (simp add: keys_json_encoded encoded_inject same_keys_def)
qed (simp_all add: keys_json_def same_keys_def json_map_def)

lemma generator_id_sources:
  assumes "CHR 0x0A \<notin> set (url @ digest @ path)" "CHR 0x0A \<notin> set (url' @ digest' @ path')"
    and "keys_ok keys" "keys_ok keys'"
  shows "generator_id url path digest provider keys = generator_id url' path' digest' provider' keys' \<longleftrightarrow>
    url = url' \<and> path = path' \<and> digest = digest' \<and> provider = provider' \<and>
    (same_keys keys keys' \<or> sha_collision (digest_text [keys_json keys]) (digest_text [keys_json keys']))"
proof -
  have "calculateDigest [keys_json keys] = calculateDigest [keys_json keys'] \<longleftrightarrow>
      same_keys keys keys' \<or> sha_collision (digest_text [keys_json keys]) (digest_text [keys_json keys'])"
    using calculateDigest_eq_iff [of "[keys_json keys]" "[keys_json keys']"] keys_json_ok assms(3,4)
    by (simp add: keys_json_eq)
  moreover have "generator_id url path digest provider keys = generator_id url' path' digest' provider' keys' \<longleftrightarrow>
      url = url' \<and> digest = digest' \<and> path = path' \<and>
      provider @ CHR 0x0A # calculateDigest [keys_json keys] = provider' @ CHR 0x0A # calculateDigest [keys_json keys']"
    using assms(1,2) by (simp add: generator_id_def sep_inject)
  ultimately show ?thesis
    using sep_inject_last [of "CHR 0x0A" "calculateDigest [keys_json keys]" "calculateDigest [keys_json keys']" provider provider']
      calculateDigest_plain(3) by auto
qed

text \<open>
  C17. Generators are shared between two calls only if they are for the same source: without newlines
  in URL, digest and path, equal ids mean equal URL, path, digest and provider, and the same decryption
  keys, unless SHA-256 collides on the two encoded key sets.
\<close>

theorem generator_id_determines_source:
  assumes "CHR 0x0A \<notin> set (url @ digest @ path)" "CHR 0x0A \<notin> set (url' @ digest' @ path')"
    and "keys_ok keys" "keys_ok keys'"
  shows "generator_id url path digest provider keys = generator_id url' path' digest' provider' keys' \<longleftrightarrow>
    url = url' \<and> path = path' \<and> digest = digest' \<and> provider = provider' \<and>
    (same_keys keys keys' \<or> sha_collision (digest_text [keys_json keys]) (digest_text [keys_json keys']))"
  by (rule generator_id_sources [OF assms])

section \<open>What GetGenerator leaves in the file system\<close>

lemma visit_file_below:
  assumes "wf_fs fs" "root \<noteq> []" "fs_get fs root = Some DirEntry" "visit_file dec root fs p = (fs', r)"
  shows "works_below root fs fs'"
proof -
  have "works_below root fs (fst (root_WriteFile fs root p c))" for c
  proof (cases "in_root root p")
    case (Inr q)
    then have "q = root @ rel_names p" by (auto simp: in_root_def split: if_splits)
    with Inr write_at_works(1) [OF assms(1,3,2)] show ?thesis
      by (cases "write_at fs q c") (simp add: root_WriteFile_def)
  qed (use assms in \<open>simp add: root_WriteFile_def works_below_refl\<close>)
  with assms show ?thesis
    by (auto simp: visit_file_def works_below_refl split: if_splits sum.splits prod.splits) (metis fst_conv)+
qed

lemma visit_files_below:
  assumes "wf_fs fs" "root \<noteq> []" "fs_get fs root = Some DirEntry" "visit_files dec root fs ps = (fs', r)"
  shows "works_below root fs fs'"
  using assms
proof (induction ps arbitrary: fs)
  case (Cons p ps)
  obtain fs1 r1 where v: "visit_file dec root fs p = (fs1, r1)" by (meson surj_pair)
  have w: "works_below root fs fs1" by (rule visit_file_below [OF Cons.prems(1-3) v])
  show ?case
  proof (cases r1)
    case None
    with Cons.prems(4) v have "visit_files dec root fs1 ps = (fs', r)" by simp
    from Cons.IH [OF works_belowD(1) [OF w] Cons.prems(2) works_belowD(2) [OF w] this] w
    show ?thesis by (rule works_below_trans [rotated])
  qed (use Cons.prems(4) v w in simp)
qed (simp add: works_below_refl)

lemma load_generator_below:
  assumes "target_dir fs tmp" "load_generator env fs tmp path dec = (fs', r)"
  shows "works_below (resolve tmp) fs fs'"
proof -
  have t: "wf_fs fs" "resolve tmp \<noteq> []" "fs_get fs (resolve tmp) = Some DirEntry"
    using assms(1) by (simp_all add: target_dir_def)
  have d: "works_below (resolve tmp) fs (fst (decryptDirectory fs (resolve tmp) path dec))"
    using visit_files_below [OF t] works_below_refl [OF t(1,3)]
    by (auto simp: decryptDirectory_def split: option.splits sum.splits) (metis prod.collapse)
  have "fs' = fs \<or> fs' = fst (decryptDirectory fs (resolve tmp) path dec)"
    using assms(2) by (auto simp: load_generator_def Let_def split: sum.splits os_error.splits entry.splits prod.splits option.splits)
  with d works_below_refl [OF t(1,3)] show ?thesis by auto
qed

text \<open>Sources that stay in the directory they are downloaded to.\<close>

definition source_confined :: "('s, 'g, 'v, 'm, 'r, 'k, 'i) factory_env \<Rightarrow> string \<Rightarrow> bool" where
  "source_confined env url \<longleftrightarrow> HasPrefix url blueprint_scheme \<or>
     (\<forall>resp items. feHttpGet env url = Inr resp \<longrightarrow> dlBody resp = Inr items \<longrightarrow> entries_below items)"

lemma download_source_below:
  assumes "target_dir fs tmp" "source_confined env url" "download_source env s fs url tmp = (fs', r)"
  shows "works_below (resolve tmp) fs fs'"
proof (cases "HasPrefix url blueprint_scheme")
  case True
  with assms(3) have "downloadBlueprint (feClient env) s fs url tmp = (fs', r)" by (simp add: download_source_def)
  then consider "fs' = fs" | files where "write_files fs tmp files = (fs', r)"
    by (auto simp: downloadBlueprint_def split: option.splits sum.splits)
  then show ?thesis
    using write_files_works [OF assms(1)] target_dir_refl [OF assms(1)] by cases auto
next
  case False
  with assms(3) have "downloadArchive (feHttpGet env) fs url tmp = (fs', r)" by (simp add: download_source_def)
  then consider "fs' = fs"
    | resp items where "feHttpGet env url = Inr resp" "dlBody resp = Inr items" "extract_entries fs tmp items = (fs', r)"
    by (auto simp: downloadArchive_def split: sum.splits if_splits)
  then show ?thesis
  proof cases
    case 2
    with False assms(2) have "entries_below items" by (simp add: source_confined_def)
    with extract_entries_works [OF assms(1) _ 2(3)] show ?thesis by simp
  qed (simp add: target_dir_refl [OF assms(1)])
qed

lemma works_below_same: "wf_fs fs' \<Longrightarrow> (\<And>q. fs_get fs' q = fs_get fs q) \<Longrightarrow> fs_get fs d = Some DirEntry \<Longrightarrow> works_below d fs fs'"
  by (simp add: works_below_def same_outside_def)

text \<open>A second temporary directory that comes and goes meanwhile.\<close>

lemma temp_dir_meanwhile:
  assumes "target_dir fs tmp" "MkdirTemp fs pat = (fs1, Inr home)" "works_below (resolve home) fs1 fs2"
  shows "target_dir fs2 tmp"
    and "works_below (resolve tmp) fs2 fs3 \<Longrightarrow> works_below (resolve tmp) fs (RemoveAll fs3 home)"
proof -
  have wf: "wf_fs fs" and t: "fs_get fs (resolve tmp) = Some DirEntry" "resolve tmp \<noteq> []" "IsAbs tmp"
    using assms(1) by (simp_all add: target_dir_def)
  from MkdirTemp_works [OF wf assms(2)] obtain d
    where d: "resolve home = d" "d \<noteq> []" "fs_get fs d = None" "fs1 = fs_put d DirEntry fs" by metis
  have gone: "fs_get fs q = None" if "prefix d q" for q
  proof (rule ccontr)
    assume "fs_get fs q \<noteq> None"
    then obtain x where x: "fs_get fs q = Some x" by blast
    from that obtain ns where "q = d @ ns" by (auto simp: prefix_def)
    with x d(3) wf_above [OF wf, of d ns x] show False by (cases "ns = []") auto
  qed
  have away: "\<not> prefix d (resolve tmp)" using gone [of "resolve tmp"] t(1) by auto
  have keep: "fs_get fs2 q = fs_get fs q" if "\<not> prefix d q" for q
    using assms(3) that d by (auto simp: works_below_def same_outside_def fs_get_put)
  show "target_dir fs2 tmp"
    using assms(3) keep [OF away] t by (simp add: target_dir_def works_below_def)
  show "works_below (resolve tmp) fs (RemoveAll fs3 home)" if w: "works_below (resolve tmp) fs2 fs3"
    unfolding works_below_def same_outside_def
  proof (intro conjI allI impI)
    show "wf_fs (RemoveAll fs3 home)" using w d wf_RemoveAll by (simp add: works_below_def)
    show "fs_get (RemoveAll fs3 home) (resolve tmp) = Some DirEntry"
      using w away d by (simp add: works_below_def fs_get_RemoveAll)
    show "fs_get (RemoveAll fs3 home) q = fs_get fs q" if "\<not> prefix (resolve tmp) q" for q
      using w that keep [of q] gone [of q] d by (simp add: works_below_def same_outside_def fs_get_RemoveAll)
  qed
qed

lemma build_generator_below:
  assumes "import_confined (feImport env)" "source_confined env url" "target_dir fs tmp"
    and "build_generator env s fs tmp url path provider keys = (fs', r)"
  shows "works_below (resolve tmp) fs fs'"
proof -
  define fill where "fill fs1 d = (case download_source env s fs1 url tmp of
      (fs2, Some err) \<Rightarrow> (fs2, Inl err)
    | (fs2, None) \<Rightarrow> load_generator env fs2 tmp path (decrypt_function env d))" for fs1 d
  have fill: "works_below (resolve tmp) fs1 (fst (fill fs1 d))" if "target_dir fs1 tmp" for fs1 d
  proof -
    obtain fs2 e where dl: "download_source env s fs1 url tmp = (fs2, e)" by (meson surj_pair)
    note w = download_source_below [OF that assms(2) dl]
    show ?thesis
    proof (cases e)
      case None
      obtain fs3 g where l: "load_generator env fs2 tmp path (decrypt_function env d) = (fs3, g)" by (meson surj_pair)
      have "works_below (resolve tmp) fs2 fs3" by (rule load_generator_below [OF target_dir_works [OF that w] l])
      with None dl l w show ?thesis by (simp add: fill_def works_below_trans [OF w])
    qed (use dl w in \<open>simp add: fill_def\<close>)
  qed
  obtain fs1 m where m: "make_decryptor env fs provider keys = (fs1, m)" by (meson surj_pair)
  have t: "wf_fs fs" "fs_get fs (resolve tmp) = Some DirEntry" using assms(3) by (simp_all add: target_dir_def)
  show ?thesis
  proof (cases "length (key_entries keys) > 0 \<and> (provider = ''sops'' \<or> provider = [])")
    case False
    with m have "fs1 = fs" "m = Inr None \<or> (\<exists>e. m = Inl e)" by (auto simp: make_decryptor_def split: if_splits)
    with assms(4) m fill [OF assms(3), of None] target_dir_refl [OF assms(3)] show ?thesis
      by (auto simp: build_generator_def fill_def [symmetric] split: prod.splits)
  next
    case True
    obtain n where n: "NewSopsDecryptor (feImport env) (feServer env) fs (key_entries keys) = (fs1, n)"
      and m': "m = map_sum id Some n"
      using m True by (auto simp: make_decryptor_def split: prod.splits sum.splits)
    note w = NewSopsDecryptor_works [OF assms(1) t(1) n]
    show ?thesis
    proof (cases n)
      case (Inl e)
      with assms(4) m m' have "fs' = fs1" by (simp add: build_generator_def)
      with w(1,2) Inl t(2) show ?thesis by (simp add: works_below_same)
    next
      case (Inr sd)
      from w(3) [OF Inr] obtain fs0 where h: "MkdirTemp fs ''gpg-'' = (fs0, Inr (sdGnuPGHome sd))"
        "works_below (resolve (sdGnuPGHome sd)) fs0 fs1" "sdGnuPGHome sd \<noteq> []" by blast
      have "fs' = RemoveAll (fst (fill fs1 (Some sd))) (sdGnuPGHome sd)"
        using assms(4) m m' Inr h(3)
        by (simp add: build_generator_def fill_def [symmetric] Cleanup_def split: prod.splits)
      with temp_dir_meanwhile [OF assms(3) h(1,2)] fill show ?thesis by simp
    qed
  qed
qed

section \<open>Properties of GetGenerator\<close>

text \<open>
  However a call of \<open>GetGenerator\<close> ends, it leaves no file behind and changes none: temporary
  directories, downloaded sources and imported keys are gone. This needs sources that do not write outside
  their target, which blueprints never do.
\<close>

theorem GetGenerator_leaves_no_files:
  assumes "import_confined (feImport env)" "source_confined env url" "wf_fs fs"
    and "GetGenerator env s now fs items url path digest provider keys = (fs', items', r)"
  shows "fs_get fs' q = fs_get fs q"
proof (cases "items (generator_id url path digest provider keys)")
  case None
  obtain fs1 m where m: "MkdirTemp fs ''component-operator-'' = (fs1, m)" by (meson surj_pair)
  show ?thesis
  proof (cases m)
    case (Inl e)
    then have "fs1 = fs" using m by (auto simp: MkdirTemp_def Let_def split: if_splits option.splits)
    with assms(4) None m Inl show ?thesis by (simp add: GetGenerator_def Let_def)
  next
    case (Inr tmp)
    from MkdirTemp_works [OF assms(3) m [unfolded Inr]]
    have t: "target_dir fs1 tmp" by (metis IsAbs_def abs_path_def list.distinct(1) list.sel(1) target_dir_def)
    obtain fs2 b where b: "build_generator env s fs1 tmp url path provider keys = (fs2, b)" by (meson surj_pair)
    have "fs' = RemoveAll fs2 tmp"
      using assms(4) None m Inr b by (auto simp: GetGenerator_def Let_def split: sum.splits)
    with temp_dir_no_trace [OF assms(3) m [unfolded Inr] build_generator_below [OF assms(1,2) t b]]
    show ?thesis by simp
  qed
qed (use assms(4) in \<open>simp add: GetGenerator_def Let_def\<close>)

section \<open>The factory over time\<close>

text \<open>
  What happens to a factory, one event at a time: ticks of the expiry goroutine and calls of
  \<open>GetGenerator\<close>, each with the parameters and the cluster state as it finds them.
\<close>

datatype ('s, 'g, 'v, 'm, 'r, 'k, 'i) factory_input =
    ExpiryTick int
  | Call "('s, 'g, 'v, 'm, 'r, 'k, 'i) factory_env" 's int string string string string keys

fun input_time :: "('s, 'g, 'v, 'm, 'r, 'k, 'i) factory_input \<Rightarrow> int" where
  "input_time (ExpiryTick now) = now"
| "input_time (Call _ _ now _ _ _ _ _) = now"

fun input_id :: "('s, 'g, 'v, 'm, 'r, 'k, 'i) factory_input \<Rightarrow> string option" where
  "input_id (ExpiryTick now) = None"
| "input_id (Call _ _ _ url path digest provider keys) = Some (generator_id url path digest provider keys)"

inductive factory_step ::
  "file_sys \<times> 'g items \<Rightarrow> ('s, 'g, 'v, 'm, 'r, 'k, 'i) factory_input \<Rightarrow> file_sys \<times> 'g items \<Rightarrow> bool" where
  step_expiry: "factory_step (fs, items) (ExpiryTick now) (fs, expire now items)"
| step_call: "GetGenerator env s now fs items url path digest provider keys = (fs', items', r) \<Longrightarrow>
    factory_step (fs, items) (Call env s now url path digest provider keys) (fs', items')"

inductive factory_run ::
  "file_sys \<times> 'g items \<Rightarrow> ('s, 'g, 'v, 'm, 'r, 'k, 'i) factory_input list \<Rightarrow> file_sys \<times> 'g items \<Rightarrow> bool" where
  run_none: "factory_run st [] st"
| run_step: "factory_step st i st' \<Longrightarrow> factory_run st' ins st'' \<Longrightarrow> factory_run st (i # ins) st''"

inductive_cases expiry_stepE: "factory_step (fs, items) (ExpiryTick now) st"
inductive_cases call_stepE: "factory_step (fs, items) (Call env s now url path digest provider keys) st"
inductive_simps run_Nil: "factory_run st [] st'"
inductive_simps run_Cons: "factory_run st (i # ins) st'"

lemma expiry_loop_run: "factory_run (fs, items) (map ExpiryTick ticks) st \<longleftrightarrow> st = (fs, expiry_loop ticks items)"
  by (induction ticks arbitrary: items) (auto simp: run_Nil run_Cons elim: expiry_stepE intro: factory_step.intros)

text \<open>What a call does to the store.\<close>

lemma GetGenerator_items [case_names Hit Stored Failed]:
  assumes "GetGenerator env s now fs items url path digest provider keys = (fs', items', r)"
  obtains item where "items (generator_id url path digest provider keys) = Some item"
      "fs' = fs" "r = Inr (itGenerator item)"
      "items' = item_touch now (generator_id url path digest provider keys) items"
  | g where "items (generator_id url path digest provider keys) = None" "r = Inr g"
      "items' = item_put now (generator_id url path digest provider keys) g items"
  | e where "items (generator_id url path digest provider keys) = None" "r = Inl e" "items' = items"
proof (cases "items (generator_id url path digest provider keys)")
  case (Some item)
  with that(1) assms show ?thesis by (simp add: GetGenerator_def Let_def)
next
  case None
  with assms have "(\<exists>e. r = Inl e \<and> items' = items) \<or>
      (\<exists>g. r = Inr g \<and> items' = item_put now (generator_id url path digest provider keys) g items)"
    by (auto simp: GetGenerator_def Let_def split: prod.splits sum.splits)
  with None that(2,3) show ?thesis by blast
qed

lemma fresh_call:
  assumes "GetGenerator env s now fs items url path digest provider keys = (fs', items', r)"
    and "item_store.fresh t0 i g items" "t0 \<le> now"
  shows "item_store.fresh t0 i g items'"
  using assms(1)
proof (cases rule: GetGenerator_items)
  case (Hit item)
  with assms(2,3) show ?thesis by (simp add: item_store.fresh_touch)
next
  case (Stored h)
  with assms(2) have "generator_id url path digest provider keys \<noteq> i"
    by (auto simp: item_store.fresh_def find_item_def)
  with Stored assms(2) show ?thesis by (simp add: item_store.fresh_put_other)
qed (use assms(2) in simp)

lemma fresh_step:
  assumes "factory_step st i st'" "item_store.fresh t0 j g (snd st)"
    and "t0 \<le> input_time i" "input_time i \<le> t0 + validity"
  shows "item_store.fresh t0 j g (snd st')"
  using assms by (cases rule: factory_step.cases) (auto intro: item_store.fresh_sweep fresh_call)

lemma fresh_run:
  assumes "factory_run st ins st'" "item_store.fresh t0 j g (snd st)"
    and "\<forall>i \<in> set ins. t0 \<le> input_time i \<and> input_time i \<le> t0 + validity"
  shows "item_store.fresh t0 j g (snd st')"
  using assms by (induction rule: factory_run.induct) (auto dest: fresh_step)

text \<open>
  C8. Within 60 minutes after a successful call, a call with the same arguments returns the same
  generator without touching the file system, whatever calls and expiry ticks came in between, and
  whatever the servers would answer by then.
\<close>

theorem GetGenerator_cached:
  assumes "GetGenerator env s t0 fs items url path digest provider keys = (fs1, items1, Inr g)"
    and "factory_run (fs1, items1) ins (fs2, items2)"
    and "\<forall>i \<in> set ins. t0 \<le> input_time i \<and> input_time i \<le> t0 + validity"
  shows "\<exists>items3. GetGenerator env' s' t fs2 items2 url path digest provider keys = (fs2, items3, Inr g)"
proof -
  let ?id = "generator_id url path digest provider keys"
  have "item_store.fresh t0 ?id g items1"
    using assms(1)
  proof (cases rule: GetGenerator_items)
    case (Hit item)
    then show ?thesis by (simp add: item_store.fresh_touched find_item_def)
  qed (simp_all add: item_store.fresh_put)
  then have "item_store.fresh t0 ?id g items2" using fresh_run [OF assms(2) _ assms(3)] by simp
  then obtain item where "items2 ?id = Some item" "itGenerator item = g"
    by (auto simp: item_store.fresh_def find_item_def)
  then show ?thesis by (simp add: GetGenerator_def Let_def)
qed

lemma idle_step:
  assumes "factory_step st i st'" "input_id i \<noteq> Some j"
  shows "snd st' j = (if snd st j = None then None
    else case i of ExpiryTick now \<Rightarrow> if itValidUntil (the (snd st j)) < now then None else snd st j
      | _ \<Rightarrow> snd st j)"
  using assms(1)
proof (cases rule: factory_step.cases)
  case (step_expiry fs items now)
  then show ?thesis by (auto simp: expire_def split: option.splits)
next
  case (step_call env s now fs items url path digest provider keys fs' items' r)
  with assms(2) have j: "generator_id url path digest provider keys \<noteq> j" by simp
  from step_call(4) have "items' j = items j"
    by (cases rule: GetGenerator_items) (use j in \<open>auto simp: item_touch_def item_put_def split: option.splits\<close>)
  with step_call show ?thesis by simp
qed

lemma idle_run_None: "factory_run st ins st' \<Longrightarrow> \<forall>i \<in> set ins. input_id i \<noteq> Some j \<Longrightarrow> snd st j = None \<Longrightarrow> snd st' j = None"
  by (induction rule: factory_run.induct) (auto simp: idle_step)

text \<open>
  A generator that is not asked for expires: once the expiry goroutine ticks after the end of its
  validity, it is gone, and the next call builds the source anew.
\<close>

theorem idle_generator_expires:
  assumes "factory_run (fs, items) ins (fs', items')"
    and "\<forall>i \<in> set ins. input_id i \<noteq> Some ident"
    and "items ident = Some item" "ExpiryTick now \<in> set ins" "itValidUntil item < now"
  shows "items' ident = None"
proof -
  have "snd st' ident = None" if "factory_run st ins st'" "snd st ident = Some item" for st st'
    using that assms(2,4)
  proof (induction rule: factory_run.induct)
    case (run_step st i st' ins st'')
    show ?case
    proof (cases "snd st' ident")
      case None
      with run_step idle_run_None [of st' ins st'' ident] show ?thesis by auto
    next
      case (Some x)
      with run_step(1,4,5) have "i \<noteq> ExpiryTick now" "x = item"
        using idle_step [of st i st' ident] assms(5) by (auto split: factory_input.splits if_splits)
      with run_step Some show ?thesis by simp
    qed
  qed simp
  from this [OF assms(1)] assms(3) show ?thesis by simp
qed

text \<open>
  A failing call caches nothing, so that the next one tries again; and with keys but an unknown
  decryption provider the call always fails before anything is downloaded.
\<close>

theorem GetGenerator_failure_not_cached:
  assumes "GetGenerator env s now fs items url path digest provider keys = (fs', items', r)"
  shows "(\<forall>e. r = Inl e \<longrightarrow> items' = items) \<and>
    (items (generator_id url path digest provider keys) = None \<and> key_entries keys \<noteq> [] \<and>
       provider \<noteq> ''sops'' \<and> provider \<noteq> [] \<longrightarrow> (\<exists>e. r = Inl e))"
proof
  from assms show "\<forall>e. r = Inl e \<longrightarrow> items' = items" by (cases rule: GetGenerator_items) auto
  show "items (generator_id url path digest provider keys) = None \<and> key_entries keys \<noteq> [] \<and>
       provider \<noteq> ''sops'' \<and> provider \<noteq> [] \<longrightarrow> (\<exists>e. r = Inl e)"
    using assms by (auto simp: GetGenerator_def Let_def build_generator_def make_decryptor_def
        split: prod.splits sum.splits)
qed

end
