(* ===== verification/Merge.thy ===== *)
theory Merge
  imports Prelude
begin

text \<open>
  \<open>internal/generator/util.go\<close>: merging unstructured values. A Go map is an association list with
  distinct keys, in the order in which \<open>range\<close> visits it; the nil map, which reads as empty and panics
  when it is assigned to, is \<open>None\<close>. The merged maps are fresh results of unmarshalling, so that the
  maps they share are not observable and a nested map is a value.
\<close>

section \<open>Values\<close>

datatype scalar = SBool bool | SNumber string | SString string

datatype val =
    VNull
  | VScalar scalar
  | VList "val list"
  | VMap "(string \<times> val) list option"

type_synonym obj = "(string \<times> val) list"

fun entries :: "obj option \<Rightarrow> obj" where
  "entries None = []"
| "entries (Some m) = m"

definition nil_map_panic :: string where
  "nil_map_panic = ''assignment to entry in nil map''"

fun assign :: "obj option \<Rightarrow> string \<Rightarrow> val \<Rightarrow> obj option result" where
  "assign None k v = Inl (Panic nil_map_panic)"
| "assign (Some m) k v = Inr (Some (AList.update k v m))"

section \<open>Merging\<close>

text \<open>
  In the case of a map that meets a value of another kind, the code assigns the variable of the
  failed type assertion, the nil map.
\<close>

function deepMerge :: "obj option \<Rightarrow> obj \<Rightarrow> obj option result"
  and mergeEntry :: "obj option \<Rightarrow> string \<Rightarrow> val \<Rightarrow> obj option result" where
  "deepMerge x [] = Inr x"
| "deepMerge x ((k, w) # ys) =
     (case mergeEntry x k w of
        Inl fault \<Rightarrow> Inl fault
      | Inr x' \<Rightarrow> deepMerge x' ys)"
| "mergeEntry x k w =
     (case map_of (entries x) k of
        Some (VMap v) \<Rightarrow>
          (case w of
             VMap w' \<Rightarrow>
               (case deepMerge v (entries w') of
                  Inl fault \<Rightarrow> Inl fault
                | Inr v' \<Rightarrow> assign x k (VMap v'))
           | _ \<Rightarrow> assign x k (VMap None))
      | _ \<Rightarrow> assign x k w)"
  by pat_completeness auto

fun val_size :: "val \<Rightarrow> nat" and obj_size :: "obj \<Rightarrow> nat" where
  "val_size VNull = 1"
| "val_size (VScalar s) = 1"
| "val_size (VList vs) = 1"
| "val_size (VMap None) = 1"
| "val_size (VMap (Some m)) = Suc (obj_size m)"
| "obj_size [] = 0"
| "obj_size ((k, v) # m) = Suc (val_size v + obj_size m)"

lemma obj_size_entries: "obj_size (entries w) < val_size (VMap w)"
  by (cases w) simp_all

termination deepMerge
proof (relation "measure (\<lambda>c. case c of Inl (x, y) \<Rightarrow> 2 * obj_size y | Inr (x, k, w) \<Rightarrow> 2 * val_size w)")
  fix x :: "obj option" and k w ys x'
  show "(Inr (x, k, w), Inl (x, (k, w) # ys)) \<in>
      measure (\<lambda>c. case c of Inl (x, y) \<Rightarrow> 2 * obj_size y | Inr (x, k, w) \<Rightarrow> 2 * val_size w)" by simp
  show "(Inl (x', ys), Inl (x, (k, w) # ys)) \<in>
      measure (\<lambda>c. case c of Inl (x, y) \<Rightarrow> 2 * obj_size y | Inr (x, k, w) \<Rightarrow> 2 * val_size w)" by simp
next
  fix x :: "obj option" and k w v w' and v' :: "obj option"
  assume "w = VMap w'"
  then show "(Inl (v', entries w'), Inr (x, k, w)) \<in>
      measure (\<lambda>c. case c of Inl (x, y) \<Rightarrow> 2 * obj_size y | Inr (x, k, w) \<Rightarrow> 2 * val_size w)"
    using obj_size_entries [of w'] by simp
qed simp

definition shallowMerge :: "('k \<times> 'v) list \<Rightarrow> ('k \<times> 'v) list \<Rightarrow> ('k \<times> 'v) list" where
  "shallowMerge x y = fold (\<lambda>(k, v) m. AList.update k v m) y x"

declare mergeEntry.simps [simp del]

section \<open>What a merge yields\<close>

text \<open>One entry, without the loop: what becomes of the value under a key.\<close>

definition merged_value :: "val option \<Rightarrow> val \<Rightarrow> val result" where
  "merged_value old w =
     (case old of
        Some (VMap v) \<Rightarrow>
          (case w of
             VMap w' \<Rightarrow> map_sum id VMap (deepMerge v (entries w'))
           | _ \<Rightarrow> Inr (VMap None))
      | _ \<Rightarrow> Inr w)"

lemma mergeEntry_Some:
  "mergeEntry (Some m) k w = map_sum id (\<lambda>v. Some (AList.update k v m)) (merged_value (map_of m k) w)"
  by (auto simp: mergeEntry.simps merged_value_def split: option.splits val.splits sum.splits)

lemma deepMerge_Cons:
  "deepMerge (Some m) ((k, w) # ys) = (case merged_value (map_of m k) w of
     Inl fault \<Rightarrow> Inl fault
   | Inr u \<Rightarrow> deepMerge (Some (AList.update k u m)) ys)"
  by (simp add: mergeEntry_Some split: sum.splits)

lemma merged_value_not_map [simp]:
  "merged_value None w = Inr w" "(\<And>v. old \<noteq> VMap v) \<Longrightarrow> merged_value (Some old) w = Inr w"
  by (auto simp: merged_value_def split: val.splits)

text \<open>A merge into a map that is there returns such a map, and has the expected entries.\<close>

lemma deepMerge_Some:
  "deepMerge (Some m) y = Inr x \<Longrightarrow> distinct_keys y \<Longrightarrow>
     \<exists>m'. x = Some m' \<and> (\<forall>k. case map_of y k of
        None \<Rightarrow> map_of m' k = map_of m k
      | Some w \<Rightarrow> (\<exists>u. merged_value (map_of m k) w = Inr u \<and> map_of m' k = Some u))"
proof (induction y arbitrary: m)
  case (Cons kw y)
  obtain k w where kw: "kw = (k, w)" by (cases kw)
  from Cons.prems(1) kw obtain u
    where u: "merged_value (map_of m k) w = Inr u" and
      rest: "deepMerge (Some (AList.update k u m)) y = Inr x"
    by (auto simp: deepMerge_Cons simp del: deepMerge.simps split: sum.splits)
  from Cons.IH [OF rest] Cons.prems(2) obtain m' where m': "x = Some m'"
    "\<And>j. case map_of y j of
        None \<Rightarrow> map_of m' j = map_of (AList.update k u m) j
      | Some w \<Rightarrow> (\<exists>u'. merged_value (map_of (AList.update k u m) j) w = Inr u' \<and> map_of m' j = Some u')"
    by auto
  have "map_of y k = None" using Cons.prems(2) kw by (simp add: map_of_eq_None_iff)
  then have "case map_of (kw # y) j of
        None \<Rightarrow> map_of m' j = map_of m j
      | Some w \<Rightarrow> (\<exists>u. merged_value (map_of m j) w = Inr u \<and> map_of m' j = Some u)" for j
    using m'(2) [of j] u kw by (cases "j = k") (auto split: option.splits)
  with m'(1) show ?case by blast
qed auto

text \<open>Whether a merge panics: only assignments to nil maps do.\<close>

fun nil_free :: "val \<Rightarrow> bool" where
  "nil_free (VMap None) = False"
| "nil_free (VMap (Some m)) = (\<forall>kv \<in> set m. nil_free (snd kv))"
| "nil_free _ = True"

abbreviation nil_free_obj :: "obj \<Rightarrow> bool" where
  "nil_free_obj m \<equiv> \<forall>kv \<in> set m. nil_free (snd kv)"

lemma nil_free_lookup: "nil_free_obj m \<Longrightarrow> map_of m k = Some v \<Longrightarrow> nil_free v"
  by (metis map_of_SomeD snd_conv)

text \<open>Maps as Go has them, with distinct keys on every level.\<close>

fun distinct_val :: "val \<Rightarrow> bool" where
  "distinct_val (VMap (Some m)) \<longleftrightarrow> distinct_keys m \<and> (\<forall>kv \<in> set m. distinct_val (snd kv))"
| "distinct_val _ \<longleftrightarrow> True"

lemma deepMerge_no_panic:
  assumes "distinct_val (VMap (Some y))" "\<forall>k \<in> fst ` set y. \<forall>v. map_of m k = Some v \<longrightarrow> nil_free v"
  shows "\<exists>m'. deepMerge (Some m) y = Inr (Some m')"
  using assms
proof (induction y arbitrary: m rule: measure_induct_rule [where f = obj_size])
  case (less y)
  show ?case
  proof (cases y)
    case (Cons kw ys)
    obtain k w where kw: "kw = (k, w)" by (cases kw)
    have "\<exists>u. merged_value (map_of m k) w = Inr u"
    proof (cases "map_of m k")
      case (Some old)
      then have old: "nil_free old" using less.prems(2) Cons kw by auto
      show ?thesis
      proof (cases "(\<exists>v. old = VMap v) \<and> (\<exists>w'. w = VMap w')")
        case True
        then obtain v w' where vw: "old = VMap v" "w = VMap w'" by blast
        with old obtain mm where mm: "v = Some mm" by (cases v) auto
        have size: "obj_size (entries w') < obj_size y"
          using obj_size_entries [of w'] Cons kw vw by simp
        have "distinct_val (VMap (Some (entries w')))"
          using less.prems(1) Cons kw vw by (cases w') simp_all
        from less.IH [OF size this, of mm] old vw mm nil_free_lookup [of mm]
        obtain m'' where "deepMerge (Some mm) (entries w') = Inr (Some m'')" by auto
        with Some vw mm show ?thesis by (simp add: merged_value_def)
      next
        case False
        with Some show ?thesis by (auto simp: merged_value_def split: val.splits)
      qed
    qed simp
    then obtain u where u: "merged_value (map_of m k) w = Inr u" by blast
    have "k \<notin> fst ` set ys" using less.prems(1) Cons kw by simp
    then have "\<forall>j \<in> fst ` set ys. \<forall>v. map_of (AList.update k u m) j = Some v \<longrightarrow> nil_free v"
      using less.prems(2) Cons kw by auto
    with less.IH [of ys "AList.update k u m"] less.prems(1) Cons kw u show ?thesis
      by (simp add: deepMerge_Cons del: deepMerge.simps)
  qed simp
qed

section \<open>Layers\<close>

text \<open>
  Merging layers, seen from a client that looks values up afterwards: the last layer that has a key
  determines its value.
\<close>

locale layers =
  fixes merge :: "'m \<Rightarrow> 'm \<Rightarrow> 'm"
    and get :: "'m \<Rightarrow> 'k \<rightharpoonup> 'v"
    and valid :: "'m \<Rightarrow> bool"
  assumes get_merge: "valid y \<Longrightarrow> get (merge x y) = get x ++ get y"
begin

lemma get_layers:
  "\<forall>y \<in> set ys. valid y \<Longrightarrow> get (fold (\<lambda>y x. merge x y) ys x) = foldl (++) (get x) (map get ys)"
  by (induction ys arbitrary: x) (simp_all add: get_merge)

lemma last_layer_wins:
  assumes "\<forall>y \<in> set (ys @ y # zs). valid y" "get y k = Some v" "\<forall>z \<in> set zs. get z k = None"
  shows "get (fold (\<lambda>y x. merge x y) (ys @ y # zs) x) k = Some v"
proof -
  have "get (fold (\<lambda>y x. merge x y) zs x) k = get x k" if "\<forall>z \<in> set zs. valid z \<and> get z k = None" for x
    using that by (induction zs arbitrary: x) (simp_all add: get_merge map_add_def)
  with assms show ?thesis by (simp add: get_merge)
qed

lemma absent_key:
  assumes "\<forall>y \<in> set ys. valid y \<and> get y k = None"
  shows "get (fold (\<lambda>y x. merge x y) ys x) k = get x k"
  using assms by (induction ys arbitrary: x) (simp_all add: get_merge map_add_def)

end

lemma map_of_shallowMerge: "distinct_keys y \<Longrightarrow> map_of (shallowMerge x y) = map_of x ++ map_of y"
proof (induction y arbitrary: x)
  case (Cons kv y)
  obtain k v where kv: "kv = (k, v)" by (cases kv)
  with Cons.prems have "map_of y k = None" by (simp add: map_of_eq_None_iff)
  with Cons kv show ?case by (auto simp: shallowMerge_def map_add_def fun_eq_iff split: option.splits)
qed (simp add: shallowMerge_def)

interpretation shallow: layers shallowMerge map_of distinct_keys
  by unfold_locales (rule map_of_shallowMerge)

section \<open>Properties\<close>

text \<open>
  C38. \<open>deepMerge\<close> of a map into another one keeps the entries whose keys the second does not have, and
  merges the others key by key: nested maps recursively, and any other value replaces what was there,
  unless that is a map, which a value of another kind turns into the nil map.
\<close>

theorem deepMerge_entries:
  assumes "deepMerge (Some m) y = Inr x" "distinct_keys y"
  shows "\<exists>m'. x = Some m' \<and> (\<forall>k. map_of m' k = (case (map_of m k, map_of y k) of
     (old, None) \<Rightarrow> old
   | (Some (VMap v), Some (VMap w)) \<Rightarrow> (case deepMerge v (entries w) of Inr u \<Rightarrow> Some (VMap u) | Inl _ \<Rightarrow> None)
   | (Some (VMap v), Some w) \<Rightarrow> Some (VMap None)
   | (old, Some w) \<Rightarrow> Some w))"
proof -
  obtain m' where x: "x = Some m'" and e: "\<And>k. case map_of y k of
        None \<Rightarrow> map_of m' k = map_of m k
      | Some w \<Rightarrow> (\<exists>u. merged_value (map_of m k) w = Inr u \<and> map_of m' k = Some u)"
    using deepMerge_Some [OF assms] by blast
  have "map_of m' k = (case (map_of m k, map_of y k) of
     (old, None) \<Rightarrow> old
   | (Some (VMap v), Some (VMap w)) \<Rightarrow> (case deepMerge v (entries w) of Inr u \<Rightarrow> Some (VMap u) | Inl _ \<Rightarrow> None)
   | (Some (VMap v), Some w) \<Rightarrow> Some (VMap None)
   | (old, Some w) \<Rightarrow> Some w)" for k
    using e [of k] by (auto simp: merged_value_def split: option.splits val.splits sum.splits)
  with x show ?thesis by blast
qed

text \<open>
  Merging two layers never panics: when the first one has no nil map anywhere, as unmarshalled
  values have none below the top, the merge yields a map whatever the second layer is.
\<close>

theorem deepMerge_two_layers:
  assumes "nil_free_obj m" "distinct_val (VMap (Some y))"
  shows "\<exists>m'. deepMerge (Some m) y = Inr (Some m')"
  using deepMerge_no_panic [OF assms(2)] nil_free_lookup [OF assms(1)] by blast

text \<open>
  A third layer can panic: a value that is no map, merged over a map, is lost and leaves a nil
  map; a further layer with a non-empty map under the same key is then assigned to the nil map.
\<close>

theorem deepMerge_third_layer_panics:
  assumes "\<And>v. w \<noteq> VMap v"
  shows "deepMerge (Some [(k, VMap (Some v))]) [(k, w)] = Inr (Some [(k, VMap None)]) \<and>
    deepMerge (Some [(k, VMap None)]) [(k, VMap (Some ((j, u) # c)))] = Inl (Panic nil_map_panic)"
proof (cases w)
  case (VMap v)
  with assms show ?thesis by blast
qed (simp_all add: mergeEntry.simps)

text \<open>
  Of several substitution layers, the last one that defines a variable determines its value.
\<close>

theorem shallowMerge_last_layer_wins:
  assumes "\<forall>y \<in> set (ys @ y # zs). distinct_keys y" "map_of y k = Some v" "\<forall>z \<in> set zs. map_of z k = None"
  shows "map_of (fold (\<lambda>y x. shallowMerge x y) (ys @ y # zs) x) k = Some v"
  by (rule shallow.last_layer_wins [OF assms])

end
