(* ===== verification/Generator.thy ===== *)
theory Generator
  imports Factory Merge
begin

text \<open>
  \<open>internal/generator/generator.go\<close>: the generator of the component operator, which gets the generator of
  the component's source from the factory, merges the values, and wraps it with the post-build
  transformers. The manifests library (wrapping, transformers, rendering) and the YAML and JSON
  decoders are parameters.
\<close>

section \<open>Parameters\<close>

record ('f, 'g, 't, 'o) generator_env =
  geReconcilerName :: "error + string"
  geYaml :: "string \<Rightarrow> error + obj option"
  geJson :: "string \<Rightarrow> error + obj option"
  geNewSubstitution :: "(string \<times> string) list \<Rightarrow> ('o \<Rightarrow> bool) \<Rightarrow> error + 't"
  geNewKustomize :: "KustomizePatch list \<Rightarrow> KustomizeImage list \<Rightarrow> error + 't"
  geTransformable :: "'g \<Rightarrow> 'g"
  geWithTransformer :: "'t \<Rightarrow> 'g \<Rightarrow> 'g"
  geAnnotations :: "'o \<Rightarrow> (string \<times> string) list"
  geGenerate :: "'g \<Rightarrow> string \<Rightarrow> string \<Rightarrow> obj \<Rightarrow> error + 'o list"
  geFactory :: 'f

text \<open>\<open>NewGenerator\<close> makes a factory without generators; it never fails.\<close>

definition NewGenerator :: "error + 'g items" where "NewGenerator = Inr new_items"

section \<open>Values\<close>

fun merge_values_from ::
  "(string \<Rightarrow> error + obj option) \<Rightarrow> obj option \<Rightarrow> SecretKeyReference list \<Rightarrow> obj option result" where
  "merge_values_from yaml values [] = Inr values"
| "merge_values_from yaml values (ref # refs) =
     rbind (lift_error (yaml (skValue ref))) (\<lambda>v.
     rbind (deepMerge values (entries v)) (\<lambda>values.
     merge_values_from yaml values refs))"

definition merge_values :: "('f, 'g, 't, 'o) generator_env \<Rightarrow> ComponentSpec \<Rightarrow> obj option result" where
  "merge_values env spec =
     rbind (merge_values_from (geYaml env) (Some []) (spValuesFrom spec)) (\<lambda>values.
       case spValues spec of
         None \<Rightarrow> Inr values
       | Some raw \<Rightarrow>
         rbind (lift_error (geJson env raw)) (\<lambda>v. deepMerge values (entries v)))"

section \<open>Post-build transformers\<close>

text \<open>An object is substituted in unless its annotation disables it.\<close>

definition substitutable :: "('f, 'g, 't, 'o) generator_env \<Rightarrow> string \<Rightarrow> 'o \<Rightarrow> bool" where
  "substitutable env reconcilerName object \<longleftrightarrow>
     map_of (geAnnotations env object) (reconcilerName @ ''/disableSubstitution'') \<noteq> Some ''true''"

definition substitutions :: "PostBuild \<Rightarrow> (string \<times> string) list" where
  "substitutions postBuild =
     shallowMerge (fold (\<lambda>ref m. shallowMerge m (secData ref)) (pbSubstituteFrom postBuild) [])
       (pbSubstitute postBuild)"

definition add_substitution ::
  "('f, 'g, 't, 'o) generator_env \<Rightarrow> string \<Rightarrow> PostBuild \<Rightarrow> 'g \<Rightarrow> error + 'g" where
  "add_substitution env reconcilerName postBuild g =
     (if length (pbSubstitute postBuild) > 0 \<or> length (pbSubstituteFrom postBuild) > 0 then
        rbind (geNewSubstitution env (substitutions postBuild) (substitutable env reconcilerName))
          (\<lambda>t. Inr (geWithTransformer env t g))
      else Inr g)"

definition add_kustomization ::
  "('f, 'g, 't, 'o) generator_env \<Rightarrow> PostBuild \<Rightarrow> 'g \<Rightarrow> error + 'g" where
  "add_kustomization env postBuild g =
     (if length (pbPatches postBuild) > 0 \<or> length (pbImages postBuild) > 0 then
        rbind (geNewKustomize env (pbPatches postBuild) (pbImages postBuild))
          (\<lambda>t. Inr (geWithTransformer env t g))
      else Inr g)"

definition post_build :: "('f, 'g, 't, 'o) generator_env \<Rightarrow> string \<Rightarrow> PostBuild option \<Rightarrow> 'g \<Rightarrow> error + 'g" where
  "post_build env reconcilerName postBuild g = (case postBuild of
     None \<Rightarrow> Inr g
   | Some pb \<Rightarrow>
     rbind (add_substitution env reconcilerName pb (geTransformable env g)) (add_kustomization env pb))"

section \<open>Generate\<close>

definition decryption_of :: "ComponentSpec \<Rightarrow> string \<times> keys" where
  "decryption_of spec = (case spDecryption spec of
     None \<Rightarrow> ([], None)
   | Some d \<Rightarrow> (decProvider d, Some (secData (decSecretRef d))))"

definition render ::
  "('f, 'g, 't, 'o) generator_env \<Rightarrow> string \<Rightarrow> ComponentSpec \<Rightarrow> string \<Rightarrow> string \<Rightarrow> 'g \<Rightarrow> 'o list result" where
  "render env reconcilerName spec namespace name g =
     rbind (merge_values env spec) (\<lambda>values.
     rbind (lift_error (post_build env reconcilerName (spPostBuild spec) g)) (\<lambda>g.
     lift_error (geGenerate env g namespace name (entries values))))"

definition Generate ::
  "(('s, 'g, 'v, 'm, 'r, 'k, 'i) factory_env, 'g, 't, 'o) generator_env \<Rightarrow> 's \<Rightarrow> int \<Rightarrow> file_sys \<Rightarrow> 'g items \<Rightarrow>
     string \<Rightarrow> string \<Rightarrow> ComponentSpec \<Rightarrow> file_sys \<times> 'g items \<times> 'o list result" where
  "Generate env s now fs items namespace name spec =
     (case geReconcilerName env of
        Inl err \<Rightarrow> (fs, items, Inl (Err err))
      | Inr reconcilerName \<Rightarrow>
        (case SourceReference_Artifact (spSourceRef spec) of
           Inl fault \<Rightarrow> (fs, items, Inl fault)
         | Inr artifact \<Rightarrow>
           (case decryption_of spec of
              (provider, keys) \<Rightarrow>
                (case GetGenerator (geFactory env) s now fs items (artUrl artifact) (spPath spec)
                        (artDigest artifact) provider keys of
                   (fs', items', Inl err) \<Rightarrow> (fs', items', Inl (Err err))
                 | (fs', items', Inr g) \<Rightarrow>
                   (fs', items', render env reconcilerName spec namespace name g)))))"

text \<open>The file names kustomize is made to accept (\<open>uuuhhh.go\<close>): letters, digits and \<open>-_.:#\<close>.\<close>

definition legalFileName :: "string \<Rightarrow> bool" where
  "legalFileName s \<longleftrightarrow> s \<noteq> [] \<and> list_all (\<lambda>c. is_upper c \<or> is_lower c \<or> c \<in> digits \<or> c \<in> set ''-_.:#'') s"

section \<open>Properties\<close>

text \<open>
  The values a component is rendered with come from all layers in order: the references of
  \<open>valuesFrom\<close> one after the other, and the inline values on top; a key that is in the inline values and
  no map there gets the inline value, unless a map was there before.
\<close>

theorem inline_values_win:
  assumes "merge_values env spec = Inr values" "spValues spec = Some raw" "geJson env raw = Inr (Some v)"
    and "distinct_keys v" "map_of v k = Some w" "\<And>m. w \<noteq> VMap m"
  shows "\<exists>below. merge_values_from (geYaml env) (Some []) (spValuesFrom spec) = Inr below \<and>
    map_of (entries values) k =
      (case map_of (entries below) k of Some (VMap m) \<Rightarrow> Some (VMap None) | _ \<Rightarrow> Some w)"
proof -
  from assms(1-3) obtain below where b: "merge_values_from (geYaml env) (Some []) (spValuesFrom spec) = Inr below"
    and m: "deepMerge below v = Inr values" by (auto simp: merge_values_def result_iff)
  have some: "\<exists>m'. y = Some m'" if "deepMerge (Some m) x = Inr y" for m x y
    using that
  proof (induction x arbitrary: m)
    case (Cons kv x)
    obtain k v where "kv = (k, v)" by (cases kv)
    with Cons show ?case
      by (auto simp: deepMerge_Cons simp del: deepMerge.simps split: sum.splits)
  qed auto
  have "\<exists>m'. y = Some m'" if "merge_values_from f (Some m) refs = Inr y" for f m refs y
    using that
  proof (induction refs arbitrary: m)
    case (Cons ref refs)
    then obtain u values' where "deepMerge (Some m) (entries u) = Inr values'"
      "merge_values_from f values' refs = Inr y" by (auto simp: result_iff)
    with some Cons.IH show ?case by blast
  qed auto
  with b obtain bm where bm: "below = Some bm" by blast
  from deepMerge_Some [OF m [unfolded bm] assms(4)] obtain m' where v1: "values = Some m'"
    and e: "\<And>k. case map_of v k of None \<Rightarrow> map_of m' k = map_of bm k
      | Some w \<Rightarrow> (\<exists>u. merged_value (map_of bm k) w = Inr u \<and> map_of m' k = Some u)" by blast
  from e [of k] assms(5) have v: "\<exists>u. merged_value (map_of bm k) w = Inr u \<and> map_of m' k = Some u" by simp
  have "map_of m' k = (case map_of bm k of Some (VMap m) \<Rightarrow> Some (VMap None) | _ \<Rightarrow> Some w)"
    using v assms(6) by (auto simp: merged_value_def split: option.splits val.splits)
  with b bm v1 show ?thesis by simp
qed

text \<open>
  C39. Values of three layers can make \<open>Generate\<close> panic: a secret with a map under a key, a second one
  with another kind of value there, and inline values with a map again end in an assignment to a nil map.
\<close>

theorem values_can_panic:
  assumes "spValuesFrom spec = [ref1, ref2]" "spValues spec = Some raw"
    and "geYaml env (skValue ref1) = Inr (Some [(k, VMap (Some v))])"
    and "geYaml env (skValue ref2) = Inr (Some [(k, w)])" "\<And>m. w \<noteq> VMap m"
    and "geJson env raw = Inr (Some [(k, VMap (Some ((j, u) # c)))])"
  shows "merge_values env spec = Inl (Panic nil_map_panic)"
proof -
  have "deepMerge (Some [(k, VMap (Some v))]) [(k, w)] = Inr (Some [(k, VMap None)])"
    using assms(5) by (cases w) (auto simp: mergeEntry.simps)
  then show ?thesis
    using assms(1-4,6) by (simp add: merge_values_def mergeEntry.simps)
qed

text \<open>
  Inline substitutions override those of the referenced secrets, and a later secret overrides an
  earlier one: a variable has the value of the last layer that defines it.
\<close>

theorem substitutions_layers:
  assumes "\<forall>ref \<in> set (pbSubstituteFrom pb). distinct_keys (secData ref)" "distinct_keys (pbSubstitute pb)"
  shows "map_of (substitutions pb) =
    foldl (++) Map.empty (map (\<lambda>ref. map_of (secData ref)) (pbSubstituteFrom pb)) ++ map_of (pbSubstitute pb)"
proof -
  have "fold (\<lambda>ref m. shallowMerge m (secData ref)) refs x = fold (\<lambda>y x. shallowMerge x y) (map secData refs) x" for refs x
    by (simp add: fold_map o_def)
  from this [of "pbSubstituteFrom pb" "[]"] show ?thesis
    using assms shallow.get_layers [of "map secData (pbSubstituteFrom pb)" "[]"]
    by (simp add: substitutions_def shallow.get_merge o_def)
qed

text \<open>
  \<open>Generate\<close> succeeds exactly when each stage does: the name is in the context, the source is
  loaded, the factory has or builds a generator for its artifact, and rendering with the merged
  values works; an unloaded source is a panic before the factory is asked.
\<close>

theorem Generate_stages:
  "Generate env s now fs items namespace name spec = (fs', items', Inr objs) \<longleftrightarrow>
    (\<exists>reconcilerName artifact g provider keys values.
       geReconcilerName env = Inr reconcilerName \<and> srLoaded (spSourceRef spec) \<and>
       srArtifact (spSourceRef spec) = artifact \<and> decryption_of spec = (provider, keys) \<and>
       GetGenerator (geFactory env) s now fs items (artUrl artifact) (spPath spec) (artDigest artifact)
         provider keys = (fs', items', Inr g) \<and>
       merge_values env spec = Inr values \<and>
       (\<exists>g'. post_build env reconcilerName (spPostBuild spec) g = Inr g' \<and>
          geGenerate env g' namespace name (entries values) = Inr objs))"
  by (auto simp: Generate_def SourceReference_Artifact_def render_def result_iff
      split: sum.splits prod.splits if_splits)

end
