(* ===== verification/Schemes.thy ===== *)
theory Schemes
  imports ApiTypes
begin

text \<open>
  The registration of the API types (\<open>api/v1alpha1/groupversion_info.go\<close>, the \<open>init\<close> function of
  \<open>types.go\<close>), and the schemes that are built from it: the operator's (\<open>InitScheme\<close> in \<open>pkg/operator\<close>) and
  those of the generated client sets. Schemes and their builders are library code and parameters; types are
  given by their names.
\<close>

section \<open>The builder of the API types\<close>

record ('b, 'm) builder_lib =
  blNew :: "string \<times> string \<Rightarrow> 'b"
  blRegister :: "string list \<Rightarrow> 'b \<Rightarrow> 'b"
  blAddToScheme :: "'b \<Rightarrow> 'm \<Rightarrow> 'm \<times> error option"

definition GroupVersion :: "string \<times> string" where
  "GroupVersion = (GroupVersion_Group, GroupVersion_Version)"

definition SchemeGroupVersion :: "string \<times> string" where "SchemeGroupVersion = GroupVersion"

definition registered_types :: "string list list" where
  "registered_types = [[''Component'', ''ComponentList''], [''Blueprint'', ''BlueprintList''],
     [''BlueprintVersion'', ''BlueprintVersionList'']]"

text \<open>The builder after the package is initialised.\<close>

definition SchemeBuilder :: "('b, 'm) builder_lib \<Rightarrow> 'b" where
  "SchemeBuilder lib = fold (blRegister lib) registered_types (blNew lib GroupVersion)"

definition AddToScheme :: "('b, 'm) builder_lib \<Rightarrow> 'm \<Rightarrow> 'm \<times> error option" where
  "AddToScheme lib = blAddToScheme lib (SchemeBuilder lib)"

section \<open>Schemes\<close>

text \<open>An error is a panic with its message.\<close>

definition Must :: "(error \<Rightarrow> string) \<Rightarrow> 'm \<times> error option \<Rightarrow> 'm result" where
  "Must message r = (case r of (scheme, Some err) \<Rightarrow> Inl (Panic (message err)) | (scheme, None) \<Rightarrow> Inr scheme)"

text \<open>
  \<open>InitScheme\<close> adds the types of client-go, of the program and of flux, one after the other; \<open>main\<close> calls it
  before it starts.
\<close>

definition InitScheme ::
  "('m \<Rightarrow> 'm \<times> error option) \<Rightarrow> ('b, 'm) builder_lib \<Rightarrow> ('m \<Rightarrow> 'm \<times> error option) \<Rightarrow> (error \<Rightarrow> string) \<Rightarrow> 'm \<Rightarrow> 'm result" where
  "InitScheme clientgo_AddToScheme lib flux_AddToScheme message scheme =
     rbind (Must message (clientgo_AddToScheme scheme)) (\<lambda>scheme.
     rbind (Must message (AddToScheme lib scheme)) (\<lambda>scheme.
     Must message (flux_AddToScheme scheme)))"

text \<open>The schemes of the client set and of the fake client set, as their packages initialise them.\<close>

record 'm runtime_lib =
  rtNewScheme :: 'm
  rtApply :: "('m \<Rightarrow> 'm \<times> error option) list \<Rightarrow> 'm \<Rightarrow> 'm \<times> error option"
  rtAddToGroupVersion :: "string \<times> string \<Rightarrow> 'm \<Rightarrow> 'm"

definition clientset_AddToScheme :: "'m runtime_lib \<Rightarrow> ('b, 'm) builder_lib \<Rightarrow> 'm \<Rightarrow> 'm \<times> error option" where
  "clientset_AddToScheme rt lib = rtApply rt [AddToScheme lib]"

definition clientset_Scheme :: "'m runtime_lib \<Rightarrow> ('b, 'm) builder_lib \<Rightarrow> (error \<Rightarrow> string) \<Rightarrow> 'm result" where
  "clientset_Scheme rt lib message =
     (let scheme = rtAddToGroupVersion rt ([], ''v1'') (rtNewScheme rt)
      in Must message (clientset_AddToScheme rt lib scheme))"

definition fake_AddToScheme :: "'m runtime_lib \<Rightarrow> ('b, 'm) builder_lib \<Rightarrow> 'm \<Rightarrow> 'm \<times> error option" where
  "fake_AddToScheme rt lib = rtApply rt [AddToScheme lib]"

definition fake_scheme :: "'m runtime_lib \<Rightarrow> ('b, 'm) builder_lib \<Rightarrow> (error \<Rightarrow> string) \<Rightarrow> 'm result" where
  "fake_scheme rt lib message =
     (let scheme = rtAddToGroupVersion rt ([], ''v1'') (rtNewScheme rt)
      in Must message (fake_AddToScheme rt lib scheme))"

lemma Must_Inr [result_iff]: "Must message r = Inr scheme \<longleftrightarrow> r = (scheme, None)"
  by (cases r) (auto simp: Must_def split: option.splits)

text \<open>
  The operator comes up with a scheme exactly when all three groups of types can be added, and the program's
  are added to a scheme that has those of client-go.
\<close>

theorem InitScheme_adds_all:
  "InitScheme clientgo lib flux message scheme = Inr s \<longleftrightarrow>
     (\<exists>s1 s2. clientgo scheme = (s1, None) \<and> blAddToScheme lib (SchemeBuilder lib) s1 = (s2, None) \<and> flux s2 = (s, None))"
  by (simp add: InitScheme_def AddToScheme_def result_iff)

end
