(* ===== verification/Operator.thy ===== *)
theory Operator
  imports BlueprintController Checker Hooks Generator Schemes
begin

text \<open>
  How the parts are put together: the options and flags of the operator (\<open>pkg/operator/operator.go\<close>),
  the registration of the component controller (\<open>internal/controllers/component/reconciler.go\<close>) and of the
  blueprint controller, and \<open>main.go\<close>. The manager, the flag parser and the reconciler framework are
  parameters on an abstract manager state.
\<close>

section \<open>Options and flags\<close>

record Options =
  opName :: string
  opDefaultServiceAccount :: string
  opMaxConcurrentReconciles :: int
  opEventsAddress :: string
  opFlagPrefix :: string

definition MaxConcurrentReconciles :: int where "MaxConcurrentReconciles = 5"

definition no_options :: Options where
  "no_options = \<lparr>opName = [], opDefaultServiceAccount = [], opMaxConcurrentReconciles = 0,
     opEventsAddress = [], opFlagPrefix = []\<rparr>"

definition NewWithOptions :: "Options \<Rightarrow> Options" where
  "NewWithOptions options =
     (let o1 = (if opName options = [] then options\<lparr>opName := meta_Name\<rparr> else options) in
      if opMaxConcurrentReconciles o1 = 0 then o1\<lparr>opMaxConcurrentReconciles := MaxConcurrentReconciles\<rparr> else o1)"

definition New :: Options where "New = NewWithOptions no_options"

definition GetName :: "Options \<Rightarrow> string" where "GetName o1 = opName o1"

text \<open>The functions of the package work on a default operator.\<close>

definition defaultOperator :: Options where "defaultOperator = New"

text \<open>The flags of the command line, already split into names and values of the flag's type.\<close>

datatype flag_value = StringFlag string | IntFlag int | BoolFlag bool

fun set_flag :: "string \<times> flag_value \<Rightarrow> Options \<Rightarrow> Options" where
  "set_flag (n, StringFlag v) o1 =
     (if n = ''default-service-account'' then o1\<lparr>opDefaultServiceAccount := v\<rparr>
      else if n = ''events-address'' then o1\<lparr>opEventsAddress := v\<rparr> else o1)"
| "set_flag (n, IntFlag v) o1 =
     (if n = ''max-concurrent-reconciles'' then o1\<lparr>opMaxConcurrentReconciles := v\<rparr> else o1)"
| "set_flag (n, BoolFlag v) o1 = o1"

text \<open>\<open>InitFlags\<close> registers the flags with the current options as defaults; parsing then sets them.\<close>

definition InitFlags :: "Options \<Rightarrow> (string \<times> flag_value) list" where
  "InitFlags o1 =
     [(''default-service-account'', StringFlag (opDefaultServiceAccount o1)),
      (''max-concurrent-reconciles'', IntFlag (opMaxConcurrentReconciles o1)),
      (''events-address'', StringFlag (opEventsAddress o1))]"

definition parse_flags :: "Options \<Rightarrow> (string \<times> flag_value) list \<Rightarrow> Options" where
  "parse_flags o1 args = fold set_flag args (fold set_flag (InitFlags o1) o1)"

definition ValidateFlags :: "Options \<Rightarrow> error option" where "ValidateFlags o1 = None"

definition GetUncacheableTypes :: "string list" where
  "GetUncacheableTypes = [KindComponent, KindBlueprint, KindBlueprintVersion]"

section \<open>The component controller\<close>

datatype watched =
    ComponentEv "Component event"
  | BlueprintEv "Blueprint event"
  | FluxEv "FluxSource event"

text \<open>The four kinds of flux sources are watched with the same handler.\<close>

fun component_watches ::
  "(string \<Rightarrow> string \<Rightarrow> string) \<Rightarrow> cache_list \<Rightarrow> watched \<Rightarrow> queue \<Rightarrow> queue" where
  "component_watches key clist (ComponentEv ev) q = newComponentHandler key clist ev q"
| "component_watches key clist (BlueprintEv ev) q = newBlueprintHandler key clist ev q"
| "component_watches key clist (FluxEv ev) q = newFluxSourceHandler key clist ev q"

text \<open>
  What is handed to the reconciler framework: names and numbers, the resource generator (its store of
  generators, which is new), the function that wraps the clients it makes, the watches and the hooks.
\<close>

datatype update_policy = UpdatePolicySsaOverride | OtherUpdatePolicy string

record ('g, 'c) component_reconciler =
  crName :: string
  crResourceGenerator :: "'g items"
  crDefaultServiceAccount :: string
  crUpdatePolicy :: update_policy
  crNewClient :: "'c \<Rightarrow> error + 'c"
  crMaxConcurrentReconciles :: int
  crWatches :: "(string \<Rightarrow> string \<Rightarrow> string) \<Rightarrow> cache_list \<Rightarrow> watched \<Rightarrow> queue \<Rightarrow> queue"
  crPostRead :: "Component \<Rightarrow> unit result"
  crPreReconcile :: "(NamespacedName \<Rightarrow> error + Component) \<Rightarrow> Component \<Rightarrow> Component \<times> unit result"
  crPostReconcile :: "Component \<Rightarrow> Component"
  crPreDelete :: "(string \<Rightarrow> string \<Rightarrow> string) \<Rightarrow> cache_list \<Rightarrow> Component \<Rightarrow> unit result"

record ReconcilerOptions =
  roName :: string
  roDefaultServiceAccount :: string
  roMaxConcurrentReconciles :: int
  roEventsAddress :: string

text \<open>How a wrapped client is made: the recorder for an address and a name, and the client with it.\<close>

record ('c, 'e) client_lib =
  cbNewRecorder :: "'c \<Rightarrow> string \<Rightarrow> string \<Rightarrow> error + 'e"
  cbWithRecorder :: "'c \<Rightarrow> 'e \<Rightarrow> 'c"

definition newClient :: "('c, 'e) client_lib \<Rightarrow> ReconcilerOptions \<Rightarrow> 'c \<Rightarrow> error + 'c" where
  "newClient lib options clnt =
     (if roEventsAddress options = [] then Inr clnt
      else (case cbNewRecorder lib clnt (roEventsAddress options) (roName options) of
          Inl err \<Rightarrow> Inl (Wrap err ''error initializing wrapping event recorder'')
        | Inr eventRecorder \<Rightarrow> Inr (cbWithRecorder lib clnt eventRecorder)))"

definition component_controller ::
  "('c, 'e) client_lib \<Rightarrow> ReconcilerOptions \<Rightarrow> 'g items \<Rightarrow> ('g, 'c) component_reconciler" where
  "component_controller lib options resourceGenerator =
     \<lparr>crName = roName options, crResourceGenerator = resourceGenerator,
      crDefaultServiceAccount = roDefaultServiceAccount options,
      crUpdatePolicy = UpdatePolicySsaOverride, crNewClient = newClient lib options,
      crMaxConcurrentReconciles = roMaxConcurrentReconciles options, crWatches = component_watches,
      crPostRead = makeFuncPostRead, crPreReconcile = makeFuncPreReconcile,
      crPostReconcile = makeFuncPostReconcile, crPreDelete = makeFuncPreDelete\<rparr>"

definition component_SetupWithManager ::
  "('c, 'e) client_lib \<Rightarrow> (('g, 'c) component_reconciler \<Rightarrow> 's \<Rightarrow> 's \<times> error option) \<Rightarrow> ReconcilerOptions \<Rightarrow> 's \<Rightarrow>
     's \<times> (error + ('g, 'c) component_reconciler)" where
  "component_SetupWithManager lib register options s =
     (case NewGenerator of
        Inl err \<Rightarrow> (s, Inl (Wrap err ''error initializing resource generator''))
      | Inr resourceGenerator \<Rightarrow>
        (let r = component_controller lib options resourceGenerator in
         case register r s of
           (s', Some err) \<Rightarrow> (s', Inl (Wrap err ''unable to create component controller''))
         | (s', None) \<Rightarrow> (s', Inr r)))"

section \<open>The blueprint controller\<close>

text \<open>
  The controller of the blueprints, started by changes of their generation or annotations and by events of
  their versions. The predicates are the library's, by name.
\<close>

datatype watch_predicate = GenerationChangedPredicate | AnnotationChangedPredicate | OrPredicate "watch_predicate list"

record 'k blueprint_controller =
  bcRecorder :: string
  bcPredicate :: watch_predicate
  bcVersionWatch :: "cache_list \<Rightarrow> BlueprintVersion event \<Rightarrow> queue \<Rightarrow> queue"
  bcReconcile :: "blueprint_lib \<Rightarrow> 'k client \<Rightarrow> cache_list \<Rightarrow> 'k \<Rightarrow> NamespacedName \<Rightarrow> 'k \<times> recorded_event list \<times> int result"

definition blueprint_SetupWithManager ::
  "('k blueprint_controller \<Rightarrow> 's \<Rightarrow> 's \<times> error option) \<Rightarrow> blueprint_ReconcilerOptions \<Rightarrow> 's \<Rightarrow> 's \<times> error option" where
  "blueprint_SetupWithManager register options s =
     register \<lparr>bcRecorder = brName options, bcPredicate = OrPredicate [GenerationChangedPredicate, AnnotationChangedPredicate],
       bcVersionWatch = newBlueprintVersionHandler,
       bcReconcile = (\<lambda>lib clnt cache. Reconcile (newReconciler lib clnt cache))\<rparr> s"

section \<open>Setup\<close>

text \<open>The calls into the manager: registering an index field, the two controllers, and a runnable.\<close>

record ('s, 'c, 'e, 'g, 'k) manager_ops =
  moIndexField :: "'s \<Rightarrow> string \<Rightarrow> index_func \<Rightarrow> 's \<times> error option"
  moClientLib :: "('c, 'e) client_lib"
  moRegisterComponents :: "('g, 'c) component_reconciler \<Rightarrow> 's \<Rightarrow> 's \<times> error option"
  moRegisterBlueprints :: "'k blueprint_controller \<Rightarrow> 's \<Rightarrow> 's \<times> error option"
  moGetCache :: "nat \<Rightarrow> cache_list"
  moAddChecker :: "('g, 'c) component_reconciler \<Rightarrow> ((nat \<Rightarrow> http_env) \<Rightarrow> checker_env) \<Rightarrow> 's \<Rightarrow> 's \<times> error option"

definition component_options :: "Options \<Rightarrow> ReconcilerOptions" where
  "component_options o1 = \<lparr>roName = opName o1, roDefaultServiceAccount = opDefaultServiceAccount o1,
     roMaxConcurrentReconciles = opMaxConcurrentReconciles o1, roEventsAddress = opEventsAddress o1\<rparr>"

definition cache_failure :: string where "cache_failure = ''error configuring component cache''"
definition component_failure :: string where "component_failure = ''error registering component controller''"
definition blueprint_failure :: string where "blueprint_failure = ''error registering blueprint controller''"
definition checker_failure :: string where "checker_failure = ''error registering http repository checker''"

definition Setup :: "('s, 'c, 'e, 'g, 'k) manager_ops \<Rightarrow> Options \<Rightarrow> 's \<Rightarrow> 's \<times> error option" where
  "Setup mgr options s =
     (case cache_SetupWithManager (moIndexField mgr) s of
        (s1, Some err) \<Rightarrow> (s1, Some (Wrap err cache_failure))
      | (s1, None) \<Rightarrow>
        (case component_SetupWithManager (moClientLib mgr) (moRegisterComponents mgr) (component_options options) s1 of
           (s2, Inl err) \<Rightarrow> (s2, Some (Wrap err component_failure))
         | (s2, Inr componentReconciler) \<Rightarrow>
           (case blueprint_SetupWithManager (moRegisterBlueprints mgr) \<lparr>brName = opName options\<rparr> s2 of
              (s3, Some err) \<Rightarrow> (s3, Some (Wrap err blueprint_failure))
            | (s3, None) \<Rightarrow>
              (case checker_SetupWithManager (moAddChecker mgr componentReconciler) (moGetCache mgr) s3 of
                 (s4, Some err) \<Rightarrow> (s4, Some (Wrap err checker_failure))
               | (s4, None) \<Rightarrow> (s4, None)))))"

section \<open>The functions of the package\<close>

text \<open>
  Each works on the default operator, which is the state of the package: new at the start, and changed when the
  registered flags are parsed.
\<close>

definition operator_GetName :: "Options \<Rightarrow> string" where
  "operator_GetName default_operator = GetName default_operator"

definition operator_InitScheme ::
  "('m \<Rightarrow> 'm \<times> error option) \<Rightarrow> ('b, 'm) builder_lib \<Rightarrow> ('m \<Rightarrow> 'm \<times> error option) \<Rightarrow> (error \<Rightarrow> string) \<Rightarrow> 'm \<Rightarrow> 'm result" where
  "operator_InitScheme clientgo_AddToScheme lib flux_AddToScheme message scheme =
     InitScheme clientgo_AddToScheme lib flux_AddToScheme message scheme"

definition operator_InitFlags :: "Options \<Rightarrow> (string \<times> flag_value) list" where
  "operator_InitFlags default_operator = InitFlags default_operator"

definition operator_ValidateFlags :: "Options \<Rightarrow> error option" where
  "operator_ValidateFlags default_operator = ValidateFlags default_operator"

definition operator_GetUncacheableTypes :: "string list" where
  "operator_GetUncacheableTypes = GetUncacheableTypes"

definition operator_Setup :: "('s, 'c, 'e, 'g, 'k) manager_ops \<Rightarrow> Options \<Rightarrow> 's \<Rightarrow> 's \<times> error option" where
  "operator_Setup mgr default_operator s = Setup mgr default_operator s"

section \<open>The main function\<close>

text \<open>The scheme of the program, before \<open>main\<close> is entered.\<close>

definition main_init ::
  "'m runtime_lib \<Rightarrow> ('m \<Rightarrow> 'm \<times> error option) \<Rightarrow> ('b, 'm) builder_lib \<Rightarrow> ('m \<Rightarrow> 'm \<times> error option) \<Rightarrow> (error \<Rightarrow> string) \<Rightarrow> 'm result" where
  "main_init rt clientgo_AddToScheme lib flux_AddToScheme message =
     operator_InitScheme clientgo_AddToScheme lib flux_AddToScheme message (rtNewScheme rt)"

record manager_options =
  mnDisableFor :: "string list"
  mnLeaderElection :: bool
  mnLeaderElectionID :: string
  mnLeaderElectionReleaseOnCancel :: bool
  mnMetricsBindAddress :: string
  mnHealthProbeBindAddress :: string

record ('s, 'c, 'e, 'g, 'k) main_ops =
  maNewManager :: "manager_options \<Rightarrow> error + 's"
  maManager :: "('s, 'c, 'e, 'g, 'k) manager_ops"
  maAddHealthzCheck :: "string \<Rightarrow> 's \<Rightarrow> 's \<times> error option"
  maAddReadyzCheck :: "string \<Rightarrow> 's \<Rightarrow> 's \<times> error option"
  maStart :: "'s \<Rightarrow> 's \<times> error option"

datatype exit = Exit int string "error option"

definition flag_bool :: "(string \<times> flag_value) list \<Rightarrow> string \<Rightarrow> bool \<Rightarrow> bool" where
  "flag_bool args n d = fold (\<lambda>(m, v) b. case v of BoolFlag x \<Rightarrow> if m = n then x else b | _ \<Rightarrow> b) args d"

definition flag_string :: "(string \<times> flag_value) list \<Rightarrow> string \<Rightarrow> string \<Rightarrow> string" where
  "flag_string args n d = fold (\<lambda>(m, v) b. case v of StringFlag x \<Rightarrow> if m = n then x else b | _ \<Rightarrow> b) args d"

definition manager_settings :: "Options \<Rightarrow> (string \<times> flag_value) list \<Rightarrow> manager_options" where
  "manager_settings options args =
     \<lparr>mnDisableFor = operator_GetUncacheableTypes, mnLeaderElection = flag_bool args ''leader-elect'' False,
      mnLeaderElectionID = operator_GetName options, mnLeaderElectionReleaseOnCancel = True,
      mnMetricsBindAddress = flag_string args ''metrics-bind-address'' '':8080'',
      mnHealthProbeBindAddress = flag_string args ''health-probe-bind-address'' '':8081''\<rparr>"

definition main :: "('s, 'c, 'e, 'g, 'k) main_ops \<Rightarrow> (string \<times> flag_value) list \<Rightarrow> exit" where
  "main ops args =
     (let options = parse_flags defaultOperator args in
      case operator_ValidateFlags options of
        Some err \<Rightarrow> Exit 1 ''error validating command line flags'' (Some err)
      | None \<Rightarrow>
        (case maNewManager ops (manager_settings options args) of
           Inl err \<Rightarrow> Exit 1 ''unable to start manager'' (Some err)
         | Inr s \<Rightarrow>
           (case operator_Setup (maManager ops) options s of
              (s1, Some err) \<Rightarrow> Exit 1 ''error registering controller with manager'' (Some err)
            | (s1, None) \<Rightarrow>
              (case maAddHealthzCheck ops ''healthz'' s1 of
                 (s2, Some err) \<Rightarrow> Exit 1 ''unable to set up health check'' (Some err)
               | (s2, None) \<Rightarrow>
                 (case maAddReadyzCheck ops ''readyz'' s2 of
                    (s3, Some err) \<Rightarrow> Exit 1 ''unable to set up ready check'' (Some err)
                  | (s3, None) \<Rightarrow>
                    (case maStart ops s3 of
                       (s4, Some err) \<Rightarrow> Exit 1 ''problem running manager'' (Some err)
                     | (s4, None) \<Rightarrow> Exit 0 [] None))))))"

section \<open>Properties\<close>

lemma set_flag_other [simp]:
  "opName (set_flag f o1) = opName o1" "opFlagPrefix (set_flag f o1) = opFlagPrefix o1"
  by (cases "(f, o1)" rule: set_flag.cases; simp)+

lemma fold_set_flag_other [simp]:
  "opName (fold set_flag fs o1) = opName o1" "opFlagPrefix (fold set_flag fs o1) = opFlagPrefix o1"
  by (induction fs arbitrary: o1) simp_all

text \<open>
  Registering the flags does not change the options, and a command line without the operator's
  flags leaves the defaults of \<open>NewWithOptions\<close>: a name, and a positive number of workers.
\<close>

theorem flags_keep_defaults:
  "parse_flags o1 [] = o1 \<and> opName (parse_flags (NewWithOptions o1) args) \<noteq> [] \<and>
   opMaxConcurrentReconciles (NewWithOptions o1) \<noteq> 0 \<and> NewWithOptions (NewWithOptions o1) = NewWithOptions o1"
  by (cases o1)
    (auto simp: parse_flags_def InitFlags_def NewWithOptions_def Let_def meta_Name_def MaxConcurrentReconciles_def)

text \<open>
  \<open>Setup\<close> runs its four steps in order and stops at the first that fails, with the manager as that
  step left it and an error that names the step; the indexes are thus complete before any controller exists.
\<close>

theorem Setup_stops_at_first_failure:
  assumes "Setup mgr options s = (s', Some e)"
  shows "\<exists>err. (cache_SetupWithManager (moIndexField mgr) s = (s', Some err) \<and> e = Wrap err cache_failure) \<or>
    (\<exists>s1. cache_SetupWithManager (moIndexField mgr) s = (s1, None) \<and>
       ((component_SetupWithManager (moClientLib mgr) (moRegisterComponents mgr) (component_options options) s1 = (s', Inl err) \<and>
           e = Wrap err component_failure) \<or>
        (\<exists>s2 r. component_SetupWithManager (moClientLib mgr) (moRegisterComponents mgr) (component_options options) s1 = (s2, Inr r) \<and>
           blueprint_SetupWithManager (moRegisterBlueprints mgr) \<lparr>brName = opName options\<rparr> s2 = (s', Some err) \<and> e = Wrap err blueprint_failure)))"
  using assms
  by (auto simp: Setup_def checker_SetupWithManager_def split: prod.splits option.splits sum.splits)

end
