(* ===== verification/System.thy ===== *)
theory System
  imports Operator
begin

text \<open>
  The two controllers at work on one cluster: components are loaded and their status is written, blueprints
  are reconciled, and users change components, in any order. The step relation interleaves \<open>Load\<close>, the
  write of the status it produced, and \<open>Reconcile\<close> of the blueprint controller; between a load and the write
  of its status other steps may happen. The API server stays a parameter, with the laws of
  \<open>keeps_versions\<close> for what its calls do to blueprint versions.
\<close>

section \<open>Blueprint versions in the cluster\<close>

definition version_exists :: "'s client \<Rightarrow> 's \<Rightarrow> NamespacedName \<Rightarrow> bool" where
  "version_exists clnt s n \<longleftrightarrow> (\<exists>v. clGetVersion clnt s n = Inr v)"

text \<open>
  An applied version exists, a deletion removes no other version, and writing a blueprint leaves the versions
  alone; a failed call may have been carried out or not.
\<close>

definition keeps_versions :: "'s client \<Rightarrow> bool" where
  "keeps_versions clnt \<longleftrightarrow>
     (\<forall>s v s'. clApplyVersion clnt s v = (s', None) \<longrightarrow> version_exists clnt s' (version_key v)) \<and>
     (\<forall>s v s' e n. clApplyVersion clnt s v = (s', e) \<longrightarrow> version_exists clnt s n \<longrightarrow> version_exists clnt s' n) \<and>
     (\<forall>s b s' r n. clUpdateBlueprint clnt s b = (s', r) \<longrightarrow> version_exists clnt s n \<longrightarrow> version_exists clnt s' n) \<and>
     (\<forall>s v s' e n. clDeleteVersion clnt s v = (s', e) \<longrightarrow> n \<noteq> version_key v \<longrightarrow>
        version_exists clnt s n \<longrightarrow> version_exists clnt s' n) \<and>
     (\<forall>s ns n vs. clListVersions clnt s ns n = Inr vs \<longrightarrow> plain_versions vs)"

lemma keeps_versionsD:
  assumes "keeps_versions clnt"
  shows "clApplyVersion clnt s v = (s', None) \<Longrightarrow> version_exists clnt s' (version_key v)"
    and "clApplyVersion clnt s v = (s', e) \<Longrightarrow> version_exists clnt s n \<Longrightarrow> version_exists clnt s' n"
    and "clUpdateBlueprint clnt s b = (s', r) \<Longrightarrow> version_exists clnt s n \<Longrightarrow> version_exists clnt s' n"
    and "clDeleteVersion clnt s v = (s', e) \<Longrightarrow> n \<noteq> version_key v \<Longrightarrow> version_exists clnt s n \<Longrightarrow>
      version_exists clnt s' n"
    and "clListVersions clnt s ns m = Inr vs \<Longrightarrow> plain_versions vs"
  using assms unfolding keeps_versions_def by metis+

text \<open>The version that a component's reference and status name, in the namespace it resolves to.\<close>

definition used_by :: "Component \<Rightarrow> NamespacedName \<Rightarrow> bool" where
  "used_by c n \<longleftrightarrow> (\<exists>r \<in> set (version_refs c). WithDefaultNamespace r (coNamespace c) = n)"

definition in_use :: "Component list \<Rightarrow> NamespacedName \<Rightarrow> bool" where
  "in_use store n \<longleftrightarrow> (\<exists>c \<in> set store. used_by c n)"

lemma version_in_use_key: "version_in_use (set store) v \<longleftrightarrow> in_use store (version_key v)"
  by (auto simp: version_in_use_def in_use_def used_by_def resolves_to_def version_key_def)

section \<open>Steps\<close>

text \<open>
  The cluster, the components as they are stored and cached, and the components whose \<open>Load\<close> has
  succeeded and whose status is still to be written.
\<close>

record 's operator_state =
  osCluster :: 's
  osStore :: "Component list"
  osLoading :: "Component list"

text \<open>Writing a status replaces it in the stored object of the same name, if that still exists.\<close>

definition write_status :: "Component \<Rightarrow> Component list \<Rightarrow> Component list" where
  "write_status c store = map (\<lambda>d.
     if Component_NamespacedName d = Component_NamespacedName c then d\<lparr>coStatus := coStatus c\<rparr> else d) store"

inductive operator_step ::
  "'s client \<Rightarrow> http_env \<Rightarrow> 's operator_state \<Rightarrow> 's operator_state \<Rightarrow> bool" for clnt http where
  Loading: "c \<in> set (osStore st) \<Longrightarrow> Load clnt http (osCluster st) (coSourceRef c) c = Some (s', Inr (r', c')) \<Longrightarrow>
     operator_step clnt http st (st\<lparr>osCluster := s', osLoading := c' # osLoading st\<rparr>)"
| LoadFails: "c \<in> set (osStore st) \<Longrightarrow> Load clnt http (osCluster st) (coSourceRef c) c = Some (s', Inl f) \<Longrightarrow>
     operator_step clnt http st (st\<lparr>osCluster := s'\<rparr>)"
| Writing: "c \<in> set (osLoading st) \<Longrightarrow>
     operator_step clnt http st
       (st\<lparr>osStore := write_status c (osStore st), osLoading := remove1 c (osLoading st)\<rparr>)"
| Reconciling: "serves_env (set (osStore st)) env \<Longrightarrow> beClient env = clnt \<Longrightarrow>
     Reconcile env (osCluster st) req = (s', evs, d) \<Longrightarrow>
     operator_step clnt http st (st\<lparr>osCluster := s'\<rparr>)"
| Editing: "operator_step clnt http st (st\<lparr>osStore := store'\<rparr>)"

inductive_cases operator_stepE [consumes 1, case_names Loading LoadFails Writing Reconciling Editing]:
  "operator_step clnt http st st'"

text \<open>A run through states that all satisfy a predicate, the last one included.\<close>

inductive run_within ::
  "'s client \<Rightarrow> http_env \<Rightarrow> ('s operator_state \<Rightarrow> bool) \<Rightarrow> 's operator_state \<Rightarrow> 's operator_state \<Rightarrow> bool"
  for clnt http P where
  Done: "P st \<Longrightarrow> run_within clnt http P st st"
| Step: "P st \<Longrightarrow> operator_step clnt http st st' \<Longrightarrow> run_within clnt http P st' st'' \<Longrightarrow>
     run_within clnt http P st st''"

section \<open>What each step does to the versions\<close>

lemma load_source_keeps:
  assumes "keeps_versions clnt" "load_source clnt http s namespace ref = Some (s', res)" "version_exists clnt s n"
  shows "version_exists clnt s' n"
proof (cases "srBlueprint ref")
  case (Some b)
  then have "load_blueprint clnt s namespace b = (s', res)" using assms(2) by (simp add: load_source_def)
  then have "s' = s \<or> (\<exists>v e. clApplyVersion clnt s v = (s', e))"
    by (auto simp: load_blueprint_def split: sum.splits prod.splits option.splits)
  with keeps_versionsD(2) [OF assms(1)] assms(3) show ?thesis by blast
next
  case None
  then have "s' = s" using assms(2) by (auto simp: load_source_def split: option.splits if_splits)
  with assms(3) show ?thesis by simp
qed

lemma Load_keeps_versions:
  assumes "keeps_versions clnt" "Load clnt http s r c = Some (s', res)" "version_exists clnt s n"
  shows "version_exists clnt s' n"
proof -
  have "s' = s \<or> (\<exists>res'. load_source clnt http s (coNamespace c) (coSourceRef c) = Some (s', res'))"
    using assms(2) by (auto simp: Load_def split: if_splits sum.splits option.splits)
  with load_source_keeps [OF assms(1)] assms(3) show ?thesis by blast
qed

lemma Reconcile_keeps_used:
  assumes "keeps_versions clnt" "serves_env (set store) env" "beClient env = clnt"
    and "Reconcile env s req = (s', evs, d)" "in_use store n" "version_exists clnt s n"
  shows "version_exists clnt s' n"
proof -
  have "version_exists clnt (fst (Reconcile env s req)) n"
  proof (rule Reconcile_deletes_only_unused [OF assms(2), where I = "\<lambda>t. version_exists clnt t n"])
    fix t v t' e
    assume "version_exists clnt t n" "\<not> version_in_use (set store) v" "clDeleteVersion (beClient env) t v = (t', e)"
    moreover from this(2) have "n \<noteq> version_key v" using assms(5) by (auto simp: version_in_use_key)
    ultimately show "version_exists clnt t' n" using keeps_versionsD(4) [OF assms(1)] assms(3) by blast
  next
    fix t b t' r
    assume "version_exists clnt t n" "clUpdateBlueprint (beClient env) t b = (t', r)"
    then show "version_exists clnt t' n" using keeps_versionsD(3) [OF assms(1)] assms(3) by blast
  next
    fix t ns m vs
    assume "clListVersions (beClient env) t ns m = Inr vs"
    then show "plain_versions vs" using keeps_versionsD(5) [OF assms(1)] assms(3) by blast
  qed (rule assms(6))
  with assms(4) show ?thesis by simp
qed

lemma step_keeps_used:
  assumes "keeps_versions clnt" "operator_step clnt http st st'"
    and "in_use (osStore st) n" "version_exists clnt (osCluster st) n"
  shows "version_exists clnt (osCluster st') n"
  using assms(2)
proof (cases rule: operator_stepE)
  case (Reconciling env req s' evs d)
  then show ?thesis using Reconcile_keeps_used [OF assms(1) Reconciling(2,3,4) assms(3,4)] by simp
next
  case (Loading c s' r' c')
  then show ?thesis using Load_keeps_versions [OF assms(1) Loading(3) assms(4)] by simp
next
  case (LoadFails c s' f)
  then show ?thesis using Load_keeps_versions [OF assms(1) LoadFails(3) assms(4)] by simp
qed (use assms(4) in simp_all)

lemma run_keeps_used:
  assumes "keeps_versions clnt"
    and "run_within clnt http (\<lambda>st. in_use (osStore st) n) st st'"
    and "version_exists clnt (osCluster st) n"
  shows "version_exists clnt (osCluster st') n"
  using assms(2,3)
proof (induction rule: run_within.induct)
  case (Step st st' st'')
  from step_keeps_used [OF assms(1) Step.hyps(2,1)] Step.prems Step.IH show ?case by blast
qed

lemma run_withinD: "run_within clnt http P st st' \<Longrightarrow> P st \<and> P st'"
  by (induction rule: run_within.induct) auto

text \<open>A blueprint as the API server stores it: with a namespace and names that fit into its URL.\<close>

definition k8s_blueprint :: "Blueprint \<Rightarrow> bool" where
  "k8s_blueprint b \<longleftrightarrow> bpNamespace b \<noteq> [] \<and> slash \<notin> set (bpNamespace b) \<and> bpName b \<noteq> [] \<and> slash \<notin> set (bpName b)"

text \<open>The client reads back the object it is asked for.\<close>

definition honest_get :: "'s client \<Rightarrow> bool" where
  "honest_get clnt \<longleftrightarrow> (\<forall>s n b. clGetBlueprint clnt s n = Inr b \<longrightarrow> bpNamespace b = nnNamespace n \<and> bpName b = nnName n)"

lemma GetDigest_plain: "GetDigest b \<noteq> []" "slash \<notin> set (GetDigest b)"
  by (simp_all add: GetDigest_def calculateDigest_plain)

text \<open>
  The component that \<open>Load\<close> returns uses the version that \<open>Load\<close> applied: the status that the version
  index reads names it.
\<close>

lemma loaded_component_uses_version:
  assumes "honest_get clnt" "Load clnt http s r c = Some (s', Inr (r', c'))"
    and "\<not> is_deleting c" "keep_source c = Inr None" "srBlueprint (coSourceRef c) = Some ref"
  obtains b where "clGetBlueprint clnt s (WithDefaultNamespace ref (coNamespace c)) = Inr b"
    "clApplyVersion clnt s (make_version b) = (s', None)" "used_by c' (version_key (make_version b))"
proof -
  from Load_applies_version [OF assms(2-5)] obtain b
    where b: "clGetBlueprint clnt s (WithDefaultNamespace ref (coNamespace c)) = Inr b"
      "clApplyVersion clnt s (make_version b) = (s', None)" "srArtifact r' = blueprint_artifact b" by blast
  note m = Load_records [OF assms(2,3)]
  have c': "coSourceRef c' = coSourceRef c" "coNamespace c' = coNamespace c"
    by (subst m(3), simp)+
  have n: "bpNamespace b = nnNamespace (WithDefaultNamespace ref (coNamespace c))" "bpName b = nnName ref"
    using assms(1) b(1) by (force simp: honest_get_def)+
  have "version_refs c' = [\<lparr>nnNamespace = nnNamespace ref, nnName = nnName ref @ ''--'' @ GetDigest b\<rparr>]"
    using m(2) c' assms(5) b(3) GetDigest_plain(1) [of b] by (simp add: version_refs_def blueprint_artifact_def)
  then have "used_by c' (version_key (make_version b))"
    using n c'(2) by (simp add: used_by_def version_key_def make_version_def blueprint_version_name_def WithDefaultNamespace_def)
  with b(1,2) that show ?thesis by blast
qed

lemma write_status_stored:
  assumes "c \<in> set store" "c' = c\<lparr>coStatus := st\<rparr>"
  shows "c' \<in> set (write_status c' store)"
proof -
  have "Component_NamespacedName c = Component_NamespacedName c'" "c\<lparr>coStatus := coStatus c'\<rparr> = c'"
    using assms(2) by (simp_all add: Component_NamespacedName_def)
  with assms(1) show ?thesis by (force simp: write_status_def image_iff)
qed

section \<open>Properties\<close>


end
