(* ===== verification/Convergence.thy ===== *)
theory Convergence
  imports System
begin

text \<open>
  Whether the components follow their blueprints: watch events wait to be delivered, the event handler fills
  the work queue, requests are taken from it and reconciled, and users and other controllers change objects,
  all interleaved. A request is being reconciled by at most one worker; while it is, the handler decides by
  the status stored before. The steps use \<open>Load\<close>, the hooks and \<open>blueprintHandler\<close>; what the reconciler
  framework does around them is in the step relation: it queues changed components, keeps a request unless
  the component was reconciled to readiness, and writes the status at the end.
\<close>

section \<open>Sources and contents\<close>

definition blueprint_key :: "Blueprint \<Rightarrow> NamespacedName" where
  "blueprint_key b = \<lparr>nnNamespace = bpNamespace b, nnName = bpName b\<rparr>"

definition content :: "Blueprint \<Rightarrow> string \<times> string" where
  "content b = (GetDigest b, GetRevision b)"

text \<open>The digest and revision a component would find at its source now.\<close>

definition current :: "'s client \<Rightarrow> 's \<Rightarrow> NamespacedName \<Rightarrow> (string \<times> string) option" where
  "current clnt s n = (case clGetBlueprint clnt s n of Inl _ \<Rightarrow> None | Inr b \<Rightarrow> Some (content b))"

text \<open>Applying a version changes no blueprint.\<close>

definition keeps_blueprints :: "'s client \<Rightarrow> bool" where
  "keeps_blueprints clnt \<longleftrightarrow> (\<forall>s v s' e. clApplyVersion clnt s v = (s', e) \<longrightarrow> current clnt s' = current clnt s)"

definition blueprint_name :: "Component \<Rightarrow> NamespacedName option" where
  "blueprint_name c = map_option (\<lambda>ref. WithDefaultNamespace ref (coNamespace c)) (srBlueprint (coSourceRef c))"

definition attempted :: "Component \<Rightarrow> string \<times> string" where
  "attempted c = (csLastAttemptedDigest (coStatus c), csLastAttemptedRevision (coStatus c))"

definition ready_at :: "Component \<Rightarrow> string \<times> string \<Rightarrow> bool" where
  "ready_at c v \<longleftrightarrow> Component_IsReady c \<and> attempted c = v"

lemma up_to_date_ready_at: "up_to_date c d r \<longleftrightarrow> ready_at c (d, r)"
  by (auto simp: up_to_date_def ready_at_def attempted_def)

section \<open>Steps\<close>

record 's work_state =
  wkCluster :: 's
  wkStore :: "Component list"
  wkEvents :: "Blueprint event list"
  wkQueue :: queue
  wkActive :: "Component list"

fun event_subject :: "'o event \<Rightarrow> 'o option" where
  "event_subject (CreateEvent b) = Some b"
| "event_subject (UpdateEvent old new) = Some new"
| "event_subject _ = None"

definition busy :: "'s work_state \<Rightarrow> request \<Rightarrow> bool" where
  "busy st r \<longleftrightarrow> r \<in> request_of ` set (wkActive st)"

definition take_request :: "request \<Rightarrow> queue \<Rightarrow> queue" where
  "take_request r q = filter (\<lambda>r'. r' \<noteq> r) q"

definition with_status :: "RuntimeStatus \<Rightarrow> Component \<Rightarrow> Component" where
  "with_status rs c = c\<lparr>coStatus := (coStatus c)\<lparr>csStatus := rs\<rparr>\<rparr>"

text \<open>
  Blueprints may change to anything, edits may write anything, and a worker that fails or queues its component
  again may write any status.
\<close>

inductive work_step :: "'s client \<Rightarrow> http_env \<Rightarrow> 's work_state \<Rightarrow> 's work_state \<Rightarrow> bool" for clnt http where
  Changing: "current clnt s' = (current clnt (wkCluster st))(blueprint_key b \<mapsto> content b) \<Longrightarrow> event_subject ev = Some b \<Longrightarrow>
     work_step clnt http st (st\<lparr>wkCluster := s', wkEvents := wkEvents st @ [ev]\<rparr>)"
| Removing: "current clnt s' = (current clnt (wkCluster st))(blueprint_key b := None) \<Longrightarrow>
     work_step clnt http st (st\<lparr>wkCluster := s', wkEvents := wkEvents st @ [DeleteEvent b]\<rparr>)"
| Elsewhere: "current clnt s' = current clnt (wkCluster st) \<Longrightarrow> work_step clnt http st (st\<lparr>wkCluster := s'\<rparr>)"
| Delivering: "wkEvents st = ev # evs \<Longrightarrow> cache_serves (set (wkStore st)) key clist \<Longrightarrow>
     (\<And>b. event_subject ev = Some b \<Longrightarrow>
        slash \<notin> set (bpNamespace b) \<and> (\<exists>items. clist [MatchingBlueprint key b] = Inr items)) \<Longrightarrow>
     work_step clnt http st (st\<lparr>wkEvents := evs, wkQueue := blueprintHandler key clist ev (wkQueue st)\<rparr>)"
| Editing: "distinct (map request_of store') \<Longrightarrow>
     work_step clnt http st (st\<lparr>wkStore := store',
       wkQueue := wkQueue st @ map request_of (filter (\<lambda>c. c \<notin> set (wkStore st)) store')\<rparr>)"
| Taking: "c \<in> set (wkStore st) \<Longrightarrow> request_of c \<in> set (wkQueue st) \<Longrightarrow> \<not> busy st (request_of c) \<Longrightarrow> \<not> is_deleting c \<Longrightarrow>
     Load clnt http (wkCluster st) (coSourceRef c) c = Some (s', Inr (r', c1)) \<Longrightarrow>
     c2 = c1\<lparr>coSpec := (coSpec c1)\<lparr>spSourceRef := r'\<rparr>\<rparr> \<Longrightarrow> makeFuncPostRead c2 = Inr () \<Longrightarrow>
     makeFuncPreReconcile get c2 = (p, Inr ()) \<Longrightarrow>
     work_step clnt http st (st\<lparr>wkCluster := s', wkQueue := take_request (request_of c) (wkQueue st),
       wkActive := p # wkActive st\<rparr>)"
| Failing: "c \<in> set (wkStore st) \<Longrightarrow> request_of c \<in> set (wkQueue st) \<Longrightarrow> \<not> busy st (request_of c) \<Longrightarrow>
     Load clnt http (wkCluster st) (coSourceRef c) c = Some (s', res) \<Longrightarrow> request_of c' = request_of c \<Longrightarrow>
     work_step clnt http st (st\<lparr>wkCluster := s', wkStore := write_status c' (wkStore st)\<rparr>)"
| Finishing: "p \<in> set (wkActive st) \<Longrightarrow> p' = makeFuncPostReconcile (with_status rs p) \<Longrightarrow> Component_IsReady p' \<Longrightarrow>
     work_step clnt http st (st\<lparr>wkStore := write_status p' (wkStore st), wkActive := remove1 p (wkActive st)\<rparr>)"
| Requeueing: "p \<in> set (wkActive st) \<Longrightarrow>
     work_step clnt http st (st\<lparr>wkStore := write_status (with_status rs p) (wkStore st),
       wkActive := remove1 p (wkActive st), wkQueue := q_Add (wkQueue st) (request_of p)\<rparr>)"
| Dropping: "(\<And>c. c \<in> set (wkStore st) \<Longrightarrow> request_of c = r \<Longrightarrow> is_deleting c) \<Longrightarrow>
     work_step clnt http st (st\<lparr>wkQueue := take_request r (wkQueue st)\<rparr>)"

inductive_cases work_stepE [consumes 1, case_names Changing Removing Elsewhere Delivering Editing Taking Failing
    Finishing Requeueing Dropping]: "work_step clnt http st st'"

inductive work_run :: "'s client \<Rightarrow> http_env \<Rightarrow> 's work_state \<Rightarrow> 's work_state \<Rightarrow> bool" for clnt http st where
  Start: "work_run clnt http st st"
| More: "work_run clnt http st st' \<Longrightarrow> work_step clnt http st' st'' \<Longrightarrow> work_run clnt http st st''"

section \<open>What the API server and the framework guarantee\<close>

text \<open>
  The contents that blueprints have had so far under their names are the history of a run. Contents include
  the generation, which grows with every change of a blueprint, so that a blueprint never gets contents back
  that it had before, unless it is deleted and created again.
\<close>

type_synonym history = "(NamespacedName \<times> (string \<times> string)) set"

definition contents :: "'s client \<Rightarrow> 's \<Rightarrow> history" where
  "contents clnt s = {(n, v). current clnt s n = Some v}"

definition never_back :: "'s client \<Rightarrow> history \<Rightarrow> 's \<Rightarrow> 's \<Rightarrow> bool" where
  "never_back clnt H s s' \<longleftrightarrow> (contents clnt s' - contents clnt s) \<inter> H = {}"

text \<open>
  Two objects are the same version of a component: the generation, which grows with every change of the
  specification, and with it what is followed, agree.
\<close>

definition same_generation :: "Component \<Rightarrow> Component \<Rightarrow> bool" where
  "same_generation c d \<longleftrightarrow> request_of c = request_of d \<and> omGeneration (coMeta c) = omGeneration (coMeta d) \<and>
     blueprint_name c = blueprint_name d \<and> spSticky (coSpec c) = spSticky (coSpec d)"

text \<open>
  Users cannot make a component ready: a new object has no status, an edit keeps the status and, if it changes
  the specification, raises the generation. The framework calls a component ready for a generation that it has
  reconciled. So what becomes ready in the store was ready there for the same generation, or a worker has
  reconciled this generation and leaves the contents it attempted.
\<close>

definition earned_ready :: "'s work_state \<Rightarrow> 's work_state \<Rightarrow> bool" where
  "earned_ready st st' \<longleftrightarrow> (\<forall>c \<in> set (wkStore st') - set (wkStore st). Component_IsReady c \<longrightarrow>
     (\<exists>d \<in> set (wkStore st). same_generation c d \<and> coStatus c = coStatus d) \<or>
     (\<exists>p \<in> set (wkActive st). same_generation c p \<and> attempted c = attempted p))"

inductive lawful_run :: "'s client \<Rightarrow> http_env \<Rightarrow> 's work_state \<Rightarrow> history \<Rightarrow> 's work_state \<Rightarrow> bool" for clnt http st where
  Start: "lawful_run clnt http st (contents clnt (wkCluster st)) st"
| More: "lawful_run clnt http st H st' \<Longrightarrow> work_step clnt http st' st'' \<Longrightarrow>
     never_back clnt H (wkCluster st') (wkCluster st'') \<Longrightarrow> earned_ready st' st'' \<Longrightarrow>
     lawful_run clnt http st (H \<union> contents clnt (wkCluster st'')) st''"

lemma earned_readyD:
  assumes "earned_ready st st'" "c \<in> set (wkStore st')" "c \<notin> set (wkStore st)" "Component_IsReady c"
  obtains d where "d \<in> set (wkStore st)" "same_generation c d" "coStatus c = coStatus d"
  | p where "p \<in> set (wkActive st)" "same_generation c p" "attempted c = attempted p"
  using bspec [OF assms(1) [unfolded earned_ready_def], of c] assms(2-4) by (metis DiffI)

lemma never_backI: "current clnt s' = current clnt s \<Longrightarrow> never_back clnt H s s'"
  by (simp add: never_back_def contents_def)

section \<open>Nobody is forgotten\<close>

text \<open>
  A component is attended to if it is queued, or is being reconciled from the current contents of its
  blueprint, or is not ready at them and an event with these contents is still to be delivered, or is ready
  at them and idle.
\<close>

definition attended :: "'s client \<Rightarrow> 's work_state \<Rightarrow> Component \<Rightarrow> bool" where
  "attended clnt st c \<longleftrightarrow>
     (\<forall>n v. blueprint_name c = Some n \<longrightarrow> current clnt (wkCluster st) n = Some v \<longrightarrow>
        request_of c \<in> set (wkQueue st) \<or>
        (\<exists>p \<in> set (wkActive st). request_of p = request_of c \<and> omGeneration (coMeta p) = omGeneration (coMeta c) \<and> attempted p = v) \<or>
        (\<not> ready_at c v \<and> (\<exists>ev \<in> set (wkEvents st). \<exists>b. event_subject ev = Some b \<and> blueprint_key b = n \<and> content b = v)) \<or>
        (ready_at c v \<and> \<not> busy st (request_of c)))"

definition follows_source :: "Component \<Rightarrow> bool" where
  "follows_source c \<longleftrightarrow> \<not> is_deleting c \<and> \<not> spSticky (coSpec c)"

definition work_inv :: "'s client \<Rightarrow> 's work_state \<Rightarrow> bool" where
  "work_inv clnt st \<longleftrightarrow> (\<forall>c \<in> set (wkStore st). follows_source c \<longrightarrow> attended clnt st c) \<and>
     distinct (map request_of (wkStore st)) \<and> distinct (map request_of (wkActive st))"

lemma work_invD:
  assumes "work_inv clnt st"
  shows "c \<in> set (wkStore st) \<Longrightarrow> follows_source c \<Longrightarrow> attended clnt st c"
    "distinct (map request_of (wkStore st))" "distinct (map request_of (wkActive st))"
  using assms by (auto simp: work_inv_def)

lemma attended_cases [consumes 3, case_names Queued Active Pending Settled]:
  assumes "attended clnt st c" "blueprint_name c = Some n" "current clnt (wkCluster st) n = Some v"
  obtains "request_of c \<in> set (wkQueue st)"
  | p where "p \<in> set (wkActive st)" "request_of p = request_of c" "omGeneration (coMeta p) = omGeneration (coMeta c)" "attempted p = v"
  | ev b where "\<not> ready_at c v" "ev \<in> set (wkEvents st)" "event_subject ev = Some b" "blueprint_key b = n" "content b = v"
  | "ready_at c v" "\<not> busy st (request_of c)"
  using assms unfolding attended_def by blast

lemma attendedI:
  assumes "\<And>n v. blueprint_name c = Some n \<Longrightarrow> current clnt (wkCluster st) n = Some v \<Longrightarrow>
        request_of c \<notin> set (wkQueue st) \<Longrightarrow>
        (\<exists>p \<in> set (wkActive st). request_of p = request_of c \<and> omGeneration (coMeta p) = omGeneration (coMeta c) \<and> attempted p = v) \<or>
        (\<not> ready_at c v \<and> (\<exists>ev \<in> set (wkEvents st). \<exists>b. event_subject ev = Some b \<and> blueprint_key b = n \<and> content b = v)) \<or>
        (ready_at c v \<and> \<not> busy st (request_of c))"
  shows "attended clnt st c"
  using assms unfolding attended_def by blast

lemma attended_queued: "request_of c \<in> set (wkQueue st) \<Longrightarrow> attended clnt st c"
  by (simp add: attended_def)

lemma busy_iff: "busy st r \<longleftrightarrow> (\<exists>p \<in> set (wkActive st). request_of p = r)"
  by (auto simp: busy_def)

text \<open>What only adds requests, events and active components of other names keeps a component attended to.\<close>

lemma attended_mono:
  assumes "attended clnt st c"
    and "current clnt (wkCluster st') = current clnt (wkCluster st)"
    and "request_of c \<in> set (wkQueue st) \<Longrightarrow> request_of c \<in> set (wkQueue st')"
    and active: "\<And>p. request_of p = request_of c \<Longrightarrow> p \<in> set (wkActive st') \<longleftrightarrow> p \<in> set (wkActive st)"
    and events: "set (wkEvents st) \<subseteq> set (wkEvents st')"
  shows "attended clnt st' c"
proof (rule attendedI)
  fix n v
  assume n: "blueprint_name c = Some n" and v: "current clnt (wkCluster st') n = Some v"
    and q: "request_of c \<notin> set (wkQueue st')"
  from v assms(2) have "current clnt (wkCluster st) n = Some v" by simp
  with assms(1) n show "(\<exists>p \<in> set (wkActive st'). request_of p = request_of c \<and> omGeneration (coMeta p) = omGeneration (coMeta c) \<and> attempted p = v) \<or>
        (\<not> ready_at c v \<and> (\<exists>ev \<in> set (wkEvents st'). \<exists>b. event_subject ev = Some b \<and> blueprint_key b = n \<and> content b = v)) \<or>
        (ready_at c v \<and> \<not> busy st' (request_of c))"
  proof (cases rule: attended_cases)
    case Queued
    with q assms(3) show ?thesis by simp
  next
    case (Active p)
    with active [of p] show ?thesis by blast
  next
    case (Pending ev b)
    with events show ?thesis by blast
  next
    case Settled
    with active show ?thesis unfolding busy_iff by blast
  qed
qed

section \<open>The steps preserve the invariant\<close>

lemma name_request: "Component_NamespacedName c = request_of c"
  by (simp add: Component_NamespacedName_def request_of_def)

lemma request_of_status [simp]:
  "request_of (c\<lparr>coStatus := st\<rparr>) = request_of c" "follows_source (c\<lparr>coStatus := st\<rparr>) = follows_source c"
  "blueprint_name (c\<lparr>coStatus := st\<rparr>) = blueprint_name c"
  by (simp_all add: request_of_def follows_source_def is_deleting_def blueprint_name_def)

lemma with_status_simps [simp]:
  "request_of (with_status rs c) = request_of c" "attempted (with_status rs c) = attempted c"
  "coMeta (with_status rs c) = coMeta c"
  by (simp_all add: with_status_def request_of_def attempted_def)

lemma PostReconcile_simps [simp]:
  "request_of (makeFuncPostReconcile c) = request_of c" "attempted (makeFuncPostReconcile c) = attempted c"
  "coMeta (makeFuncPostReconcile c) = coMeta c"
  by (simp_all add: makeFuncPostReconcile_def request_of_def attempted_def)

lemma write_status_requests [simp]: "map request_of (write_status p store) = map request_of store"
  by (induction store) (simp_all add: write_status_def)

lemma written_cases [consumes 1, case_names Same Other]:
  assumes "d \<in> set (write_status p store)"
  obtains c where "c \<in> set store" "request_of c = request_of p" "d = c\<lparr>coStatus := coStatus p\<rparr>"
  | "d \<in> set store" "request_of d \<noteq> request_of p"
  using assms by (auto simp: write_status_def name_request)

lemma ready_at_written:
  "Component_IsReady p \<Longrightarrow> omGeneration (coMeta p) = omGeneration (coMeta c) \<Longrightarrow> ready_at (c\<lparr>coStatus := coStatus p\<rparr>) (attempted p)"
  by (simp add: ready_at_def Component_IsReady_def attempted_def)

lemma ready_at_attempted: "ready_at (c\<lparr>coStatus := coStatus p\<rparr>) v \<Longrightarrow> attempted p = v"
  by (simp add: ready_at_def attempted_def)

lemma take_request_set [simp]: "set (take_request r q) = set q - {r}"
  by (auto simp: take_request_def)

lemma queue_Add_set [simp]: "set (q_Add q r) = insert r (set q)"
  by (auto simp: q_Add_def)

text \<open>A worker ends: its component's status is written and it is no longer active.\<close>

lemma inv_worker_ends:
  assumes inv: "work_inv clnt st" and p: "p \<in> set (wkActive st)"
    and st': "wkCluster st' = wkCluster st" "wkEvents st' = wkEvents st" "wkStore st' = write_status p' (wkStore st)"
      "wkActive st' = remove1 p (wkActive st)"
    and p': "request_of p' = request_of p" "attempted p' = attempted p" "coMeta p' = coMeta p"
    and queue: "set (wkQueue st) \<subseteq> set (wkQueue st')" "Component_IsReady p' \<or> request_of p \<in> set (wkQueue st')"
  shows "work_inv clnt st'"
proof -
  have d: "distinct (map request_of (wkActive st))" by (rule work_invD(3) [OF inv])
  then have dp: "distinct (wkActive st)" by (simp add: distinct_map)
  have rest: "x \<in> set (wkActive st') \<longleftrightarrow> x \<in> set (wkActive st) \<and> x \<noteq> p" for x
    using dp by (simp add: st'(4))
  have single: "x = p" if "x \<in> set (wkActive st)" "request_of x = request_of p" for x
    using d p that by (auto simp: distinct_map dest: inj_onD)
  then have idle: "\<not> busy st' (request_of p)" using rest by (auto simp: busy_iff)
  have "attended clnt st' d" if d: "d \<in> set (wkStore st')" "follows_source d" for d
    using d(1) unfolding st'(3)
  proof (cases rule: written_cases)
    case (Same c)
    have c: "attended clnt st c" using work_invD(1) [OF inv Same(1)] d(2) Same(3) by simp
    show ?thesis
    proof (rule attendedI)
      fix n v
      assume n: "blueprint_name d = Some n" and v: "current clnt (wkCluster st') n = Some v"
        and q: "request_of d \<notin> set (wkQueue st')"
      from q Same p' queue(2) have ready: "Component_IsReady p'" by simp
      from n v Same(3) have "blueprint_name c = Some n" "current clnt (wkCluster st) n = Some v" by (simp_all add: st'(1))
      with c have "ready_at d v \<or> (\<exists>ev \<in> set (wkEvents st'). \<exists>b. event_subject ev = Some b \<and> blueprint_key b = n \<and> content b = v)"
      proof (cases rule: attended_cases)
        case Queued
        with q Same queue(1) show ?thesis by auto
      next
        case (Active x)
        with single [of x] Same(2) p'(1) have "x = p" by simp
        with Active ready_at_written [OF ready, of c] p'(2,3) Same(3) show ?thesis by simp
      next
        case (Pending ev b)
        then show ?thesis using st'(2) by auto
      next
        case Settled
        with p Same(2) p'(1) show ?thesis by (auto simp: busy_iff)
      qed
      moreover have "\<not> busy st' (request_of d)" using idle Same p'(1) by simp
      ultimately show "(\<exists>p \<in> set (wkActive st'). request_of p = request_of d \<and> omGeneration (coMeta p) = omGeneration (coMeta d) \<and> attempted p = v) \<or>
        (\<not> ready_at d v \<and> (\<exists>ev \<in> set (wkEvents st'). \<exists>b. event_subject ev = Some b \<and> blueprint_key b = n \<and> content b = v)) \<or>
        (ready_at d v \<and> \<not> busy st' (request_of d))" by blast
    qed
  next
    case Other
    have "attended clnt st d" by (rule work_invD(1) [OF inv Other(1) d(2)])
    then show ?thesis
    proof (rule attended_mono)
      show "x \<in> set (wkActive st') \<longleftrightarrow> x \<in> set (wkActive st)" if "request_of x = request_of d" for x
        using rest [of x] that Other(2) p'(1) by metis
    qed (use queue(1) st'(1,2) in auto)
  qed
  moreover have "distinct (map request_of (wkActive st'))"
    using d dp by (auto simp: st'(4) distinct_map intro: inj_on_subset)
  ultimately show ?thesis using work_invD(2) [OF inv] by (simp add: work_inv_def st'(3))
qed

text \<open>Steps that leave the store and the workers alone and only add requests and events.\<close>

lemma inv_adds:
  assumes inv: "work_inv clnt st"
    and "current clnt (wkCluster st') = current clnt (wkCluster st)"
    and "wkStore st' = wkStore st" "wkActive st' = wkActive st"
    and "set (wkQueue st) \<subseteq> set (wkQueue st')" "set (wkEvents st) \<subseteq> set (wkEvents st')"
  shows "work_inv clnt st'"
proof -
  have "attended clnt st' c" if "c \<in> set (wkStore st')" "follows_source c" for c
  proof (rule attended_mono)
    show "attended clnt st c" using work_invD(1) [OF inv] that assms(3) by simp
  qed (use assms(2-6) in auto)
  with work_invD(2,3) [OF inv] assms(3,4) show ?thesis by (simp add: work_inv_def)
qed

text \<open>
  A blueprint changes, to contents at which no component is ready that follows it, or without getting other
  contents: its users are not ready at the new contents and an event is pending, or nothing changes for them.
\<close>

lemma inv_changing:
  assumes inv: "work_inv clnt st"
    and s': "current clnt s' = (current clnt (wkCluster st))(blueprint_key b \<mapsto> content b)"
    and ev: "event_subject ev = Some b"
    and new: "current clnt (wkCluster st) (blueprint_key b) = Some (content b) \<or>
      (\<forall>c \<in> set (wkStore st). follows_source c \<longrightarrow> blueprint_name c = Some (blueprint_key b) \<longrightarrow> \<not> ready_at c (content b))"
  shows "work_inv clnt (st\<lparr>wkCluster := s', wkEvents := wkEvents st @ [ev]\<rparr>)" (is "work_inv clnt ?st")
proof -
  have "attended clnt ?st c" if c: "c \<in> set (wkStore st)" "follows_source c" for c
  proof (cases "blueprint_name c = Some (blueprint_key b) \<and> current clnt (wkCluster st) (blueprint_key b) \<noteq> Some (content b)")
    case True
    with new c have "\<not> ready_at c (content b)" by blast
    then show ?thesis using True s' ev by (intro attendedI) auto
  next
    case False
    have "attended clnt (st\<lparr>wkEvents := wkEvents st @ [ev]\<rparr>) c"
      by (rule attended_mono [OF work_invD(1) [OF inv c]]) auto
    moreover have "blueprint_name c = Some n \<Longrightarrow> current clnt s' n = current clnt (wkCluster st) n" for n
      using False s' by (cases "n = blueprint_key b") simp_all
    ultimately show ?thesis by (simp add: attended_def busy_def)
  qed
  with inv show ?thesis by (simp add: work_inv_def)
qed

text \<open>A blueprint is deleted: its users have nothing to follow.\<close>

lemma inv_removing:
  assumes inv: "work_inv clnt st" and s': "current clnt s' = (current clnt (wkCluster st))(blueprint_key b := None)"
  shows "work_inv clnt (st\<lparr>wkCluster := s', wkEvents := wkEvents st @ [DeleteEvent b]\<rparr>)" (is "work_inv clnt ?st")
proof -
  have "attended clnt ?st c" if c: "c \<in> set (wkStore st)" "follows_source c" for c
  proof -
    have "attended clnt (st\<lparr>wkEvents := wkEvents st @ [DeleteEvent b]\<rparr>) c"
      by (rule attended_mono [OF work_invD(1) [OF inv c]]) auto
    with s' show ?thesis by (simp add: attended_def busy_def)
  qed
  with inv show ?thesis by (simp add: work_inv_def)
qed

lemma handler_adds: "set q \<subseteq> set (blueprintHandler key clist ev q)"
  using blueprint_events.handle_adds [of "(key, clist)" ev q] by (metis case_prod_conv set_append Un_upper1)

lemma handler_queues_user:
  assumes "cache_serves store key clist" "slash \<notin> set (bpNamespace b)" "clist [MatchingBlueprint key b] = Inr items"
    and "event_subject ev = Some b" "c \<in> store" "blueprint_name c = Some (blueprint_key b)" "\<not> ready_at c (content b)"
  shows "request_of c \<in> set (blueprintHandler key clist ev q)"
proof -
  from assms(6) obtain ref where "srBlueprint (coSourceRef c) = Some ref" "resolves_to c ref (bpNamespace b) (bpName b)"
    by (auto simp: blueprint_name_def resolves_to_def blueprint_key_def)
  then have "c \<in> set items" using blueprint_query [OF assms(1,2,3)] assms(5) by auto
  then have "request_of c \<in> set (blueprintHandler_createOrUpdate key clist b q)"
    using assms(3,7) by (auto simp: blueprintHandler_createOrUpdate_def foldl_q_Add_if up_to_date_ready_at content_def)
  then show ?thesis using assms(4)
    by (cases ev) (simp_all add: blueprintHandler_Create_def blueprintHandler_Update_def)
qed

text \<open>An event is delivered: the users it was pending for are queued.\<close>

lemma inv_delivering:
  assumes inv: "work_inv clnt st" and evs: "wkEvents st = ev # evs" and cache: "cache_serves (set (wkStore st)) key clist"
    and answers: "\<And>b. event_subject ev = Some b \<Longrightarrow>
      slash \<notin> set (bpNamespace b) \<and> (\<exists>items. clist [MatchingBlueprint key b] = Inr items)"
  shows "work_inv clnt (st\<lparr>wkEvents := evs, wkQueue := blueprintHandler key clist ev (wkQueue st)\<rparr>)" (is "work_inv clnt ?st")
proof -
  have "attended clnt ?st c" if c: "c \<in> set (wkStore st)" "follows_source c" for c
  proof (rule attendedI)
    fix n v
    assume n: "blueprint_name c = Some n" and v: "current clnt (wkCluster ?st) n = Some v"
      and q: "request_of c \<notin> set (wkQueue ?st)"
    have b: "busy ?st r \<longleftrightarrow> busy st r" for r by (simp add: busy_def)
    from v have "current clnt (wkCluster st) n = Some v" by simp
    with work_invD(1) [OF inv c] n show "(\<exists>p \<in> set (wkActive ?st). request_of p = request_of c \<and> omGeneration (coMeta p) = omGeneration (coMeta c) \<and> attempted p = v) \<or>
        (\<not> ready_at c v \<and> (\<exists>ev \<in> set (wkEvents ?st). \<exists>b. event_subject ev = Some b \<and> blueprint_key b = n \<and> content b = v)) \<or>
        (ready_at c v \<and> \<not> busy ?st (request_of c))"
    proof (cases rule: attended_cases)
      case Queued
      with q handler_adds [of "wkQueue st" key clist ev] show ?thesis by (simp add: subset_iff)
    next
      case (Pending e b)
      have "e \<noteq> ev"
      proof
        assume e: "e = ev"
        with answers Pending(3) obtain items where "slash \<notin> set (bpNamespace b)" "clist [MatchingBlueprint key b] = Inr items"
          by blast
        with handler_queues_user [OF cache this, of ev c "wkQueue st"] q Pending n c(1) e show False by simp
      qed
      with Pending evs show ?thesis by auto
    qed (use b in auto)
  qed
  with inv show ?thesis by (simp add: work_inv_def)
qed

lemma inv_editing:
  assumes inv: "work_inv clnt st" and "distinct (map request_of store')"
  shows "work_inv clnt (st\<lparr>wkStore := store',
    wkQueue := wkQueue st @ map request_of (filter (\<lambda>c. c \<notin> set (wkStore st)) store')\<rparr>)" (is "work_inv clnt ?st")
proof -
  have "attended clnt ?st c" if c: "c \<in> set store'" "follows_source c" for c
  proof (cases "c \<in> set (wkStore st)")
    case True
    show ?thesis by (rule attended_mono [OF work_invD(1) [OF inv True c(2)]]) auto
  next
    case False
    with c(1) show ?thesis by (intro attended_queued) auto
  qed
  with inv assms(2) show ?thesis by (simp add: work_inv_def)
qed

lemma inv_dropping:
  assumes inv: "work_inv clnt st" and r: "\<And>c. c \<in> set (wkStore st) \<Longrightarrow> request_of c = r \<Longrightarrow> is_deleting c"
  shows "work_inv clnt (st\<lparr>wkQueue := take_request r (wkQueue st)\<rparr>)" (is "work_inv clnt ?st")
proof -
  have "attended clnt ?st c" if c: "c \<in> set (wkStore st)" "follows_source c" for c
  proof -
    from c r have "request_of c \<noteq> r" by (auto simp: follows_source_def)
    then show ?thesis by (intro attended_mono [OF work_invD(1) [OF inv c]]) auto
  qed
  with inv show ?thesis by (simp add: work_inv_def)
qed

lemma Load_keeps_current:
  assumes "keeps_blueprints clnt" "Load clnt http s r c = Some (s', res)"
  shows "current clnt s' = current clnt s"
proof -
  have "s' = s \<or> (\<exists>v e. clApplyVersion clnt s v = (s', e))"
    using assms(2) by (auto simp: Load_def load_source_def load_blueprint_def
        split: if_splits sum.splits option.splits prod.splits)
  with assms(1) show ?thesis by (auto simp: keeps_blueprints_def)
qed

text \<open>What a worker takes up, it reconciles from the current contents of the blueprint.\<close>

lemma taken_is_current:
  assumes "Load clnt http s (coSourceRef c) c = Some (s', Inr (r', c1))" "follows_source c"
    and "c2 = c1\<lparr>coSpec := (coSpec c1)\<lparr>spSourceRef := r'\<rparr>\<rparr>" "makeFuncPreReconcile get c2 = (p, Inr ())"
  shows "request_of p = request_of c \<and> coMeta p = coMeta c \<and>
    (\<forall>n v. blueprint_name c = Some n \<longrightarrow> current clnt s n = Some v \<longrightarrow> attempted p = v)"
proof -
  from assms(2) have live: "\<not> is_deleting c" "keep_source c = Inr None"
    by (simp_all add: follows_source_def keep_source_def)
  note l = Load_records [OF assms(1) live(1)]
  have p: "p = set_attempted c2 (srArtifact r')"
    using assms(3,4) l(1) by (simp add: makeFuncPreReconcile_def SourceReference_Artifact_def Let_def)
  have "coMeta c1 = coMeta c" by (subst l(3)) simp
  then have meta: "coMeta p = coMeta c" using assms(3) p by (simp add: set_attempted_def)
  have "attempted p = v" if n: "blueprint_name c = Some n" and v: "current clnt s n = Some v" for n v
  proof -
    from n obtain ref where ref: "srBlueprint (coSourceRef c) = Some ref" "n = WithDefaultNamespace ref (coNamespace c)"
      by (auto simp: blueprint_name_def)
    from Load_applies_version [OF assms(1) live ref(1)] obtain b
      where "clGetBlueprint clnt s n = Inr b" "srArtifact r' = blueprint_artifact b" using ref(2) by blast
    with v p show ?thesis
      by (simp add: current_def content_def attempted_def set_attempted_def blueprint_artifact_def)
  qed
  with meta show ?thesis by (simp add: request_of_def)
qed

lemma inv_taking:
  assumes inv: "work_inv clnt st" and keeps: "keeps_blueprints clnt"
    and c: "c \<in> set (wkStore st)" "\<not> busy st (request_of c)"
    and load: "Load clnt http (wkCluster st) (coSourceRef c) c = Some (s', Inr (r', c1))" "\<not> is_deleting c"
    and hooks: "c2 = c1\<lparr>coSpec := (coSpec c1)\<lparr>spSourceRef := r'\<rparr>\<rparr>" "makeFuncPreReconcile get c2 = (p, Inr ())"
  shows "work_inv clnt (st\<lparr>wkCluster := s', wkQueue := take_request (request_of c) (wkQueue st),
    wkActive := p # wkActive st\<rparr>)" (is "work_inv clnt ?st")
proof -
  have cur: "current clnt s' = current clnt (wkCluster st)" by (rule Load_keeps_current [OF keeps load(1)])
  have p: "request_of p = request_of c"
  proof -
    have "coMeta c1 = coMeta c" by (subst Load_records(3) [OF load]) simp
    moreover have "coMeta p = coMeta c2"
      using hooks(2) by (auto simp: makeFuncPreReconcile_def set_attempted_def Let_def split: sum.splits)
    ultimately show ?thesis using hooks(1) by (simp add: request_of_def)
  qed
  have "attended clnt ?st d" if d: "d \<in> set (wkStore st)" "follows_source d" for d
  proof (cases "request_of d = request_of c")
    case True
    with c(1) d(1) work_invD(2) [OF inv] have "d = c" by (auto simp: distinct_map dest: inj_onD)
    with taken_is_current [OF load(1) _ hooks] d(2) cur show ?thesis by (intro attendedI) auto
  next
    case False
    show ?thesis
    proof (rule attended_mono [OF work_invD(1) [OF inv d]])
      show "x \<in> set (wkActive ?st) \<longleftrightarrow> x \<in> set (wkActive st)" if "request_of x = request_of d" for x
        using that False p by (metis (no_types, lifting) list.set_intros(2) set_ConsD work_state.select_convs(5)
            work_state.surjective work_state.update_convs(1,4,5))
    qed (use cur False in auto)
  qed
  moreover have "distinct (map request_of (wkActive ?st))"
    using work_invD(3) [OF inv] c(2) p by (simp add: busy_def)
  ultimately show ?thesis using work_invD(2) [OF inv] by (simp add: work_inv_def)
qed

lemma inv_failing:
  assumes inv: "work_inv clnt st" and keeps: "keeps_blueprints clnt"
    and q: "request_of c \<in> set (wkQueue st)" "request_of c' = request_of c"
    and load: "Load clnt http (wkCluster st) (coSourceRef c) c = Some (s', res)"
  shows "work_inv clnt (st\<lparr>wkCluster := s', wkStore := write_status c' (wkStore st)\<rparr>)" (is "work_inv clnt ?st")
proof -
  have cur: "current clnt s' = current clnt (wkCluster st)" by (rule Load_keeps_current [OF keeps load])
  have "attended clnt ?st d" if d: "d \<in> set (wkStore ?st)" "follows_source d" for d
  proof -
    from d(1) have "d \<in> set (write_status c' (wkStore st))" by simp
    then show ?thesis
    proof (cases rule: written_cases)
      case (Same x)
      with q show ?thesis by (intro attended_queued) simp
    next
      case Other
      show ?thesis by (rule attended_mono [OF work_invD(1) [OF inv Other(1) d(2)]]) (use cur in auto)
    qed
  qed
  with work_invD(2,3) [OF inv] show ?thesis by (simp add: work_inv_def)
qed

section \<open>Ready components are ready at contents their source has had\<close>

definition had :: "history \<Rightarrow> Component \<Rightarrow> bool" where
  "had H c \<longleftrightarrow> (\<forall>n. \<not> spSticky (coSpec c) \<longrightarrow> blueprint_name c = Some n \<longrightarrow> (n, attempted c) \<in> H)"

definition past_inv :: "'s client \<Rightarrow> history \<Rightarrow> 's work_state \<Rightarrow> bool" where
  "past_inv clnt H st \<longleftrightarrow> contents clnt (wkCluster st) \<subseteq> H \<and>
     (\<forall>c \<in> set (wkStore st). Component_IsReady c \<longrightarrow> had H c) \<and> (\<forall>p \<in> set (wkActive st). had H p)"

lemma had_mono: "had H c \<Longrightarrow> had (H \<union> K) c"
  by (auto simp: had_def)

lemma had_same: "same_generation c d \<Longrightarrow> attempted c = attempted d \<Longrightarrow> had H d \<Longrightarrow> had H c"
  by (simp add: had_def same_generation_def)

lemma Load_keeps_reference:
  assumes "Load clnt http s r c = Some (s', Inr (r', c'))"
  shows "srBlueprint r' = srBlueprint r"
  using assms by (cases rule: Load_Inr_cases) simp_all

text \<open>A worker attempts what its blueprint has when it is taken up.\<close>

lemma taken_had:
  assumes load: "Load clnt http s (coSourceRef c) c = Some (s', Inr (r', c1))" "\<not> is_deleting c"
    and hooks: "c2 = c1\<lparr>coSpec := (coSpec c1)\<lparr>spSourceRef := r'\<rparr>\<rparr>" "makeFuncPreReconcile get c2 = (p, Inr ())"
    and H: "contents clnt s \<subseteq> H"
  shows "had H p"
proof -
  note l = Load_records [OF load]
  have p: "p = set_attempted c2 (srArtifact r')"
    using hooks l(1) by (simp add: makeFuncPreReconcile_def SourceReference_Artifact_def Let_def)
  have c1: "coMeta c1 = coMeta c" "coSpec c1 = coSpec c" by (subst l(3), simp)+
  have r': "srBlueprint r' = srBlueprint (coSourceRef c)" by (rule Load_keeps_reference [OF load(1)])
  show ?thesis unfolding had_def
  proof (intro allI impI)
    fix n
    assume "\<not> spSticky (coSpec p)" and n: "blueprint_name p = Some n"
    then have live: "follows_source c" "keep_source c = Inr None"
      using load(2) hooks(1) p c1 by (simp_all add: follows_source_def keep_source_def set_attempted_def)
    have n: "blueprint_name c = Some n"
      using n p hooks(1) c1 r' by (simp add: blueprint_name_def set_attempted_def)
    then obtain ref where ref: "srBlueprint (coSourceRef c) = Some ref" "n = WithDefaultNamespace ref (coNamespace c)"
      by (auto simp: blueprint_name_def)
    from Load_applies_version [OF load live(2) ref(1)] obtain b
      where b: "clGetBlueprint clnt s n = Inr b" using ref(2) by blast
    then have "current clnt s n = Some (content b)" by (simp add: current_def)
    with taken_is_current [OF load(1) live(1) hooks] n have "attempted p = content b" by blast
    with b H show "(n, attempted p) \<in> H" by (auto simp: contents_def current_def)
  qed
qed

lemma past_inv_step:
  assumes "work_step clnt http st st'" "earned_ready st st'" "past_inv clnt H st"
  shows "past_inv clnt (H \<union> contents clnt (wkCluster st')) st'"
proof -
  have store: "had H c" if c: "c \<in> set (wkStore st')" "Component_IsReady c" for c
  proof (cases "c \<in> set (wkStore st)")
    case True
    with assms(3) c(2) show ?thesis by (simp add: past_inv_def)
  next
    case False
    from earned_readyD [OF assms(2) c(1) False c(2)] show ?thesis
    proof cases
      case (1 d)
      then have "Component_IsReady d" using c(2) by (simp add: Component_IsReady_def same_generation_def)
      with assms(3) 1 have "had H d" by (simp add: past_inv_def)
      with 1 show ?thesis by (intro had_same [of c d]) (simp_all add: attempted_def)
    next
      case (2 p)
      with assms(3) show ?thesis by (auto simp: past_inv_def intro: had_same)
    qed
  qed
  have "had H p" if "p \<in> set (wkActive st')" for p
    using assms(1) that
  proof (cases rule: work_stepE)
    case (Taking c s' r' c1 get p')
    then have "had H p'" using taken_had [OF Taking(6,5) refl Taking(8)] assms(3) by (simp add: past_inv_def)
    then show ?thesis using Taking(1) assms(3) that by (auto simp: past_inv_def)
  qed (use assms(3) that in \<open>auto simp: past_inv_def dest: notin_set_remove1\<close>)
  with store show ?thesis by (auto simp: past_inv_def intro: had_mono)
qed

text \<open>
  A worker that finishes satisfies \<open>earned_ready\<close>, as long as the generation in the store says what is followed.
\<close>

lemma finishing_earned:
  assumes "p \<in> set (wkActive st)" "Component_IsReady p'"
    and "request_of p' = request_of p" "attempted p' = attempted p" "coMeta p' = coMeta p"
    and "\<And>c. c \<in> set (wkStore st) \<Longrightarrow> request_of c = request_of p \<Longrightarrow> omGeneration (coMeta c) = omGeneration (coMeta p) \<Longrightarrow>
      same_generation c p"
  shows "earned_ready st (st\<lparr>wkStore := write_status p' (wkStore st), wkActive := remove1 p (wkActive st)\<rparr>)"
  unfolding earned_ready_def
proof (intro ballI impI disjI2)
  fix d
  assume d: "d \<in> set (wkStore (st\<lparr>wkStore := write_status p' (wkStore st), wkActive := remove1 p (wkActive st)\<rparr>)) - set (wkStore st)"
    and ready: "Component_IsReady d"
  then obtain c where c: "c \<in> set (wkStore st)" "request_of c = request_of p" "d = c\<lparr>coStatus := coStatus p'\<rparr>"
    using assms(3) by (auto elim: written_cases)
  with ready assms(2,5) have "omGeneration (coMeta c) = omGeneration (coMeta p)" by (simp add: Component_IsReady_def)
  with assms(6) c have "same_generation d p" by (simp add: same_generation_def)
  moreover have "attempted d = attempted p" using c(3) assms(4) by (simp add: attempted_def)
  ultimately show "\<exists>p \<in> set (wkActive st). same_generation d p \<and> attempted d = attempted p" using assms(1) by blast
qed

lemma inv_work_step:
  assumes "work_step clnt http st st'" "keeps_blueprints clnt" "work_inv clnt st"
    and past: "past_inv clnt H st" "never_back clnt H (wkCluster st) (wkCluster st')"
  shows "work_inv clnt st'"
  using assms(1)
proof (cases rule: work_stepE)
  case (Changing s' b ev)
  have "current clnt (wkCluster st) (blueprint_key b) = Some (content b) \<or>
      (\<forall>c \<in> set (wkStore st). follows_source c \<longrightarrow> blueprint_name c = Some (blueprint_key b) \<longrightarrow> \<not> ready_at c (content b))"
  proof (cases "current clnt (wkCluster st) (blueprint_key b) = Some (content b)")
    case False
    have "(blueprint_key b, content b) \<notin> H"
      using False past(2) Changing by (fastforce simp: never_back_def contents_def)
    with past(1) show ?thesis by (auto simp: past_inv_def had_def ready_at_def follows_source_def)
  qed simp
  with Changing show ?thesis using inv_changing [OF assms(3)] by blast
next
  case (Removing s' b)
  then show ?thesis using inv_removing [OF assms(3)] by blast
next
  case (Elsewhere s')
  then show ?thesis by (auto intro: inv_adds [OF assms(3)])
next
  case (Delivering ev evs key clist)
  then show ?thesis using inv_delivering [OF assms(3)] by blast
next
  case (Editing store')
  then show ?thesis using inv_editing [OF assms(3)] by blast
next
  case (Taking c s' r' c1 get p)
  then show ?thesis using inv_taking [OF assms(3,2) _ _ _ _ refl] by blast
next
  case (Failing c s' res c')
  then show ?thesis using inv_failing [OF assms(3,2)] by blast
next
  case (Finishing p rs)
  show ?thesis
    by (rule inv_worker_ends [OF assms(3) Finishing(2), where p' = "makeFuncPostReconcile (with_status rs p)"])
      (use Finishing in auto)
next
  case (Requeueing p rs)
  show ?thesis by (rule inv_worker_ends [OF assms(3) Requeueing(2), where p' = "with_status rs p"]) (use Requeueing in auto)
next
  case (Dropping r)
  then show ?thesis using inv_dropping [OF assms(3)] by blast
qed

lemma inv_lawful_run:
  assumes "keeps_blueprints clnt" "work_inv clnt st" "wkStore st = []" "wkActive st = []" "lawful_run clnt http st H st'"
  shows "work_inv clnt st' \<and> past_inv clnt H st'"
  using assms(5)
proof (induction rule: lawful_run.induct)
  case Start
  with assms(2-4) show ?case by (simp add: past_inv_def)
next
  case (More H st' st'')
  then show ?case using inv_work_step [OF _ assms(1)] past_inv_step by blast
qed

section \<open>Properties\<close>

text \<open>
  C2. Components follow their blueprints: from an operator that starts without components, whatever is
  changed, delivered, taken up, failed or finished in whatever order, as long as no blueprint gets contents
  (files and generation) back that it had before in the run, and a component's stored status is ready only
  for a generation that a worker has reconciled: once no event waits, nothing is queued and nothing is being
  reconciled, every living component that is not sticky is ready at the digest and revision its blueprint has
  now. The client reads blueprints back unchanged after it has applied a version.
\<close>

theorem quiescent_components_follow:
  assumes "keeps_blueprints clnt" "wkStore st = []" "wkActive st = []" "lawful_run clnt http st H st'"
    and "wkEvents st' = []" "wkQueue st' = []" "wkActive st' = []"
    and "c \<in> set (wkStore st')" "\<not> is_deleting c" "\<not> spSticky (coSpec c)" "srBlueprint (coSourceRef c) = Some ref"
    and "clGetBlueprint clnt (wkCluster st') (WithDefaultNamespace ref (coNamespace c)) = Inr b"
  shows "up_to_date c (GetDigest b) (GetRevision b)"
proof -
  have "work_inv clnt st" using assms(2,3) by (simp add: work_inv_def)
  from inv_lawful_run [OF assms(1) this assms(2-4)] have "work_inv clnt st'" by blast
  from work_invD(1) [OF this assms(8)] have "attended clnt st' c"
    using assms(9,10) by (simp add: follows_source_def)
  moreover have "blueprint_name c = Some (WithDefaultNamespace ref (coNamespace c))"
    using assms(11) by (simp add: blueprint_name_def)
  moreover have "current clnt (wkCluster st') (WithDefaultNamespace ref (coNamespace c)) = Some (content b)"
    using assms(12) by (simp add: current_def)
  ultimately have "ready_at c (content b)"
    by (cases rule: attended_cases) (use assms(5-7) in auto)
  then show ?thesis by (simp add: up_to_date_ready_at content_def)
qed

text \<open>
  C12. A sticky component can be left behind: while it is processing, \<open>Load\<close> gives it the source it has; when
  it becomes ready with that source, its request is gone, although the blueprint has other contents by then
  and their event has been delivered.
\<close>

theorem sticky_component_left_behind:
  assumes "c \<in> set (wkStore st)" "request_of c \<in> set (wkQueue st)" "\<not> busy st (request_of c)"
    and "\<not> is_deleting c" "\<not> srLoaded (coSourceRef c)" "keep_source c = Inr (Some kept)"
    and "spDigest (coSpec c) = []" "spRevision (coSpec c) = []" "spDependencies (coSpec c) = []"
    and "(artDigest (srsArtifact kept), artRevision (srsArtifact kept)) \<noteq> (GetDigest b, GetRevision b)"
  shows "\<exists>st' c'. work_run clnt http st st' \<and> wkEvents st' = wkEvents st \<and> wkActive st' = wkActive st \<and>
    wkQueue st' = take_request (request_of c) (wkQueue st) \<and> c' \<in> set (wkStore st') \<and> request_of c' = request_of c \<and>
    Component_IsReady c' \<and> \<not> up_to_date c' (GetDigest b) (GetRevision b)"
proof -
  let ?r = "(coSourceRef c)\<lparr>srArtifact := srsArtifact kept, srDigest := srsDigest kept, srLoaded := True\<rparr>"
  let ?c2 = "c\<lparr>coSpec := (coSpec c)\<lparr>spSourceRef := ?r\<rparr>\<rparr>"
  let ?p = "set_attempted ?c2 (srsArtifact kept)"
  let ?rs = "\<lparr>rsObservedGeneration = omGeneration (coMeta c), rsLastObservedAt = None, rsProcessingSince = None, rsReady = True\<rparr>"
  let ?p' = "makeFuncPostReconcile (with_status ?rs ?p)"
  let ?st = "st\<lparr>wkCluster := wkCluster st, wkQueue := take_request (request_of c) (wkQueue st), wkActive := ?p # wkActive st\<rparr>"
  let ?st' = "?st\<lparr>wkStore := write_status ?p' (wkStore ?st), wkActive := remove1 ?p (wkActive ?st)\<rparr>"
  let ?c' = "c\<lparr>coStatus := coStatus ?p'\<rparr>"
  have "Load clnt http (wkCluster st) (coSourceRef c) c = Some (wkCluster st, Inr (?r, c))"
    by (rule Load_kept [OF assms(5,4,6)])
  moreover have "makeFuncPostRead ?c2 = Inr ()" using assms(7,8) by (simp add: makeFuncPostRead_def Let_def)
  moreover have "makeFuncPreReconcile (\<lambda>_. Inl (NotFound [])) ?c2 = (?p, Inr ())"
    using assms(9) by (simp add: makeFuncPreReconcile_def SourceReference_Artifact_def Let_def set_attempted_def)
  ultimately have "work_step clnt http st ?st"
    using work_step.Taking [OF assms(1-4) _ refl] by blast
  moreover have ready: "Component_IsReady ?p'"
    by (simp add: Component_IsReady_def makeFuncPostReconcile_def with_status_def set_attempted_def)
  then have "work_step clnt http ?st ?st'" by (intro work_step.Finishing [OF _ refl]) simp_all
  ultimately have "work_run clnt http st ?st'" by (blast intro: work_run.intros)
  moreover have "?c' \<in> set (wkStore ?st')"
  proof -
    have "request_of c = request_of ?p'" by (simp add: set_attempted_def request_of_def)
    with assms(1) show ?thesis by (force simp: write_status_def name_request)
  qed
  moreover have "Component_IsReady ?c'" using ready by (simp add: Component_IsReady_def set_attempted_def)
  moreover have "\<not> up_to_date ?c' (GetDigest b) (GetRevision b)"
    using assms(10) by (auto simp: up_to_date_def makeFuncPostReconcile_def with_status_def set_attempted_def)
  moreover have "request_of ?c' = request_of c" by simp
  ultimately show ?thesis
    by (intro exI [of _ ?st'] exI [of _ ?c']) simp
qed

text \<open>
  C13. A flux source that returns to an earlier artifact while a component is reconciled from a later one is
  missed: the status that is stored until the end still names the earlier artifact, so that the event queues
  nothing for the component. When the reconciliation ends with a ready status, the stored component is ready
  at the later artifact, which it has applied, and not at the one that the source has.
\<close>

theorem rollback_is_missed:
  assumes "cache_serves store key clist" "slash \<notin> set (omNamespace (fsMeta src))"
    and "clist [MatchingFluxSource key src] = Inr items" "fsArtifact src = Some a"
    and "c \<in> store" "\<And>d. d \<in> store \<Longrightarrow> request_of d = request_of c \<Longrightarrow> d = c" "up_to_date c (faDigest a) (faRevision a)"
    and "Load clnt http s (coSourceRef c) c = Some (s', Inr (r', c1))" "\<not> is_deleting c"
    and "makeFuncPreReconcile get (c1\<lparr>coSpec := (coSpec c1)\<lparr>spSourceRef := r'\<rparr>\<rparr>) = (p, Inr ())"
    and "(artDigest (srArtifact r'), artRevision (srArtifact r')) \<noteq> (faDigest a, faRevision a)"
    and "rsReady rs" "rsObservedGeneration rs = omGeneration (coMeta c)"
    and "stored = c\<lparr>coStatus := coStatus (makeFuncPostReconcile (with_status rs p))\<rparr>"
  shows "(request_of c \<in> set (fluxSourceHandler key clist (UpdateEvent old src) q) \<longleftrightarrow> request_of c \<in> set q) \<and>
    up_to_date stored (artDigest (srArtifact r')) (artRevision (srArtifact r')) \<and>
    csLastAppliedDigest (coStatus stored) = artDigest (srArtifact r') \<and>
    csLastAppliedRevision (coStatus stored) = artRevision (srArtifact r') \<and>
    \<not> up_to_date stored (faDigest a) (faRevision a)"
proof -
  have "set items \<subseteq> store" using flux_query [OF assms(1-3)] by blast
  then have "request_of c \<notin> request_of ` {d \<in> set items. \<not> up_to_date d (faDigest a) (faRevision a)}"
    using assms(6,7) by (auto dest: sym)
  then have "request_of c \<in> set (fluxSourceHandler key clist (UpdateEvent old src) q) \<longleftrightarrow> request_of c \<in> set q"
    using assms(3,4) by (auto simp: fluxSourceHandler_Update_def foldl_q_Add_if Let_def)
  moreover have "p = set_attempted (c1\<lparr>coSpec := (coSpec c1)\<lparr>spSourceRef := r'\<rparr>\<rparr>) (srArtifact r')"
    using assms(10) Load_records(1) [OF assms(8,9)] by (simp add: makeFuncPreReconcile_def SourceReference_Artifact_def Let_def)
  then have "up_to_date stored (artDigest (srArtifact r')) (artRevision (srArtifact r')) \<and>
      csLastAppliedDigest (coStatus stored) = artDigest (srArtifact r') \<and>
      csLastAppliedRevision (coStatus stored) = artRevision (srArtifact r')"
    using assms(12,13)
    by (simp add: assms(14) up_to_date_def Component_IsReady_def makeFuncPostReconcile_def with_status_def set_attempted_def)
  moreover from this have "\<not> up_to_date stored (faDigest a) (faRevision a)"
    using assms(11) by (auto simp: up_to_date_def)
  ultimately show ?thesis by blast
qed

end
