(* ===== verification/GoHeap.thy ===== *)
theory GoHeap
  imports "HOL-Library.AList"
begin

text \<open>
  Memory for the code that copies objects: an address points to a cell, and a Go value is what a variable
  holds, with addresses for its pointers, maps and slices. The locale \<open>deep_copier\<close> is the contract of a
  deep copy: the same contents, in cells that nothing else refers to. Copying a pointer, a slice, a map or
  two fields one after the other keeps the contract.
\<close>

section \<open>Cells and addresses\<close>

type_synonym addr = nat

record 'c heap =
  hpNext :: addr
  hpCells :: "addr \<Rightarrow> 'c option"

definition alloc :: "'c \<Rightarrow> 'c heap \<Rightarrow> 'c heap \<times> addr" where
  "alloc c h = (h\<lparr>hpNext := Suc (hpNext h), hpCells := (hpCells h)(hpNext h \<mapsto> c)\<rparr>, hpNext h)"

definition put_cell :: "addr \<Rightarrow> 'c \<Rightarrow> 'c heap \<Rightarrow> 'c heap" where
  "put_cell a c h = h\<lparr>hpCells := (hpCells h)(a \<mapsto> c)\<rparr>"

definition wf_heap :: "'c heap \<Rightarrow> bool" where
  "wf_heap h \<longleftrightarrow> (\<forall>a. hpCells h a \<noteq> None \<longrightarrow> a < hpNext h)"

text \<open>A heap extends another one when all that was allocated is untouched.\<close>

definition extends :: "'c heap \<Rightarrow> 'c heap \<Rightarrow> bool" where
  "extends h h' \<longleftrightarrow> hpNext h \<le> hpNext h' \<and> (\<forall>a < hpNext h. hpCells h' a = hpCells h a)"

lemma extends_refl [simp]: "extends h h"
  by (simp add: extends_def)

lemma extends_trans [trans]: "extends h h' \<Longrightarrow> extends h' h'' \<Longrightarrow> extends h h''"
  by (auto simp: extends_def)

lemma alloc_facts:
  assumes "wf_heap h" "alloc c h = (h', a)"
  shows "wf_heap h'" "extends h h'" "a = hpNext h" "hpNext h' = Suc a" "hpCells h' a = Some c"
  using assms by (auto simp: alloc_def wf_heap_def extends_def less_Suc_eq)

lemma put_cell_facts:
  assumes "wf_heap h'" "extends h h'" "hpNext h \<le> a" "a < hpNext h'"
  shows "wf_heap (put_cell a c h')" "extends h (put_cell a c h')"
  using assms by (auto simp: put_cell_def wf_heap_def extends_def)

lemma put_cell_cells [simp]: "hpCells (put_cell a c h) b = (if b = a then Some c else hpCells h b)" "hpNext (put_cell a c h) = hpNext h"
  by (simp_all add: put_cell_def)

section \<open>Copying\<close>

text \<open>A flat value is copied by assignment.\<close>

definition copy_flat :: "'c heap \<Rightarrow> 'a \<Rightarrow> 'c heap \<times> 'a" where
  "copy_flat h x = (h, x)"

definition copy_pair ::
  "('c heap \<Rightarrow> 'a \<Rightarrow> 'c heap \<times> 'a) \<Rightarrow> ('c heap \<Rightarrow> 'b \<Rightarrow> 'c heap \<times> 'b) \<Rightarrow> 'c heap \<Rightarrow> 'a \<times> 'b \<Rightarrow> 'c heap \<times> 'a \<times> 'b" where
  "copy_pair f g h p = (let (h1, x) = f h (fst p); (h2, y) = g h1 (snd p) in (h2, x, y))"

text \<open>
  A pointer: nil stays nil; otherwise a new cell is allocated, holding a shallow copy of the one pointed
  to, and what the cell refers to is copied in turn. Cells have the type the program gives them, so the
  projection \<open>un\<close> succeeds on every pointer that is not dangling.
\<close>

definition copy_ptr ::
  "('a \<Rightarrow> 'c) \<Rightarrow> ('c \<Rightarrow> 'a option) \<Rightarrow> ('c heap \<Rightarrow> 'a \<Rightarrow> 'c heap \<times> 'a) \<Rightarrow> 'c heap \<Rightarrow> addr option \<Rightarrow> 'c heap \<times> addr option" where
  "copy_ptr mk un f h p = (case p of
     None \<Rightarrow> (h, None)
   | Some a \<Rightarrow> (case Option.bind (hpCells h a) un of
       None \<Rightarrow> (h, None)
     | Some x \<Rightarrow>
         (let (h1, a') = alloc (mk x) h;
              (h2, y) = f h1 x
          in (put_cell a' (mk y) h2, Some a'))))"

text \<open>The elements of a slice are copied one after the other; the slice is a pointer to its array.\<close>

fun copy_elems :: "('c heap \<Rightarrow> 'a \<Rightarrow> 'c heap \<times> 'a) \<Rightarrow> 'c heap \<Rightarrow> 'a list \<Rightarrow> 'c heap \<times> 'a list" where
  "copy_elems f h [] = (h, [])"
| "copy_elems f h (x # xs) = (let (h1, y) = f h x; (h2, ys) = copy_elems f h1 xs in (h2, y # ys))"

text \<open>The entries of a map are inserted into a new one, in the order of the iteration.\<close>

fun copy_entries :: "('k \<times> 'v) list \<Rightarrow> ('k \<times> 'v) list \<Rightarrow> ('k \<times> 'v) list" where
  "copy_entries [] m = m"
| "copy_entries ((k, v) # es) m = copy_entries es (AList.update k v m)"

definition copy_map :: "'c heap \<Rightarrow> ('k \<times> 'v) list \<Rightarrow> 'c heap \<times> ('k \<times> 'v) list" where
  "copy_map h m = (h, copy_entries m [])"

section \<open>Contents and extent of a value\<close>

text \<open>
  The contents of a value with everything it refers to, independent of addresses; \<open>None\<close> if a pointer
  dangles. The extent is the set of addresses it refers to.
\<close>

definition view_ptr ::
  "('c \<Rightarrow> 'a option) \<Rightarrow> ('c heap \<Rightarrow> 'a \<Rightarrow> 'v option) \<Rightarrow> 'c heap \<Rightarrow> addr option \<Rightarrow> 'v option option" where
  "view_ptr un view h p = (case p of
     None \<Rightarrow> Some None
   | Some a \<Rightarrow> (case Option.bind (hpCells h a) un of None \<Rightarrow> None | Some x \<Rightarrow> map_option Some (view h x)))"

definition reach_ptr ::
  "('c \<Rightarrow> 'a option) \<Rightarrow> ('c heap \<Rightarrow> 'a \<Rightarrow> addr set) \<Rightarrow> 'c heap \<Rightarrow> addr option \<Rightarrow> addr set" where
  "reach_ptr un reach h p = (case p of
     None \<Rightarrow> {}
   | Some a \<Rightarrow> insert a (case Option.bind (hpCells h a) un of None \<Rightarrow> {} | Some x \<Rightarrow> reach h x))"

definition view_flat :: "'c heap \<Rightarrow> 'a \<Rightarrow> 'a option" where "view_flat h x = Some x"

definition reach_flat :: "'c heap \<Rightarrow> 'a \<Rightarrow> addr set" where "reach_flat h x = {}"

definition view_map :: "'c heap \<Rightarrow> ('k \<times> 'v) list \<Rightarrow> ('k \<Rightarrow> 'v option) option" where
  "view_map h m = (if distinct (map fst m) then Some (map_of m) else None)"

definition view_pair ::
  "('c heap \<Rightarrow> 'a \<Rightarrow> 'v option) \<Rightarrow> ('c heap \<Rightarrow> 'b \<Rightarrow> 'w option) \<Rightarrow> 'c heap \<Rightarrow> 'a \<times> 'b \<Rightarrow> ('v \<times> 'w) option" where
  "view_pair u w h p = (case (u h (fst p), w h (snd p)) of (Some x, Some y) \<Rightarrow> Some (x, y) | _ \<Rightarrow> None)"

definition reach_pair ::
  "('c heap \<Rightarrow> 'a \<Rightarrow> addr set) \<Rightarrow> ('c heap \<Rightarrow> 'b \<Rightarrow> addr set) \<Rightarrow> 'c heap \<Rightarrow> 'a \<times> 'b \<Rightarrow> addr set" where
  "reach_pair r q h p = r h (fst p) \<union> q h (snd p)"

fun view_elems :: "('c heap \<Rightarrow> 'a \<Rightarrow> 'v option) \<Rightarrow> 'c heap \<Rightarrow> 'a list \<Rightarrow> 'v list option" where
  "view_elems u h [] = Some []"
| "view_elems u h (x # xs) = (case (u h x, view_elems u h xs) of (Some v, Some vs) \<Rightarrow> Some (v # vs) | _ \<Rightarrow> None)"

definition reach_elems :: "('c heap \<Rightarrow> 'a \<Rightarrow> addr set) \<Rightarrow> 'c heap \<Rightarrow> 'a list \<Rightarrow> addr set" where
  "reach_elems r h xs = (\<Union>x \<in> set xs. r h x)"

section \<open>The contract\<close>

text \<open>
  Contents and extent depend on the cells of the extent only; the extent of a value that does not dangle is
  allocated; copying leaves the allocated cells alone and yields the same contents in new cells.
\<close>

locale deep_copier =
  fixes view :: "'c heap \<Rightarrow> 'a \<Rightarrow> 'v option"
    and reach :: "'c heap \<Rightarrow> 'a \<Rightarrow> addr set"
    and copy :: "'c heap \<Rightarrow> 'a \<Rightarrow> 'c heap \<times> 'a"
  assumes local_view: "\<forall>a \<in> reach h x. hpCells h' a = hpCells h a \<Longrightarrow> view h' x = view h x"
    and local_reach: "\<forall>a \<in> reach h x. hpCells h' a = hpCells h a \<Longrightarrow> reach h' x = reach h x"
    and reach_below: "wf_heap h \<Longrightarrow> view h x = Some v \<Longrightarrow> a \<in> reach h x \<Longrightarrow> a < hpNext h"
    and copy_wf: "wf_heap h \<Longrightarrow> copy h x = (h', y) \<Longrightarrow> wf_heap h'"
    and copy_extends: "wf_heap h \<Longrightarrow> copy h x = (h', y) \<Longrightarrow> extends h h'"
    and copy_view: "wf_heap h \<Longrightarrow> view h x = Some v \<Longrightarrow> copy h x = (h', y) \<Longrightarrow> view h' y = Some v"
    and copy_fresh: "wf_heap h \<Longrightarrow> view h x = Some v \<Longrightarrow> copy h x = (h', y) \<Longrightarrow> a \<in> reach h' y \<Longrightarrow> hpNext h \<le> a"
begin

lemma view_extends:
  assumes "wf_heap h" "view h x = Some v" "extends h h'"
  shows "view h' x = Some v" "reach h' x = reach h x"
proof -
  have "\<forall>a \<in> reach h x. hpCells h' a = hpCells h a"
    using reach_below [OF assms(1,2)] assms(3) by (auto simp: extends_def)
  then show "view h' x = Some v" "reach h' x = reach h x"
    using local_view [of h x h'] local_reach [of h x h'] assms(2) by simp_all
qed

text \<open>
  Original and copy live apart: whatever is written to cells that the one does not refer to leaves its
  contents as they are.
\<close>

lemma copy_apart:
  assumes "wf_heap h" "view h x = Some v" "copy h x = (h', y)"
  shows "view h' x = Some v" "view h' y = Some v" "reach h' x \<inter> reach h' y = {}"
    and "\<And>h''. \<forall>a. a \<notin> reach h' y \<longrightarrow> hpCells h'' a = hpCells h' a \<Longrightarrow> view h'' x = Some v"
    and "\<And>h''. \<forall>a. a \<notin> reach h' x \<longrightarrow> hpCells h'' a = hpCells h' a \<Longrightarrow> view h'' y = Some v"
proof -
  note e = view_extends [OF assms(1,2) copy_extends [OF assms(1,3)]]
  show v: "view h' x = Some v" by (rule e)
  show w: "view h' y = Some v" by (rule copy_view [OF assms])
  show d: "reach h' x \<inter> reach h' y = {}"
    using e(2) reach_below [OF assms(1,2)] copy_fresh [OF assms] by fastforce
  show "view h'' x = Some v" if "\<forall>a. a \<notin> reach h' y \<longrightarrow> hpCells h'' a = hpCells h' a" for h''
    using local_view [of h' x h''] that d v by auto
  show "view h'' y = Some v" if "\<forall>a. a \<notin> reach h' x \<longrightarrow> hpCells h'' a = hpCells h' a" for h''
    using local_view [of h' y h''] that d w by auto
qed

text \<open>Pointers.\<close>

lemma ptr_copied:
  assumes "wf_heap h" "Option.bind (hpCells h a) un = Some x" "copy_ptr mk un copy h (Some a) = (h', p)"
  obtains h1 h2 y where "alloc (mk x) h = (h1, hpNext h)" "wf_heap h1" "extends h h1" "hpNext h1 = Suc (hpNext h)"
    "copy h1 x = (h2, y)" "wf_heap h2" "extends h1 h2" "h' = put_cell (hpNext h) (mk y) h2" "p = Some (hpNext h)"
    "wf_heap h'" "extends h h'"
proof -
  obtain h1 a' where a: "alloc (mk x) h = (h1, a')" by (meson surj_pair)
  obtain h2 y where c: "copy h1 x = (h2, y)" by (meson surj_pair)
  note f = alloc_facts [OF assms(1) a]
  have h2: "wf_heap h2" "extends h1 h2" using copy_wf [OF f(1) c] copy_extends [OF f(1) c] .
  have r: "h' = put_cell a' (mk y) h2" "p = Some a'"
    using assms(2,3) a c by (simp_all add: copy_ptr_def)
  have "a' < hpNext h2" using h2(2) f(4) by (simp add: extends_def)
  then have "wf_heap h'" "extends h h'"
    using put_cell_facts [OF h2(1) extends_trans [OF f(2) h2(2)]] f(3) r(1) by simp_all
  with a c f h2 r that show thesis by blast
qed

lemma copy_ptr_dangling:
  "Option.bind (hpCells h a) un = None \<Longrightarrow> copy_ptr mk un copy h (Some a) = (h, None)"
  by (simp add: copy_ptr_def)

lemma copy_ptr_None [simp]: "copy_ptr mk un copy h None = (h, None)"
  by (simp add: copy_ptr_def)

lemma copy_ptr_safe:
  assumes "wf_heap h" "copy_ptr mk un copy h p = (h', q)"
  shows "wf_heap h' \<and> extends h h'"
proof (cases p)
  case (Some a)
  show ?thesis
  proof (cases "Option.bind (hpCells h a) un")
    case None
    with Some assms show ?thesis by (simp add: copy_ptr_dangling)
  next
    case cell: (Some x)
    from ptr_copied [OF assms(1) cell] assms(2) Some show ?thesis by metis
  qed
qed (use assms in simp)

lemma copy_ptr_good:
  assumes "wf_heap h" "\<And>x. un (mk x) = Some x"
    and "view_ptr un view h p = Some v" "copy_ptr mk un copy h p = (h', q)"
  shows "view_ptr un view h' q = Some v \<and> (\<forall>a \<in> reach_ptr un reach h' q. hpNext h \<le> a)"
proof (cases p)
  case None
  with assms show ?thesis by (auto simp: view_ptr_def reach_ptr_def)
next
  case (Some a)
  with assms(3) obtain x vx where x: "Option.bind (hpCells h a) un = Some x" "view h x = Some vx" "v = Some vx"
    by (auto simp: view_ptr_def split: option.splits)
  from assms(4) Some have "copy_ptr mk un copy h (Some a) = (h', q)" by simp
  then show ?thesis
  proof (rule ptr_copied [OF assms(1) x(1)])
    fix h1 h2 y
    assume h: "wf_heap h1" "extends h h1" "hpNext h1 = Suc (hpNext h)" "copy h1 x = (h2, y)" "wf_heap h2"
      "h' = put_cell (hpNext h) (mk y) h2" "q = Some (hpNext h)"
    have v1: "view h1 x = Some vx" by (rule view_extends [OF assms(1) x(2) h(2)])
    have v2: "view h2 y = Some vx" by (rule copy_view [OF h(1) v1 h(4)])
    have fr: "\<And>b. b \<in> reach h2 y \<Longrightarrow> Suc (hpNext h) \<le> b" using copy_fresh [OF h(1) v1 h(4)] h(3) by simp
    then have same: "\<forall>b \<in> reach h2 y. hpCells h' b = hpCells h2 b" using h(6) by fastforce
    have "view h' y = Some vx" "reach h' y = reach h2 y"
      using local_view [OF same] local_reach [OF same] v2 by simp_all
    then show ?thesis using h(6,7) assms(2) x(3) fr
      by (auto simp: view_ptr_def reach_ptr_def Suc_le_eq less_imp_le)
  qed
qed

lemma ptr_local:
  assumes "\<forall>a \<in> reach_ptr un reach h p. hpCells h' a = hpCells h a"
  shows "view_ptr un view h' p = view_ptr un view h p \<and> reach_ptr un reach h' p = reach_ptr un reach h p"
proof (cases p)
  case (Some a)
  then have c: "hpCells h' a = hpCells h a" using assms by (simp add: reach_ptr_def)
  show ?thesis
  proof (cases "Option.bind (hpCells h a) un")
    case None
    with Some c show ?thesis by (simp add: view_ptr_def reach_ptr_def)
  next
    case x: (Some x)
    with Some assms have "\<forall>b \<in> reach h x. hpCells h' b = hpCells h b" by (simp add: reach_ptr_def)
    from local_view [OF this] local_reach [OF this] Some x c show ?thesis by (simp add: view_ptr_def reach_ptr_def)
  qed
qed (simp add: view_ptr_def reach_ptr_def)

lemma ptr_below:
  assumes "wf_heap h" "view_ptr un view h p = Some v" "b \<in> reach_ptr un reach h p"
  shows "b < hpNext h"
proof (cases p)
  case (Some a)
  with assms(2) obtain x vx where x: "Option.bind (hpCells h a) un = Some x" "view h x = Some vx"
    by (auto simp: view_ptr_def split: option.splits)
  from x(1) have "hpCells h a \<noteq> None" by (cases "hpCells h a") simp_all
  then have "a < hpNext h" using assms(1) by (simp add: wf_heap_def)
  with Some x assms(3) reach_below [OF assms(1) x(2)] show ?thesis by (auto simp: reach_ptr_def)
qed (use assms(3) in \<open>simp add: reach_ptr_def\<close>)

lemma pointer:
  assumes "\<And>x. un (mk x) = Some x"
  shows "deep_copier (view_ptr un view) (reach_ptr un reach) (copy_ptr mk un copy)"
proof
  fix h h' :: "'c heap" and p q :: "addr option" and v and a
  show "view_ptr un view h' p = view_ptr un view h p" if "\<forall>a \<in> reach_ptr un reach h p. hpCells h' a = hpCells h a"
    using ptr_local [OF that] by simp
  show "reach_ptr un reach h' p = reach_ptr un reach h p" if "\<forall>a \<in> reach_ptr un reach h p. hpCells h' a = hpCells h a"
    using ptr_local [OF that] by simp
  show "a < hpNext h" if "wf_heap h" "view_ptr un view h p = Some v" "a \<in> reach_ptr un reach h p"
    by (rule ptr_below [OF that])
  show "wf_heap h'" "extends h h'" if "wf_heap h" "copy_ptr mk un copy h p = (h', q)"
    using copy_ptr_safe [OF that] by simp_all
  assume g: "wf_heap h" "view_ptr un view h p = Some v" "copy_ptr mk un copy h p = (h', q)"
  note r = copy_ptr_good [OF g(1) assms g(2,3)]
  from r show "view_ptr un view h' q = Some v" by simp
  from r show "hpNext h \<le> a" if "a \<in> reach_ptr un reach h' q" using that by simp
qed

text \<open>The elements of a slice, and the slice itself.\<close>

lemma elems_safe:
  "wf_heap h \<Longrightarrow> copy_elems copy h xs = (h', ys) \<Longrightarrow> wf_heap h' \<and> extends h h'"
proof (induction xs arbitrary: h ys)
  case (Cons x xs)
  obtain h1 y where c: "copy h x = (h1, y)" by (meson surj_pair)
  obtain zs where e: "copy_elems copy h1 xs = (h', zs)" using Cons.prems(2) c by (auto split: prod.splits)
  from Cons.IH [OF copy_wf [OF Cons.prems(1) c] e] copy_extends [OF Cons.prems(1) c]
  show ?case using extends_trans by blast
qed simp

lemma elems_local:
  "\<forall>a \<in> reach_elems reach h xs. hpCells h' a = hpCells h a \<Longrightarrow>
     view_elems view h' xs = view_elems view h xs \<and> reach_elems reach h' xs = reach_elems reach h xs"
proof (induction xs)
  case (Cons x xs)
  then have "\<forall>a \<in> reach h x. hpCells h' a = hpCells h a" "\<forall>a \<in> reach_elems reach h xs. hpCells h' a = hpCells h a"
    by (simp_all add: reach_elems_def)
  from local_view [OF this(1)] local_reach [OF this(1)] Cons.IH [OF this(2)] show ?case
    by (simp add: reach_elems_def)
qed (simp add: reach_elems_def)

lemma view_elems_Cons:
  "view_elems view h (x # xs) = Some vs \<longleftrightarrow>
     (\<exists>v ws. view h x = Some v \<and> view_elems view h xs = Some ws \<and> vs = v # ws)"
  by (auto split: option.splits)

lemma elems_below:
  "wf_heap h \<Longrightarrow> view_elems view h xs = Some vs \<Longrightarrow> a \<in> reach_elems reach h xs \<Longrightarrow> a < hpNext h"
proof (induction xs arbitrary: vs)
  case (Cons x xs)
  then show ?case using reach_below by (auto simp: reach_elems_def view_elems_Cons simp del: view_elems.simps)
qed (simp add: reach_elems_def)

lemma elems_good:
  "wf_heap h \<Longrightarrow> view_elems view h xs = Some vs \<Longrightarrow> copy_elems copy h xs = (h', ys) \<Longrightarrow>
     view_elems view h' ys = Some vs \<and> (\<forall>a \<in> reach_elems reach h' ys. hpNext h \<le> a)"
proof (induction xs arbitrary: h vs ys)
  case (Cons x xs)
  from Cons.prems(2) obtain v ws where v: "view h x = Some v" "view_elems view h xs = Some ws" "vs = v # ws"
    by (auto simp: view_elems_Cons simp del: view_elems.simps)
  obtain h1 y where c: "copy h x = (h1, y)" by (meson surj_pair)
  obtain zs where e: "copy_elems copy h1 xs = (h', zs)" and ys: "ys = y # zs"
    using Cons.prems(3) c by (auto split: prod.splits)
  note h1 = copy_wf [OF Cons.prems(1) c] copy_extends [OF Cons.prems(1) c]
  have w1: "view_elems view h1 xs = Some ws"
    using elems_local [of h xs h1] elems_below [OF Cons.prems(1) v(2)] v(2) h1(2) by (auto simp: extends_def)
  note ih = Cons.IH [OF h1(1) w1 e]
  have vy: "view h1 y = Some v" by (rule copy_view [OF Cons.prems(1) v(1) c])
  from elems_safe [OF h1(1) e] have "extends h1 h'" by simp
  note e' = view_extends [OF h1(1) vy this]
  have "hpNext h \<le> hpNext h1" using h1(2) by (simp add: extends_def)
  then have zs: "\<forall>a \<in> reach_elems reach h' zs. hpNext h \<le> a" using ih by (meson order_trans)
  have y': "view h' y = Some v" "reach h' y = reach h1 y" using e' by simp_all
  then have "\<forall>a \<in> reach h' y. hpNext h \<le> a" using copy_fresh [OF Cons.prems(1) v(1) c] by simp
  with zs have "\<forall>a \<in> reach_elems reach h' ys. hpNext h \<le> a" using ys by (auto simp: reach_elems_def)
  moreover have "view_elems view h' ys = Some vs" using ih y'(1) ys v(3) by simp
  ultimately show ?case by blast
qed (simp add: reach_elems_def)

lemma elems: "deep_copier (view_elems view) (reach_elems reach) (copy_elems copy)"
proof
  fix h h' :: "'c heap" and xs ys and vs and a
  show "view_elems view h' xs = view_elems view h xs" if "\<forall>a \<in> reach_elems reach h xs. hpCells h' a = hpCells h a"
    using elems_local [OF that] by simp
  show "reach_elems reach h' xs = reach_elems reach h xs" if "\<forall>a \<in> reach_elems reach h xs. hpCells h' a = hpCells h a"
    using elems_local [OF that] by simp
  show "a < hpNext h" if "wf_heap h" "view_elems view h xs = Some vs" "a \<in> reach_elems reach h xs"
    by (rule elems_below [OF that])
  show "wf_heap h'" "extends h h'" if "wf_heap h" "copy_elems copy h xs = (h', ys)"
    using elems_safe [OF that] by simp_all
  assume g: "wf_heap h" "view_elems view h xs = Some vs" "copy_elems copy h xs = (h', ys)"
  show "view_elems view h' ys = Some vs" using elems_good [OF g] by simp
  show "hpNext h \<le> a" if "a \<in> reach_elems reach h' ys" using elems_good [OF g] that by simp
qed

text \<open>A struct that is copied by copying some of its fields and writing them into the shallow copy.\<close>

lemma struct:
  assumes "\<And>h r. copy' h r = (let (h', y) = copy h (get r) in (h', put y r))" "\<And>y r. get (put y r) = y"
  shows "deep_copier (\<lambda>h r. view h (get r)) (\<lambda>h r. reach h (get r)) copy'"
proof
  fix h h' :: "'c heap" and r s and v and a
  show "view h' (get r) = view h (get r)" if "\<forall>a \<in> reach h (get r). hpCells h' a = hpCells h a"
    by (rule local_view [OF that])
  show "reach h' (get r) = reach h (get r)" if "\<forall>a \<in> reach h (get r). hpCells h' a = hpCells h a"
    by (rule local_reach [OF that])
  show "a < hpNext h" if "wf_heap h" "view h (get r) = Some v" "a \<in> reach h (get r)"
    by (rule reach_below [OF that])
  show "wf_heap h'" "extends h h'" if "wf_heap h" "copy' h r = (h', s)"
    using that copy_wf [OF that(1)] copy_extends [OF that(1)] assms(1) by (auto split: prod.splits)
  assume g: "wf_heap h" "view h (get r) = Some v" "copy' h r = (h', s)"
  then obtain y where y: "copy h (get r) = (h', y)" "s = put y r" using assms(1) by (auto split: prod.splits)
  show "view h' (get s) = Some v" using copy_view [OF g(1,2) y(1)] y(2) assms(2) by simp
  show "hpNext h \<le> a" if "a \<in> reach h' (get s)" using copy_fresh [OF g(1,2) y(1)] y(2) assms(2) that by simp
qed

end

section \<open>Copiers\<close>

interpretation flat: deep_copier view_flat reach_flat copy_flat
  by unfold_locales (simp_all add: view_flat_def reach_flat_def copy_flat_def)

lemma copy_entries_map:
  "distinct (map fst es) \<Longrightarrow> distinct (map fst m) \<Longrightarrow>
     distinct (map fst (copy_entries es m)) \<and> map_of (copy_entries es m) = map_of m ++ map_of es"
proof (induction es m rule: copy_entries.induct)
  case (2 k v es m)
  have d: "distinct (map fst (AList.update k v m))" using 2 by (simp add: AList.distinct_update)
  with 2 have ih: "distinct (map fst (copy_entries es (AList.update k v m)))"
    "map_of (copy_entries es (AList.update k v m)) = map_of (AList.update k v m) ++ map_of es" by simp_all
  have "(map_of m)(k \<mapsto> v) ++ map_of es = map_of m ++ map_of ((k, v) # es)"
    using 2(2) by (simp add: map_add_upd_left dom_map_of_conv_image_fst)
  then show ?case using ih by (simp add: update_conv' del: map_of.simps)
qed simp

lemma map_copier:
  fixes view :: "'c heap \<Rightarrow> ('k \<times> 'v) list \<Rightarrow> ('k \<Rightarrow> 'v option) option"
  assumes "view = view_map"
  shows "deep_copier view reach_flat copy_map"
  unfolding assms
proof
  fix h h' :: "'c heap" and m m' :: "('k \<times> 'v) list" and v
  assume "view_map h m = Some v" "copy_map h m = (h', m')"
  then show "view_map h' m' = Some v"
    using copy_entries_map [of m "[]"] by (auto simp: view_map_def copy_map_def split: if_splits)
qed (simp_all add: reach_flat_def view_map_def copy_map_def)

interpretation map_copy: deep_copier view_map reach_flat copy_map
  by (rule map_copier) (rule refl)

lemma pair_copier:
  assumes "deep_copier u r f" "deep_copier w q g"
  shows "deep_copier (view_pair u w) (reach_pair r q) (copy_pair f g)"
proof -
  note l = deep_copier.local_view [OF assms(1)] deep_copier.local_view [OF assms(2)]
    deep_copier.local_reach [OF assms(1)] deep_copier.local_reach [OF assms(2)]
  note b = deep_copier.reach_below [OF assms(1)] deep_copier.reach_below [OF assms(2)]
  have safe: "wf_heap h1 \<and> wf_heap h' \<and> extends h h1 \<and> extends h1 h'"
    if "wf_heap h" "f h x = (h1, x')" "g h1 y = (h', y')" for h h1 h' x y x' y'
    using that deep_copier.copy_wf [OF assms(1)] deep_copier.copy_wf [OF assms(2)]
      deep_copier.copy_extends [OF assms(1)] deep_copier.copy_extends [OF assms(2)] by blast
  have split: "\<exists>h1 x' y'. f h (fst p) = (h1, x') \<and> g h1 (snd p) = (h', y') \<and> p' = (x', y')"
    if "copy_pair f g h p = (h', p')" for h h' p p'
    using that by (auto simp: copy_pair_def Let_def split: prod.splits)
  have views: "view_pair u w h p = Some v \<longleftrightarrow> u h (fst p) = Some (fst v) \<and> w h (snd p) = Some (snd v)" for h p v
    by (cases v) (auto simp: view_pair_def split: option.splits)
  have good: "view_pair u w h' p' = Some v \<and> (\<forall>a \<in> reach_pair r q h' p'. hpNext h \<le> a)"
    if "wf_heap h" "view_pair u w h p = Some v" "copy_pair f g h p = (h', p')" for h h' p p' v
  proof -
    from split [OF that(3)] obtain h1 x' y'
      where s: "f h (fst p) = (h1, x')" "g h1 (snd p) = (h', y')" "p' = (x', y')" by blast
    note sf = safe [OF that(1) s(1,2)]
    from that(2) have v: "u h (fst p) = Some (fst v)" "w h (snd p) = Some (snd v)" by (simp_all add: views)
    have w1: "w h1 (snd p) = Some (snd v)" using deep_copier.view_extends [OF assms(2) that(1) v(2)] sf by blast
    have x: "u h1 x' = Some (fst v)" by (rule deep_copier.copy_view [OF assms(1) that(1) v(1) s(1)])
    have y: "w h' y' = Some (snd v)" using deep_copier.copy_view [OF assms(2) _ w1 s(2)] sf by blast
    have x': "u h' x' = Some (fst v)" "r h' x' = r h1 x'"
      using deep_copier.view_extends [OF assms(1) _ x] sf by blast+
    have "hpNext h \<le> hpNext h1" using sf by (simp add: extends_def)
    then have "\<forall>a \<in> r h' x' \<union> q h' y'. hpNext h \<le> a"
      using deep_copier.copy_fresh [OF assms(1) that(1) v(1) s(1)] deep_copier.copy_fresh [OF assms(2) _ w1 s(2)] sf x'(2)
      by (metis Un_iff order_trans)
    then show ?thesis using x' y s(3) by (simp add: views reach_pair_def)
  qed
  show ?thesis
  proof
    fix h h' :: "'a heap" and p p' and v and a
    show "view_pair u w h' p = view_pair u w h p" if "\<forall>a \<in> reach_pair r q h p. hpCells h' a = hpCells h a"
      using that l(1) [of h "fst p" h'] l(2) [of h "snd p" h'] by (simp add: view_pair_def reach_pair_def)
    show "reach_pair r q h' p = reach_pair r q h p" if "\<forall>a \<in> reach_pair r q h p. hpCells h' a = hpCells h a"
      using that l(3) [of h "fst p" h'] l(4) [of h "snd p" h'] by (simp add: reach_pair_def)
    show "a < hpNext h" if "wf_heap h" "view_pair u w h p = Some v" "a \<in> reach_pair r q h p"
      using that b by (auto simp: views reach_pair_def)
    show "wf_heap h'" "extends h h'" if "wf_heap h" "copy_pair f g h p = (h', p')"
      using split [OF that(2)] safe [OF that(1)] extends_trans by blast+
    assume g: "wf_heap h" "view_pair u w h p = Some v" "copy_pair f g h p = (h', p')"
    show "view_pair u w h' p' = Some v" using good [OF g] by simp
    show "hpNext h \<le> a" if "a \<in> reach_pair r q h' p'" using good [OF g] that by simp
  qed
qed

end
