(* ===== verification/DeepCopy.thy ===== *)
theory DeepCopy
  imports ApiTypes GoHeap
begin

text \<open>
  The deep copies of the API types (\<open>api/v1alpha1/zz_generated.deepcopy.go\<close>): every object that is read from
  a cache is copied with them before it is changed. The structs are modelled as they lie in memory, with
  addresses for pointers, maps and slices. What the library packages copy with their own functions (object
  and list metadata, secret references, the runtime's status and specs, kustomize patches) is a value of a
  type parameter with one copying function as an argument, and their flat structs are values of another.
\<close>

section \<open>The types in memory\<close>

record SourceReference_mem =
  msBlueprint :: "addr option"
  msHttpRepository :: "addr option"
  msFluxGitRepository :: "addr option"
  msFluxOciRepository :: "addr option"
  msFluxBucket :: "addr option"
  msFluxHelmChart :: "addr option"
  msArtifact :: Artifact
  msDigest :: string
  msLoaded :: bool

record 'l Decryption_mem =
  mdProvider :: string
  mdSecretRef :: 'l

record PostBuild_mem =
  mpSubstitute :: "addr option"
  mpSubstituteFrom :: "addr option"
  mpPatches :: "addr option"
  mpImages :: "addr option"

record ('l, 'p) ComponentSpec_mem =
  mcPlacementSpec :: 'p
  mcClientSpec :: 'l
  mcImpersonationSpec :: 'p
  mcSuspensionSpec :: 'p
  mcRequeueSpec :: 'l
  mcRetrySpec :: 'l
  mcTimeoutSpec :: 'l
  mcPolicySpec :: 'p
  mcTypeSpec :: 'l
  mcReapplySpec :: 'l
  mcSourceRef :: SourceReference_mem
  mcDigest :: string
  mcRevision :: string
  mcSticky :: bool
  mcPath :: string
  mcValues :: "addr option"
  mcValuesFrom :: "addr option"
  mcDecryption :: "addr option"
  mcPostBuild :: "addr option"
  mcDependencies :: "addr option"

record 'l ComponentStatus_mem =
  mtStatus :: 'l
  mtSourceRef :: "addr option"
  mtLastAttemptedDigest :: string
  mtLastAttemptedRevision :: string
  mtLastAppliedDigest :: string
  mtLastAppliedRevision :: string

record ('l, 'p) Component_mem =
  moTypeMeta :: 'p
  moObjectMeta :: 'l
  moSpec :: "('l, 'p) ComponentSpec_mem"
  moStatus :: "'l ComponentStatus_mem"

record BlueprintSpec_mem =
  mbFiles :: "addr option"

record ('l, 'p) Blueprint_mem =
  meTypeMeta :: 'p
  meObjectMeta :: 'l
  meSpec :: BlueprintSpec_mem

record BlueprintVersionSpec_mem =
  mwBlueprint :: string
  mwDigest :: string
  mwRevision :: string
  mwBlueprintSpec :: BlueprintSpec_mem

record ('l, 'p) BlueprintVersion_mem =
  mvTypeMeta :: 'p
  mvObjectMeta :: 'l
  mvSpec :: BlueprintVersionSpec_mem

text \<open>The three list types have the same layout; their items are in a slice of the element type.\<close>

record ('l, 'p) ObjectList_mem =
  mlTypeMeta :: 'p
  mlListMeta :: 'l
  mlItems :: "addr option"

datatype ('l, 'p) cell =
    NameCell NamespacedName
  | HttpCell HttpRepository
  | ArtifactCell Artifact
  | SourceStatusCell SourceReferenceStatus
  | SourceCell SourceReference_mem
  | MapCell "(string \<times> string) list"
  | NamesCell "NamespacedName list"
  | LibCell 'l
  | LibsCell "'l list"
  | FlatsCell "'p list"
  | DecryptionCell "'l Decryption_mem"
  | PostBuildCell PostBuild_mem
  | SpecCell "('l, 'p) ComponentSpec_mem"
  | StatusCell "'l ComponentStatus_mem"
  | ComponentCell "('l, 'p) Component_mem"
  | ComponentsCell "('l, 'p) Component_mem list"
  | BlueprintSpecCell BlueprintSpec_mem
  | BlueprintCell "('l, 'p) Blueprint_mem"
  | BlueprintsCell "('l, 'p) Blueprint_mem list"
  | VersionSpecCell BlueprintVersionSpec_mem
  | VersionCell "('l, 'p) BlueprintVersion_mem"
  | VersionsCell "('l, 'p) BlueprintVersion_mem list"
  | ObjectListCell "('l, 'p) ObjectList_mem"

type_synonym ('l, 'p) memory = "('l, 'p) cell heap"

text \<open>The type of a cell, as a projection.\<close>

definition name_of :: "('l, 'p) cell \<Rightarrow> (NamespacedName) option" where
  "name_of c = (case c of NameCell x \<Rightarrow> Some x | _ \<Rightarrow> None)"

definition http_of :: "('l, 'p) cell \<Rightarrow> (HttpRepository) option" where
  "http_of c = (case c of HttpCell x \<Rightarrow> Some x | _ \<Rightarrow> None)"

definition artifact_of :: "('l, 'p) cell \<Rightarrow> (Artifact) option" where
  "artifact_of c = (case c of ArtifactCell x \<Rightarrow> Some x | _ \<Rightarrow> None)"

definition source_status_of :: "('l, 'p) cell \<Rightarrow> (SourceReferenceStatus) option" where
  "source_status_of c = (case c of SourceStatusCell x \<Rightarrow> Some x | _ \<Rightarrow> None)"

definition source_of :: "('l, 'p) cell \<Rightarrow> (SourceReference_mem) option" where
  "source_of c = (case c of SourceCell x \<Rightarrow> Some x | _ \<Rightarrow> None)"

definition map_of_cell :: "('l, 'p) cell \<Rightarrow> ((string \<times> string) list) option" where
  "map_of_cell c = (case c of MapCell x \<Rightarrow> Some x | _ \<Rightarrow> None)"

definition names_of :: "('l, 'p) cell \<Rightarrow> (NamespacedName list) option" where
  "names_of c = (case c of NamesCell x \<Rightarrow> Some x | _ \<Rightarrow> None)"

definition lib_of :: "('l, 'p) cell \<Rightarrow> ('l) option" where
  "lib_of c = (case c of LibCell x \<Rightarrow> Some x | _ \<Rightarrow> None)"

definition libs_of :: "('l, 'p) cell \<Rightarrow> ('l list) option" where
  "libs_of c = (case c of LibsCell x \<Rightarrow> Some x | _ \<Rightarrow> None)"

definition flats_of :: "('l, 'p) cell \<Rightarrow> ('p list) option" where
  "flats_of c = (case c of FlatsCell x \<Rightarrow> Some x | _ \<Rightarrow> None)"

definition decryption_of_cell :: "('l, 'p) cell \<Rightarrow> ('l Decryption_mem) option" where
  "decryption_of_cell c = (case c of DecryptionCell x \<Rightarrow> Some x | _ \<Rightarrow> None)"

definition post_build_of :: "('l, 'p) cell \<Rightarrow> (PostBuild_mem) option" where
  "post_build_of c = (case c of PostBuildCell x \<Rightarrow> Some x | _ \<Rightarrow> None)"

definition spec_of_cell :: "('l, 'p) cell \<Rightarrow> (('l, 'p) ComponentSpec_mem) option" where
  "spec_of_cell c = (case c of SpecCell x \<Rightarrow> Some x | _ \<Rightarrow> None)"

definition status_of :: "('l, 'p) cell \<Rightarrow> ('l ComponentStatus_mem) option" where
  "status_of c = (case c of StatusCell x \<Rightarrow> Some x | _ \<Rightarrow> None)"

definition component_of :: "('l, 'p) cell \<Rightarrow> (('l, 'p) Component_mem) option" where
  "component_of c = (case c of ComponentCell x \<Rightarrow> Some x | _ \<Rightarrow> None)"

definition components_of :: "('l, 'p) cell \<Rightarrow> (('l, 'p) Component_mem list) option" where
  "components_of c = (case c of ComponentsCell x \<Rightarrow> Some x | _ \<Rightarrow> None)"

definition blueprint_spec_of :: "('l, 'p) cell \<Rightarrow> (BlueprintSpec_mem) option" where
  "blueprint_spec_of c = (case c of BlueprintSpecCell x \<Rightarrow> Some x | _ \<Rightarrow> None)"

definition blueprint_of :: "('l, 'p) cell \<Rightarrow> (('l, 'p) Blueprint_mem) option" where
  "blueprint_of c = (case c of BlueprintCell x \<Rightarrow> Some x | _ \<Rightarrow> None)"

definition blueprints_of :: "('l, 'p) cell \<Rightarrow> (('l, 'p) Blueprint_mem list) option" where
  "blueprints_of c = (case c of BlueprintsCell x \<Rightarrow> Some x | _ \<Rightarrow> None)"

definition version_spec_of :: "('l, 'p) cell \<Rightarrow> (BlueprintVersionSpec_mem) option" where
  "version_spec_of c = (case c of VersionSpecCell x \<Rightarrow> Some x | _ \<Rightarrow> None)"

definition version_of :: "('l, 'p) cell \<Rightarrow> (('l, 'p) BlueprintVersion_mem) option" where
  "version_of c = (case c of VersionCell x \<Rightarrow> Some x | _ \<Rightarrow> None)"

definition versions_of :: "('l, 'p) cell \<Rightarrow> (('l, 'p) BlueprintVersion_mem list) option" where
  "versions_of c = (case c of VersionsCell x \<Rightarrow> Some x | _ \<Rightarrow> None)"

definition object_list_of :: "('l, 'p) cell \<Rightarrow> (('l, 'p) ObjectList_mem) option" where
  "object_list_of c = (case c of ObjectListCell x \<Rightarrow> Some x | _ \<Rightarrow> None)"

lemma cell_projections [simp]:
  "name_of (NameCell x0) = Some x0"
  "http_of (HttpCell x1) = Some x1"
  "artifact_of (ArtifactCell x2) = Some x2"
  "source_status_of (SourceStatusCell x3) = Some x3"
  "source_of (SourceCell x4) = Some x4"
  "map_of_cell (MapCell x5) = Some x5"
  "names_of (NamesCell x6) = Some x6"
  "lib_of (LibCell x7) = Some x7"
  "libs_of (LibsCell x8) = Some x8"
  "flats_of (FlatsCell x9) = Some x9"
  "decryption_of_cell (DecryptionCell x10) = Some x10"
  "post_build_of (PostBuildCell x11) = Some x11"
  "spec_of_cell (SpecCell x12) = Some x12"
  "status_of (StatusCell x13) = Some x13"
  "component_of (ComponentCell x14) = Some x14"
  "components_of (ComponentsCell x15) = Some x15"
  "blueprint_spec_of (BlueprintSpecCell x16) = Some x16"
  "blueprint_of (BlueprintCell x17) = Some x17"
  "blueprints_of (BlueprintsCell x18) = Some x18"
  "version_spec_of (VersionSpecCell x19) = Some x19"
  "version_of (VersionCell x20) = Some x20"
  "versions_of (VersionsCell x21) = Some x21"
  "object_list_of (ObjectListCell x22) = Some x22"
  by (simp_all add: name_of_def http_of_def artifact_of_def source_status_of_def source_of_def map_of_cell_def names_of_def lib_of_def libs_of_def flats_of_def decryption_of_cell_def post_build_of_def spec_of_cell_def status_of_def component_of_def components_of_def blueprint_spec_of_def blueprint_of_def blueprints_of_def version_spec_of_def version_of_def versions_of_def object_list_of_def)

section \<open>DeepCopyInto\<close>

text \<open>
  A \<open>DeepCopyInto\<close> maps the memory and the contents of \<open>in\<close> to the new memory and the contents written to
  \<open>out\<close>. A local pointer copy \<open>**out = **in\<close> into a \<open>new\<close> cell is a \<open>copy_ptr\<close> of flat contents.
\<close>

type_synonym ('l, 'p, 'a) copying = "('l, 'p) memory \<Rightarrow> 'a \<Rightarrow> ('l, 'p) memory \<times> 'a"

definition NamespacedName_DeepCopyInto :: "('l, 'p, NamespacedName) copying" where
  "NamespacedName_DeepCopyInto h inp = (h, inp)"

definition BlueprintReference_DeepCopyInto :: "('l, 'p, BlueprintReference) copying" where
  "BlueprintReference_DeepCopyInto h inp = (h, inp)"

definition FluxGitRepositoryReference_DeepCopyInto :: "('l, 'p, FluxGitRepositoryReference) copying" where
  "FluxGitRepositoryReference_DeepCopyInto h inp = (h, inp)"

definition FluxOciRepositoryReference_DeepCopyInto :: "('l, 'p, FluxOciRepositoryReference) copying" where
  "FluxOciRepositoryReference_DeepCopyInto h inp = (h, inp)"

definition FluxBucketReference_DeepCopyInto :: "('l, 'p, FluxBucketReference) copying" where
  "FluxBucketReference_DeepCopyInto h inp = (h, inp)"

definition FluxHelmChartReference_DeepCopyInto :: "('l, 'p, FluxHelmChartReference) copying" where
  "FluxHelmChartReference_DeepCopyInto h inp = (h, inp)"

definition Dependency_DeepCopyInto :: "('l, 'p, Dependency) copying" where
  "Dependency_DeepCopyInto h inp = (h, inp)"

definition HttpRepository_DeepCopyInto :: "('l, 'p, HttpRepository) copying" where
  "HttpRepository_DeepCopyInto h inp = (h, inp)"

definition Artifact_DeepCopyInto :: "('l, 'p, Artifact) copying" where
  "Artifact_DeepCopyInto h inp = (h, inp)"

definition SourceReferenceStatus_DeepCopyInto :: "('l, 'p, SourceReferenceStatus) copying" where
  "SourceReferenceStatus_DeepCopyInto h inp = (let out = inp in (h, out\<lparr>srsArtifact := srsArtifact inp\<rparr>))"

definition SourceReference_DeepCopyInto :: "('l, 'p, SourceReference_mem) copying" where
  "SourceReference_DeepCopyInto h inp = (let out = inp;
     (h, p) = copy_ptr NameCell name_of copy_flat h (msBlueprint inp); out = out\<lparr>msBlueprint := p\<rparr>;
     (h, p) = copy_ptr HttpCell http_of copy_flat h (msHttpRepository inp); out = out\<lparr>msHttpRepository := p\<rparr>;
     (h, p) = copy_ptr NameCell name_of copy_flat h (msFluxGitRepository inp); out = out\<lparr>msFluxGitRepository := p\<rparr>;
     (h, p) = copy_ptr NameCell name_of copy_flat h (msFluxOciRepository inp); out = out\<lparr>msFluxOciRepository := p\<rparr>;
     (h, p) = copy_ptr NameCell name_of copy_flat h (msFluxBucket inp); out = out\<lparr>msFluxBucket := p\<rparr>;
     (h, p) = copy_ptr NameCell name_of copy_flat h (msFluxHelmChart inp); out = out\<lparr>msFluxHelmChart := p\<rparr>;
     out = out\<lparr>msArtifact := msArtifact inp\<rparr>
   in (h, out))"

definition Decryption_DeepCopyInto :: "('l, 'p, 'l) copying \<Rightarrow> ('l, 'p, 'l Decryption_mem) copying" where
  "Decryption_DeepCopyInto lib h inp = (let out = inp;
     (h, r) = lib h (mdSecretRef inp); out = out\<lparr>mdSecretRef := r\<rparr>
   in (h, out))"

definition PostBuild_DeepCopyInto :: "('l, 'p, 'l) copying \<Rightarrow> ('l, 'p, PostBuild_mem) copying" where
  "PostBuild_DeepCopyInto lib h inp = (let out = inp;
     (h, p) = copy_ptr MapCell map_of_cell copy_map h (mpSubstitute inp); out = out\<lparr>mpSubstitute := p\<rparr>;
     (h, p) = copy_ptr LibsCell libs_of (copy_elems lib) h (mpSubstituteFrom inp); out = out\<lparr>mpSubstituteFrom := p\<rparr>;
     (h, p) = copy_ptr LibsCell libs_of (copy_elems lib) h (mpPatches inp); out = out\<lparr>mpPatches := p\<rparr>;
     (h, p) = copy_ptr FlatsCell flats_of copy_flat h (mpImages inp); out = out\<lparr>mpImages := p\<rparr>
   in (h, out))"

definition ComponentSpec_DeepCopyInto :: "('l, 'p, 'l) copying \<Rightarrow> ('l, 'p, ('l, 'p) ComponentSpec_mem) copying" where
  "ComponentSpec_DeepCopyInto lib h inp = (let out = inp;
     out = out\<lparr>mcPlacementSpec := mcPlacementSpec inp\<rparr>;
     (h, x) = lib h (mcClientSpec inp); out = out\<lparr>mcClientSpec := x\<rparr>;
     out = out\<lparr>mcImpersonationSpec := mcImpersonationSpec inp\<rparr>;
     out = out\<lparr>mcSuspensionSpec := mcSuspensionSpec inp\<rparr>;
     (h, x) = lib h (mcRequeueSpec inp); out = out\<lparr>mcRequeueSpec := x\<rparr>;
     (h, x) = lib h (mcRetrySpec inp); out = out\<lparr>mcRetrySpec := x\<rparr>;
     (h, x) = lib h (mcTimeoutSpec inp); out = out\<lparr>mcTimeoutSpec := x\<rparr>;
     out = out\<lparr>mcPolicySpec := mcPolicySpec inp\<rparr>;
     (h, x) = lib h (mcTypeSpec inp); out = out\<lparr>mcTypeSpec := x\<rparr>;
     (h, x) = lib h (mcReapplySpec inp); out = out\<lparr>mcReapplySpec := x\<rparr>;
     (h, r) = SourceReference_DeepCopyInto h (mcSourceRef inp); out = out\<lparr>mcSourceRef := r\<rparr>;
     (h, p) = copy_ptr LibCell lib_of lib h (mcValues inp); out = out\<lparr>mcValues := p\<rparr>;
     (h, p) = copy_ptr LibsCell libs_of (copy_elems lib) h (mcValuesFrom inp); out = out\<lparr>mcValuesFrom := p\<rparr>;
     (h, p) = copy_ptr DecryptionCell decryption_of_cell (Decryption_DeepCopyInto lib) h (mcDecryption inp);
     out = out\<lparr>mcDecryption := p\<rparr>;
     (h, p) = copy_ptr PostBuildCell post_build_of (PostBuild_DeepCopyInto lib) h (mcPostBuild inp);
     out = out\<lparr>mcPostBuild := p\<rparr>;
     (h, p) = copy_ptr NamesCell names_of copy_flat h (mcDependencies inp); out = out\<lparr>mcDependencies := p\<rparr>
   in (h, out))"

definition ComponentStatus_DeepCopyInto :: "('l, 'p, 'l) copying \<Rightarrow> ('l, 'p, 'l ComponentStatus_mem) copying" where
  "ComponentStatus_DeepCopyInto lib h inp = (let out = inp;
     (h, x) = lib h (mtStatus inp); out = out\<lparr>mtStatus := x\<rparr>;
     (h, p) = copy_ptr SourceStatusCell source_status_of copy_flat h (mtSourceRef inp); out = out\<lparr>mtSourceRef := p\<rparr>
   in (h, out))"

definition Component_DeepCopyInto :: "('l, 'p, 'l) copying \<Rightarrow> ('l, 'p, ('l, 'p) Component_mem) copying" where
  "Component_DeepCopyInto lib h inp = (let out = inp;
     out = out\<lparr>moTypeMeta := moTypeMeta inp\<rparr>;
     (h, x) = lib h (moObjectMeta inp); out = out\<lparr>moObjectMeta := x\<rparr>;
     (h, x) = ComponentSpec_DeepCopyInto lib h (moSpec inp); out = out\<lparr>moSpec := x\<rparr>;
     (h, x) = ComponentStatus_DeepCopyInto lib h (moStatus inp); out = out\<lparr>moStatus := x\<rparr>
   in (h, out))"

definition BlueprintSpec_DeepCopyInto :: "('l, 'p, BlueprintSpec_mem) copying" where
  "BlueprintSpec_DeepCopyInto h inp = (let out = inp;
     (h, p) = copy_ptr MapCell map_of_cell copy_map h (mbFiles inp); out = out\<lparr>mbFiles := p\<rparr>
   in (h, out))"

definition Blueprint_DeepCopyInto :: "('l, 'p, 'l) copying \<Rightarrow> ('l, 'p, ('l, 'p) Blueprint_mem) copying" where
  "Blueprint_DeepCopyInto lib h inp = (let out = inp;
     out = out\<lparr>meTypeMeta := meTypeMeta inp\<rparr>;
     (h, x) = lib h (meObjectMeta inp); out = out\<lparr>meObjectMeta := x\<rparr>;
     (h, x) = BlueprintSpec_DeepCopyInto h (meSpec inp); out = out\<lparr>meSpec := x\<rparr>
   in (h, out))"

definition BlueprintVersionSpec_DeepCopyInto :: "('l, 'p, BlueprintVersionSpec_mem) copying" where
  "BlueprintVersionSpec_DeepCopyInto h inp = (let out = inp;
     (h, x) = BlueprintSpec_DeepCopyInto h (mwBlueprintSpec inp); out = out\<lparr>mwBlueprintSpec := x\<rparr>
   in (h, out))"

definition BlueprintVersion_DeepCopyInto :: "('l, 'p, 'l) copying \<Rightarrow> ('l, 'p, ('l, 'p) BlueprintVersion_mem) copying" where
  "BlueprintVersion_DeepCopyInto lib h inp = (let out = inp;
     out = out\<lparr>mvTypeMeta := mvTypeMeta inp\<rparr>;
     (h, x) = lib h (mvObjectMeta inp); out = out\<lparr>mvObjectMeta := x\<rparr>;
     (h, x) = BlueprintVersionSpec_DeepCopyInto h (mvSpec inp); out = out\<lparr>mvSpec := x\<rparr>
   in (h, out))"

definition ComponentList_DeepCopyInto :: "('l, 'p, 'l) copying \<Rightarrow> ('l, 'p, ('l, 'p) ObjectList_mem) copying" where
  "ComponentList_DeepCopyInto lib h inp = (let out = inp;
     out = out\<lparr>mlTypeMeta := mlTypeMeta inp\<rparr>;
     (h, x) = lib h (mlListMeta inp); out = out\<lparr>mlListMeta := x\<rparr>;
     (h, p) = copy_ptr ComponentsCell components_of (copy_elems (Component_DeepCopyInto lib)) h (mlItems inp); out = out\<lparr>mlItems := p\<rparr>
   in (h, out))"

definition BlueprintList_DeepCopyInto :: "('l, 'p, 'l) copying \<Rightarrow> ('l, 'p, ('l, 'p) ObjectList_mem) copying" where
  "BlueprintList_DeepCopyInto lib h inp = (let out = inp;
     out = out\<lparr>mlTypeMeta := mlTypeMeta inp\<rparr>;
     (h, x) = lib h (mlListMeta inp); out = out\<lparr>mlListMeta := x\<rparr>;
     (h, p) = copy_ptr BlueprintsCell blueprints_of (copy_elems (Blueprint_DeepCopyInto lib)) h (mlItems inp); out = out\<lparr>mlItems := p\<rparr>
   in (h, out))"

definition BlueprintVersionList_DeepCopyInto :: "('l, 'p, 'l) copying \<Rightarrow> ('l, 'p, ('l, 'p) ObjectList_mem) copying" where
  "BlueprintVersionList_DeepCopyInto lib h inp = (let out = inp;
     out = out\<lparr>mlTypeMeta := mlTypeMeta inp\<rparr>;
     (h, x) = lib h (mlListMeta inp); out = out\<lparr>mlListMeta := x\<rparr>;
     (h, p) = copy_ptr VersionsCell versions_of (copy_elems (BlueprintVersion_DeepCopyInto lib)) h (mlItems inp); out = out\<lparr>mlItems := p\<rparr>
   in (h, out))"

section \<open>DeepCopy and DeepCopyObject\<close>

text \<open>
  \<open>DeepCopy\<close> returns nil for nil, and otherwise a \<open>new\<close> object with the contents that \<open>DeepCopyInto\<close> wrote.
  \<open>DeepCopyObject\<close> wraps it into an interface value, which is nil exactly if the pointer is.
\<close>

definition NamespacedName_DeepCopy :: "('l, 'p, addr option) copying" where
  "NamespacedName_DeepCopy h inp = copy_ptr NameCell name_of NamespacedName_DeepCopyInto h inp"

definition BlueprintReference_DeepCopy :: "('l, 'p, addr option) copying" where
  "BlueprintReference_DeepCopy h inp = copy_ptr NameCell name_of BlueprintReference_DeepCopyInto h inp"

definition FluxGitRepositoryReference_DeepCopy :: "('l, 'p, addr option) copying" where
  "FluxGitRepositoryReference_DeepCopy h inp = copy_ptr NameCell name_of FluxGitRepositoryReference_DeepCopyInto h inp"

definition FluxOciRepositoryReference_DeepCopy :: "('l, 'p, addr option) copying" where
  "FluxOciRepositoryReference_DeepCopy h inp = copy_ptr NameCell name_of FluxOciRepositoryReference_DeepCopyInto h inp"

definition FluxBucketReference_DeepCopy :: "('l, 'p, addr option) copying" where
  "FluxBucketReference_DeepCopy h inp = copy_ptr NameCell name_of FluxBucketReference_DeepCopyInto h inp"

definition FluxHelmChartReference_DeepCopy :: "('l, 'p, addr option) copying" where
  "FluxHelmChartReference_DeepCopy h inp = copy_ptr NameCell name_of FluxHelmChartReference_DeepCopyInto h inp"

definition Dependency_DeepCopy :: "('l, 'p, addr option) copying" where
  "Dependency_DeepCopy h inp = copy_ptr NameCell name_of Dependency_DeepCopyInto h inp"

definition HttpRepository_DeepCopy :: "('l, 'p, addr option) copying" where
  "HttpRepository_DeepCopy h inp = copy_ptr HttpCell http_of HttpRepository_DeepCopyInto h inp"

definition Artifact_DeepCopy :: "('l, 'p, addr option) copying" where
  "Artifact_DeepCopy h inp = copy_ptr ArtifactCell artifact_of Artifact_DeepCopyInto h inp"

definition SourceReferenceStatus_DeepCopy :: "('l, 'p, addr option) copying" where
  "SourceReferenceStatus_DeepCopy h inp = copy_ptr SourceStatusCell source_status_of SourceReferenceStatus_DeepCopyInto h inp"

definition SourceReference_DeepCopy :: "('l, 'p, addr option) copying" where
  "SourceReference_DeepCopy h inp = copy_ptr SourceCell source_of SourceReference_DeepCopyInto h inp"

definition Decryption_DeepCopy :: "('l, 'p, 'l) copying \<Rightarrow> ('l, 'p, addr option) copying" where
  "Decryption_DeepCopy lib h inp = copy_ptr DecryptionCell decryption_of_cell (Decryption_DeepCopyInto lib) h inp"

definition PostBuild_DeepCopy :: "('l, 'p, 'l) copying \<Rightarrow> ('l, 'p, addr option) copying" where
  "PostBuild_DeepCopy lib h inp = copy_ptr PostBuildCell post_build_of (PostBuild_DeepCopyInto lib) h inp"

definition ComponentSpec_DeepCopy :: "('l, 'p, 'l) copying \<Rightarrow> ('l, 'p, addr option) copying" where
  "ComponentSpec_DeepCopy lib h inp = copy_ptr SpecCell spec_of_cell (ComponentSpec_DeepCopyInto lib) h inp"

definition ComponentStatus_DeepCopy :: "('l, 'p, 'l) copying \<Rightarrow> ('l, 'p, addr option) copying" where
  "ComponentStatus_DeepCopy lib h inp = copy_ptr StatusCell status_of (ComponentStatus_DeepCopyInto lib) h inp"

definition Component_DeepCopy :: "('l, 'p, 'l) copying \<Rightarrow> ('l, 'p, addr option) copying" where
  "Component_DeepCopy lib h inp = copy_ptr ComponentCell component_of (Component_DeepCopyInto lib) h inp"

definition BlueprintSpec_DeepCopy :: "('l, 'p, addr option) copying" where
  "BlueprintSpec_DeepCopy h inp = copy_ptr BlueprintSpecCell blueprint_spec_of BlueprintSpec_DeepCopyInto h inp"

definition Blueprint_DeepCopy :: "('l, 'p, 'l) copying \<Rightarrow> ('l, 'p, addr option) copying" where
  "Blueprint_DeepCopy lib h inp = copy_ptr BlueprintCell blueprint_of (Blueprint_DeepCopyInto lib) h inp"

definition BlueprintVersionSpec_DeepCopy :: "('l, 'p, addr option) copying" where
  "BlueprintVersionSpec_DeepCopy h inp = copy_ptr VersionSpecCell version_spec_of BlueprintVersionSpec_DeepCopyInto h inp"

definition BlueprintVersion_DeepCopy :: "('l, 'p, 'l) copying \<Rightarrow> ('l, 'p, addr option) copying" where
  "BlueprintVersion_DeepCopy lib h inp = copy_ptr VersionCell version_of (BlueprintVersion_DeepCopyInto lib) h inp"

definition ComponentList_DeepCopy :: "('l, 'p, 'l) copying \<Rightarrow> ('l, 'p, addr option) copying" where
  "ComponentList_DeepCopy lib h inp = copy_ptr ObjectListCell object_list_of (ComponentList_DeepCopyInto lib) h inp"

definition BlueprintList_DeepCopy :: "('l, 'p, 'l) copying \<Rightarrow> ('l, 'p, addr option) copying" where
  "BlueprintList_DeepCopy lib h inp = copy_ptr ObjectListCell object_list_of (BlueprintList_DeepCopyInto lib) h inp"

definition BlueprintVersionList_DeepCopy :: "('l, 'p, 'l) copying \<Rightarrow> ('l, 'p, addr option) copying" where
  "BlueprintVersionList_DeepCopy lib h inp = copy_ptr ObjectListCell object_list_of (BlueprintVersionList_DeepCopyInto lib) h inp"

definition Component_DeepCopyObject :: "('l, 'p, 'l) copying \<Rightarrow> ('l, 'p, addr option) copying" where
  "Component_DeepCopyObject lib h inp = (case Component_DeepCopy lib h inp of
     (h', Some c) \<Rightarrow> (h', Some c) | (h', None) \<Rightarrow> (h', None))"

definition Blueprint_DeepCopyObject :: "('l, 'p, 'l) copying \<Rightarrow> ('l, 'p, addr option) copying" where
  "Blueprint_DeepCopyObject lib h inp = (case Blueprint_DeepCopy lib h inp of
     (h', Some c) \<Rightarrow> (h', Some c) | (h', None) \<Rightarrow> (h', None))"

definition BlueprintVersion_DeepCopyObject :: "('l, 'p, 'l) copying \<Rightarrow> ('l, 'p, addr option) copying" where
  "BlueprintVersion_DeepCopyObject lib h inp = (case BlueprintVersion_DeepCopy lib h inp of
     (h', Some c) \<Rightarrow> (h', Some c) | (h', None) \<Rightarrow> (h', None))"

definition ComponentList_DeepCopyObject :: "('l, 'p, 'l) copying \<Rightarrow> ('l, 'p, addr option) copying" where
  "ComponentList_DeepCopyObject lib h inp = (case ComponentList_DeepCopy lib h inp of
     (h', Some c) \<Rightarrow> (h', Some c) | (h', None) \<Rightarrow> (h', None))"

definition BlueprintList_DeepCopyObject :: "('l, 'p, 'l) copying \<Rightarrow> ('l, 'p, addr option) copying" where
  "BlueprintList_DeepCopyObject lib h inp = (case BlueprintList_DeepCopy lib h inp of
     (h', Some c) \<Rightarrow> (h', Some c) | (h', None) \<Rightarrow> (h', None))"

definition BlueprintVersionList_DeepCopyObject :: "('l, 'p, 'l) copying \<Rightarrow> ('l, 'p, addr option) copying" where
  "BlueprintVersionList_DeepCopyObject lib h inp = (case BlueprintVersionList_DeepCopy lib h inp of
     (h', Some c) \<Rightarrow> (h', Some c) | (h', None) \<Rightarrow> (h', None))"

end
