(* ===== verification/CopyContracts.thy ===== *)
theory CopyContracts
  imports DeepCopy
begin

text \<open>
  The deep copies of the API types keep the contract \<open>deep_copier\<close>. For every struct, its copied fields are
  read off as a tuple; contents and extent of the struct are those of the tuple, and the contract follows from
  that of the fields. The copying function of the library types is assumed to keep the contract itself.
\<close>

section \<open>Pointers, maps and slices of the API types\<close>

lemmas flat_copier = flat.deep_copier_axioms

lemma flat_pointers:
  "deep_copier (view_ptr name_of view_flat) (reach_ptr name_of reach_flat) (copy_ptr NameCell name_of copy_flat)"
  "deep_copier (view_ptr http_of view_flat) (reach_ptr http_of reach_flat) (copy_ptr HttpCell http_of copy_flat)"
  "deep_copier (view_ptr source_status_of view_flat) (reach_ptr source_status_of reach_flat)
    (copy_ptr SourceStatusCell source_status_of copy_flat)"
  "deep_copier (view_ptr names_of view_flat) (reach_ptr names_of reach_flat) (copy_ptr NamesCell names_of copy_flat)"
  "deep_copier (view_ptr flats_of view_flat) (reach_ptr flats_of reach_flat) (copy_ptr FlatsCell flats_of copy_flat)"
  by (rule flat.pointer, simp)+

lemma map_pointer: "deep_copier (view_ptr map_of_cell view_map) (reach_ptr map_of_cell reach_flat) (copy_ptr MapCell map_of_cell copy_map)"
  by (rule map_copy.pointer) simp

lemma lib_pointers:
  assumes "deep_copier view reach lib"
  shows "deep_copier (view_ptr lib_of view) (reach_ptr lib_of reach) (copy_ptr LibCell lib_of lib)"
    and "deep_copier (view_ptr libs_of (view_elems view)) (reach_ptr libs_of (reach_elems reach))
      (copy_ptr LibsCell libs_of (copy_elems lib))"
  using deep_copier.pointer [OF assms] deep_copier.pointer [OF deep_copier.elems [OF assms]] by simp_all

lemmas copying_defs = copy_pair_def copy_flat_def Let_def

section \<open>The structs\<close>

definition SourceReference_fields where
  "SourceReference_fields (r :: SourceReference_mem) = (msBlueprint r, msHttpRepository r,
    msFluxGitRepository r, msFluxOciRepository r, msFluxBucket r, msFluxHelmChart r, (msArtifact r,
    msDigest r, msLoaded r))"

definition SourceReference_view where
  "SourceReference_view h r = (view_pair (view_ptr name_of view_flat) (view_pair (view_ptr http_of
    view_flat) (view_pair (view_ptr name_of view_flat) (view_pair (view_ptr name_of view_flat)
    (view_pair (view_ptr name_of view_flat) (view_pair (view_ptr name_of view_flat) view_flat)))))) h
    (SourceReference_fields r)"

definition SourceReference_reach where
  "SourceReference_reach h r = (reach_pair (reach_ptr name_of reach_flat) (reach_pair (reach_ptr
    http_of reach_flat) (reach_pair (reach_ptr name_of reach_flat) (reach_pair (reach_ptr name_of
    reach_flat) (reach_pair (reach_ptr name_of reach_flat) (reach_pair (reach_ptr name_of reach_flat)
    reach_flat)))))) h (SourceReference_fields r)"

lemma SourceReference_copier: "deep_copier SourceReference_view SourceReference_reach SourceReference_DeepCopyInto"
  unfolding SourceReference_view_def [abs_def] SourceReference_reach_def [abs_def]
  by (rule deep_copier.struct [where get = SourceReference_fields
        and put = "\<lambda>(y0, y1, y2, y3, y4, y5, (z0, z1, z2)) r. r\<lparr>msBlueprint := y0, msHttpRepository :=
          y1, msFluxGitRepository := y2, msFluxOciRepository := y3, msFluxBucket := y4, msFluxHelmChart := y5,
          msArtifact := z0, msDigest := z1, msLoaded := z2\<rparr>",
        OF pair_copier [OF flat_pointers(1) pair_copier [OF flat_pointers(2) pair_copier [OF flat_pointers(1)
          pair_copier [OF flat_pointers(1) pair_copier [OF flat_pointers(1) pair_copier [OF flat_pointers(1)
          flat_copier]]]]]]])
    (auto simp: SourceReference_DeepCopyInto_def SourceReference_fields_def copying_defs split: prod.splits)

definition Decryption_fields where
  "Decryption_fields (r :: 'l Decryption_mem) = (mdSecretRef r, mdProvider r)"

definition Decryption_view where
  "Decryption_view view h r = (view_pair view view_flat) h (Decryption_fields r)"

definition Decryption_reach where
  "Decryption_reach reach h r = (reach_pair reach reach_flat) h (Decryption_fields r)"

lemma Decryption_copier:
  assumes "deep_copier view reach lib"
  shows "deep_copier (Decryption_view view) (Decryption_reach reach) (Decryption_DeepCopyInto lib)"
  unfolding Decryption_view_def [abs_def] Decryption_reach_def [abs_def]
  by (rule deep_copier.struct [where get = Decryption_fields
        and put = "\<lambda>(y0, z0) r. r\<lparr>mdSecretRef := y0, mdProvider := z0\<rparr>",
        OF pair_copier [OF assms flat_copier]])
    (auto simp: Decryption_DeepCopyInto_def Decryption_fields_def copying_defs split: prod.splits)

lemma Decryption_pointer:
  assumes "deep_copier view reach lib"
  shows "deep_copier (view_ptr decryption_of_cell (Decryption_view view)) (reach_ptr decryption_of_cell (Decryption_reach reach))
    (copy_ptr DecryptionCell decryption_of_cell (Decryption_DeepCopyInto lib))"
  by (rule deep_copier.pointer [OF Decryption_copier [OF assms]]) simp

definition PostBuild_fields where
  "PostBuild_fields (r :: PostBuild_mem) = (mpSubstitute r, mpSubstituteFrom r, mpPatches r, mpImages
    r)"

definition PostBuild_view where
  "PostBuild_view view h r = (view_pair (view_ptr map_of_cell view_map) (view_pair (view_ptr libs_of
    (view_elems view)) (view_pair (view_ptr libs_of (view_elems view)) (view_ptr flats_of view_flat))))
    h (PostBuild_fields r)"

definition PostBuild_reach where
  "PostBuild_reach reach h r = (reach_pair (reach_ptr map_of_cell reach_flat) (reach_pair (reach_ptr
    libs_of (reach_elems reach)) (reach_pair (reach_ptr libs_of (reach_elems reach)) (reach_ptr flats_of
    reach_flat)))) h (PostBuild_fields r)"

lemma PostBuild_copier:
  assumes "deep_copier view reach lib"
  shows "deep_copier (PostBuild_view view) (PostBuild_reach reach) (PostBuild_DeepCopyInto lib)"
  unfolding PostBuild_view_def [abs_def] PostBuild_reach_def [abs_def]
  by (rule deep_copier.struct [where get = PostBuild_fields
        and put = "\<lambda>(y0, y1, y2, y3) r. r\<lparr>mpSubstitute := y0, mpSubstituteFrom := y1, mpPatches := y2,
          mpImages := y3\<rparr>",
        OF pair_copier [OF map_pointer pair_copier [OF lib_pointers(2) [OF assms] pair_copier [OF
          lib_pointers(2) [OF assms] flat_pointers(5)]]]])
    (auto simp: PostBuild_DeepCopyInto_def PostBuild_fields_def copying_defs split: prod.splits)

lemma PostBuild_pointer:
  assumes "deep_copier view reach lib"
  shows "deep_copier (view_ptr post_build_of (PostBuild_view view)) (reach_ptr post_build_of (PostBuild_reach reach))
    (copy_ptr PostBuildCell post_build_of (PostBuild_DeepCopyInto lib))"
  by (rule deep_copier.pointer [OF PostBuild_copier [OF assms]]) simp

definition ComponentSpec_fields where
  "ComponentSpec_fields (r :: ('l, 'p) ComponentSpec_mem) = (mcClientSpec r, mcRequeueSpec r,
    mcRetrySpec r, mcTimeoutSpec r, mcTypeSpec r, mcReapplySpec r, mcSourceRef r, mcValues r,
    mcValuesFrom r, mcDecryption r, mcPostBuild r, mcDependencies r, (mcPlacementSpec r,
    mcImpersonationSpec r, mcSuspensionSpec r, mcPolicySpec r, mcDigest r, mcRevision r, mcSticky r,
    mcPath r))"

definition ComponentSpec_view where
  "ComponentSpec_view view h r = (view_pair view (view_pair view (view_pair view (view_pair view
    (view_pair view (view_pair view (view_pair SourceReference_view (view_pair (view_ptr lib_of view)
    (view_pair (view_ptr libs_of (view_elems view)) (view_pair (view_ptr decryption_of_cell
    (Decryption_view view)) (view_pair (view_ptr post_build_of (PostBuild_view view)) (view_pair
    (view_ptr names_of view_flat) view_flat)))))))))))) h (ComponentSpec_fields r)"

definition ComponentSpec_reach where
  "ComponentSpec_reach reach h r = (reach_pair reach (reach_pair reach (reach_pair reach (reach_pair
    reach (reach_pair reach (reach_pair reach (reach_pair SourceReference_reach (reach_pair (reach_ptr
    lib_of reach) (reach_pair (reach_ptr libs_of (reach_elems reach)) (reach_pair (reach_ptr
    decryption_of_cell (Decryption_reach reach)) (reach_pair (reach_ptr post_build_of (PostBuild_reach
    reach)) (reach_pair (reach_ptr names_of reach_flat) reach_flat)))))))))))) h (ComponentSpec_fields
    r)"

lemma ComponentSpec_copier:
  assumes "deep_copier view reach lib"
  shows "deep_copier (ComponentSpec_view view) (ComponentSpec_reach reach) (ComponentSpec_DeepCopyInto lib)"
  unfolding ComponentSpec_view_def [abs_def] ComponentSpec_reach_def [abs_def]
  by (rule deep_copier.struct [where get = ComponentSpec_fields
        and put = "\<lambda>(y0, y1, y2, y3, y4, y5, y6, y7, y8, y9, y10, y11, (z0, z1, z2, z3, z4, z5, z6, z7)) r.
          r\<lparr>mcClientSpec := y0, mcRequeueSpec := y1, mcRetrySpec := y2, mcTimeoutSpec := y3, mcTypeSpec
          := y4, mcReapplySpec := y5, mcSourceRef := y6, mcValues := y7, mcValuesFrom := y8, mcDecryption :=
          y9, mcPostBuild := y10, mcDependencies := y11, mcPlacementSpec := z0, mcImpersonationSpec := z1,
          mcSuspensionSpec := z2, mcPolicySpec := z3, mcDigest := z4, mcRevision := z5, mcSticky := z6, mcPath
          := z7\<rparr>",
        OF pair_copier [OF assms pair_copier [OF assms pair_copier [OF assms pair_copier [OF assms pair_copier
          [OF assms pair_copier [OF assms pair_copier [OF SourceReference_copier pair_copier [OF
          lib_pointers(1) [OF assms] pair_copier [OF lib_pointers(2) [OF assms] pair_copier [OF
          Decryption_pointer [OF assms] pair_copier [OF PostBuild_pointer [OF assms] pair_copier [OF
          flat_pointers(4) flat_copier]]]]]]]]]]]]])
    (auto simp: ComponentSpec_DeepCopyInto_def ComponentSpec_fields_def copying_defs split: prod.splits)

definition ComponentStatus_fields where
  "ComponentStatus_fields (r :: 'l ComponentStatus_mem) = (mtStatus r, mtSourceRef r,
    (mtLastAttemptedDigest r, mtLastAttemptedRevision r, mtLastAppliedDigest r, mtLastAppliedRevision
    r))"

definition ComponentStatus_view where
  "ComponentStatus_view view h r = (view_pair view (view_pair (view_ptr source_status_of view_flat)
    view_flat)) h (ComponentStatus_fields r)"

definition ComponentStatus_reach where
  "ComponentStatus_reach reach h r = (reach_pair reach (reach_pair (reach_ptr source_status_of
    reach_flat) reach_flat)) h (ComponentStatus_fields r)"

lemma ComponentStatus_copier:
  assumes "deep_copier view reach lib"
  shows "deep_copier (ComponentStatus_view view) (ComponentStatus_reach reach) (ComponentStatus_DeepCopyInto lib)"
  unfolding ComponentStatus_view_def [abs_def] ComponentStatus_reach_def [abs_def]
  by (rule deep_copier.struct [where get = ComponentStatus_fields
        and put = "\<lambda>(y0, y1, (z0, z1, z2, z3)) r. r\<lparr>mtStatus := y0, mtSourceRef := y1,
          mtLastAttemptedDigest := z0, mtLastAttemptedRevision := z1, mtLastAppliedDigest := z2,
          mtLastAppliedRevision := z3\<rparr>",
        OF pair_copier [OF assms pair_copier [OF flat_pointers(3) flat_copier]]])
    (auto simp: ComponentStatus_DeepCopyInto_def ComponentStatus_fields_def copying_defs split: prod.splits)

definition Component_fields where
  "Component_fields (r :: ('l, 'p) Component_mem) = (moObjectMeta r, moSpec r, moStatus r, moTypeMeta
    r)"

definition Component_view where
  "Component_view view h r = (view_pair view (view_pair (ComponentSpec_view view) (view_pair
    (ComponentStatus_view view) view_flat))) h (Component_fields r)"

definition Component_reach where
  "Component_reach reach h r = (reach_pair reach (reach_pair (ComponentSpec_reach reach) (reach_pair
    (ComponentStatus_reach reach) reach_flat))) h (Component_fields r)"

lemma Component_copier:
  assumes "deep_copier view reach lib"
  shows "deep_copier (Component_view view) (Component_reach reach) (Component_DeepCopyInto lib)"
  unfolding Component_view_def [abs_def] Component_reach_def [abs_def]
  by (rule deep_copier.struct [where get = Component_fields
        and put = "\<lambda>(y0, y1, y2, z0) r. r\<lparr>moObjectMeta := y0, moSpec := y1, moStatus := y2, moTypeMeta
          := z0\<rparr>",
        OF pair_copier [OF assms pair_copier [OF ComponentSpec_copier [OF assms] pair_copier [OF
          ComponentStatus_copier [OF assms] flat_copier]]]])
    (auto simp: Component_DeepCopyInto_def Component_fields_def copying_defs split: prod.splits)

lemma Component_slice:
  assumes "deep_copier view reach lib"
  shows "deep_copier (view_ptr components_of (view_elems (Component_view view))) (reach_ptr components_of (reach_elems (Component_reach reach)))
    (copy_ptr ComponentsCell components_of (copy_elems (Component_DeepCopyInto lib)))"
  by (rule deep_copier.pointer [OF deep_copier.elems [OF Component_copier [OF assms]]]) simp

definition BlueprintSpec_fields where
  "BlueprintSpec_fields (r :: BlueprintSpec_mem) = mbFiles r"

definition BlueprintSpec_view where
  "BlueprintSpec_view h r = (view_ptr map_of_cell view_map) h (BlueprintSpec_fields r)"

definition BlueprintSpec_reach where
  "BlueprintSpec_reach h r = (reach_ptr map_of_cell reach_flat) h (BlueprintSpec_fields r)"

lemma BlueprintSpec_copier: "deep_copier BlueprintSpec_view BlueprintSpec_reach BlueprintSpec_DeepCopyInto"
  unfolding BlueprintSpec_view_def [abs_def] BlueprintSpec_reach_def [abs_def]
  by (rule deep_copier.struct [where get = BlueprintSpec_fields
        and put = "\<lambda>y0 r. r\<lparr>mbFiles := y0\<rparr>",
        OF map_pointer])
    (auto simp: BlueprintSpec_DeepCopyInto_def BlueprintSpec_fields_def copying_defs split: prod.splits)

definition Blueprint_fields where
  "Blueprint_fields (r :: ('l, 'p) Blueprint_mem) = (meObjectMeta r, meSpec r, meTypeMeta r)"

definition Blueprint_view where
  "Blueprint_view view h r = (view_pair view (view_pair BlueprintSpec_view view_flat)) h
    (Blueprint_fields r)"

definition Blueprint_reach where
  "Blueprint_reach reach h r = (reach_pair reach (reach_pair BlueprintSpec_reach reach_flat)) h
    (Blueprint_fields r)"

lemma Blueprint_copier:
  assumes "deep_copier view reach lib"
  shows "deep_copier (Blueprint_view view) (Blueprint_reach reach) (Blueprint_DeepCopyInto lib)"
  unfolding Blueprint_view_def [abs_def] Blueprint_reach_def [abs_def]
  by (rule deep_copier.struct [where get = Blueprint_fields
        and put = "\<lambda>(y0, y1, z0) r. r\<lparr>meObjectMeta := y0, meSpec := y1, meTypeMeta := z0\<rparr>",
        OF pair_copier [OF assms pair_copier [OF BlueprintSpec_copier flat_copier]]])
    (auto simp: Blueprint_DeepCopyInto_def Blueprint_fields_def copying_defs split: prod.splits)

lemma Blueprint_slice:
  assumes "deep_copier view reach lib"
  shows "deep_copier (view_ptr blueprints_of (view_elems (Blueprint_view view))) (reach_ptr blueprints_of (reach_elems (Blueprint_reach reach)))
    (copy_ptr BlueprintsCell blueprints_of (copy_elems (Blueprint_DeepCopyInto lib)))"
  by (rule deep_copier.pointer [OF deep_copier.elems [OF Blueprint_copier [OF assms]]]) simp

definition BlueprintVersionSpec_fields where
  "BlueprintVersionSpec_fields (r :: BlueprintVersionSpec_mem) = (mwBlueprintSpec r, (mwBlueprint r,
    mwDigest r, mwRevision r))"

definition BlueprintVersionSpec_view where
  "BlueprintVersionSpec_view h r = (view_pair BlueprintSpec_view view_flat) h
    (BlueprintVersionSpec_fields r)"

definition BlueprintVersionSpec_reach where
  "BlueprintVersionSpec_reach h r = (reach_pair BlueprintSpec_reach reach_flat) h
    (BlueprintVersionSpec_fields r)"

lemma BlueprintVersionSpec_copier: "deep_copier BlueprintVersionSpec_view BlueprintVersionSpec_reach BlueprintVersionSpec_DeepCopyInto"
  unfolding BlueprintVersionSpec_view_def [abs_def] BlueprintVersionSpec_reach_def [abs_def]
  by (rule deep_copier.struct [where get = BlueprintVersionSpec_fields
        and put = "\<lambda>(y0, (z0, z1, z2)) r. r\<lparr>mwBlueprintSpec := y0, mwBlueprint := z0, mwDigest := z1,
          mwRevision := z2\<rparr>",
        OF pair_copier [OF BlueprintSpec_copier flat_copier]])
    (auto simp: BlueprintVersionSpec_DeepCopyInto_def BlueprintVersionSpec_fields_def copying_defs split: prod.splits)

definition BlueprintVersion_fields where
  "BlueprintVersion_fields (r :: ('l, 'p) BlueprintVersion_mem) = (mvObjectMeta r, mvSpec r, mvTypeMeta
    r)"

definition BlueprintVersion_view where
  "BlueprintVersion_view view h r = (view_pair view (view_pair BlueprintVersionSpec_view view_flat)) h
    (BlueprintVersion_fields r)"

definition BlueprintVersion_reach where
  "BlueprintVersion_reach reach h r = (reach_pair reach (reach_pair BlueprintVersionSpec_reach
    reach_flat)) h (BlueprintVersion_fields r)"

lemma BlueprintVersion_copier:
  assumes "deep_copier view reach lib"
  shows "deep_copier (BlueprintVersion_view view) (BlueprintVersion_reach reach) (BlueprintVersion_DeepCopyInto lib)"
  unfolding BlueprintVersion_view_def [abs_def] BlueprintVersion_reach_def [abs_def]
  by (rule deep_copier.struct [where get = BlueprintVersion_fields
        and put = "\<lambda>(y0, y1, z0) r. r\<lparr>mvObjectMeta := y0, mvSpec := y1, mvTypeMeta := z0\<rparr>",
        OF pair_copier [OF assms pair_copier [OF BlueprintVersionSpec_copier flat_copier]]])
    (auto simp: BlueprintVersion_DeepCopyInto_def BlueprintVersion_fields_def copying_defs split: prod.splits)

lemma BlueprintVersion_slice:
  assumes "deep_copier view reach lib"
  shows "deep_copier (view_ptr versions_of (view_elems (BlueprintVersion_view view))) (reach_ptr versions_of (reach_elems (BlueprintVersion_reach reach)))
    (copy_ptr VersionsCell versions_of (copy_elems (BlueprintVersion_DeepCopyInto lib)))"
  by (rule deep_copier.pointer [OF deep_copier.elems [OF BlueprintVersion_copier [OF assms]]]) simp

definition ComponentList_fields where
  "ComponentList_fields (r :: ('l, 'p) ObjectList_mem) = (mlListMeta r, mlItems r, mlTypeMeta r)"

definition ComponentList_view where
  "ComponentList_view view h r = (view_pair view (view_pair (view_ptr components_of (view_elems
    (Component_view view))) view_flat)) h (ComponentList_fields r)"

definition ComponentList_reach where
  "ComponentList_reach reach h r = (reach_pair reach (reach_pair (reach_ptr components_of (reach_elems
    (Component_reach reach))) reach_flat)) h (ComponentList_fields r)"

lemma ComponentList_copier:
  assumes "deep_copier view reach lib"
  shows "deep_copier (ComponentList_view view) (ComponentList_reach reach) (ComponentList_DeepCopyInto lib)"
  unfolding ComponentList_view_def [abs_def] ComponentList_reach_def [abs_def]
  by (rule deep_copier.struct [where get = ComponentList_fields
        and put = "\<lambda>(y0, y1, z0) r. r\<lparr>mlListMeta := y0, mlItems := y1, mlTypeMeta := z0\<rparr>",
        OF pair_copier [OF assms pair_copier [OF Component_slice [OF assms] flat_copier]]])
    (auto simp: ComponentList_DeepCopyInto_def ComponentList_fields_def copying_defs split: prod.splits)

definition BlueprintList_fields where
  "BlueprintList_fields (r :: ('l, 'p) ObjectList_mem) = (mlListMeta r, mlItems r, mlTypeMeta r)"

definition BlueprintList_view where
  "BlueprintList_view view h r = (view_pair view (view_pair (view_ptr blueprints_of (view_elems
    (Blueprint_view view))) view_flat)) h (BlueprintList_fields r)"

definition BlueprintList_reach where
  "BlueprintList_reach reach h r = (reach_pair reach (reach_pair (reach_ptr blueprints_of (reach_elems
    (Blueprint_reach reach))) reach_flat)) h (BlueprintList_fields r)"

lemma BlueprintList_copier:
  assumes "deep_copier view reach lib"
  shows "deep_copier (BlueprintList_view view) (BlueprintList_reach reach) (BlueprintList_DeepCopyInto lib)"
  unfolding BlueprintList_view_def [abs_def] BlueprintList_reach_def [abs_def]
  by (rule deep_copier.struct [where get = BlueprintList_fields
        and put = "\<lambda>(y0, y1, z0) r. r\<lparr>mlListMeta := y0, mlItems := y1, mlTypeMeta := z0\<rparr>",
        OF pair_copier [OF assms pair_copier [OF Blueprint_slice [OF assms] flat_copier]]])
    (auto simp: BlueprintList_DeepCopyInto_def BlueprintList_fields_def copying_defs split: prod.splits)

definition BlueprintVersionList_fields where
  "BlueprintVersionList_fields (r :: ('l, 'p) ObjectList_mem) = (mlListMeta r, mlItems r, mlTypeMeta r)"

definition BlueprintVersionList_view where
  "BlueprintVersionList_view view h r = (view_pair view (view_pair (view_ptr versions_of (view_elems
    (BlueprintVersion_view view))) view_flat)) h (BlueprintVersionList_fields r)"

definition BlueprintVersionList_reach where
  "BlueprintVersionList_reach reach h r = (reach_pair reach (reach_pair (reach_ptr versions_of
    (reach_elems (BlueprintVersion_reach reach))) reach_flat)) h (BlueprintVersionList_fields r)"

lemma BlueprintVersionList_copier:
  assumes "deep_copier view reach lib"
  shows "deep_copier (BlueprintVersionList_view view) (BlueprintVersionList_reach reach) (BlueprintVersionList_DeepCopyInto lib)"
  unfolding BlueprintVersionList_view_def [abs_def] BlueprintVersionList_reach_def [abs_def]
  by (rule deep_copier.struct [where get = BlueprintVersionList_fields
        and put = "\<lambda>(y0, y1, z0) r. r\<lparr>mlListMeta := y0, mlItems := y1, mlTypeMeta := z0\<rparr>",
        OF pair_copier [OF assms pair_copier [OF BlueprintVersion_slice [OF assms] flat_copier]]])
    (auto simp: BlueprintVersionList_DeepCopyInto_def BlueprintVersionList_fields_def copying_defs split: prod.splits)

text \<open>The copies of values without library parts, and the library's contract for a flat library type.\<close>

interpretation source_copy: deep_copier SourceReference_view SourceReference_reach SourceReference_DeepCopyInto
  by (rule SourceReference_copier)

interpretation version_spec_copy: deep_copier BlueprintVersionSpec_view BlueprintVersionSpec_reach BlueprintVersionSpec_DeepCopyInto
  by (rule BlueprintVersionSpec_copier)

section \<open>Objects\<close>

text \<open>Contents and extent of a component, and of a list of blueprint versions, behind a pointer.\<close>

definition component_view where
  "component_view view = view_ptr component_of (Component_view view)"

definition component_reach where
  "component_reach reach = reach_ptr component_of (Component_reach reach)"

definition versions_view where
  "versions_view view = view_ptr object_list_of (BlueprintVersionList_view view)"

definition versions_reach where
  "versions_reach reach = reach_ptr object_list_of (BlueprintVersionList_reach reach)"

lemma Component_object_copier:
  assumes "deep_copier view reach lib"
  shows "deep_copier (component_view view) (component_reach reach) (Component_DeepCopy lib)"
proof -
  have "deep_copier (component_view view) (component_reach reach)
      (copy_ptr ComponentCell component_of (Component_DeepCopyInto lib))"
    unfolding component_view_def component_reach_def
    by (rule deep_copier.pointer [OF Component_copier [OF assms]]) simp
  then show ?thesis by (simp add: Component_DeepCopy_def [abs_def])
qed

lemma versions_object_copier:
  assumes "deep_copier view reach lib"
  shows "deep_copier (versions_view view) (versions_reach reach) (BlueprintVersionList_DeepCopy lib)"
proof -
  have "deep_copier (versions_view view) (versions_reach reach)
      (copy_ptr ObjectListCell object_list_of (BlueprintVersionList_DeepCopyInto lib))"
    unfolding versions_view_def versions_reach_def
    by (rule deep_copier.pointer [OF BlueprintVersionList_copier [OF assms]]) simp
  then show ?thesis by (simp add: BlueprintVersionList_DeepCopy_def [abs_def])
qed

lemma DeepCopyObject_DeepCopy:
  "Component_DeepCopyObject lib = Component_DeepCopy lib"
  "BlueprintVersionList_DeepCopyObject lib = BlueprintVersionList_DeepCopy lib"
  by (auto simp: fun_eq_iff Component_DeepCopyObject_def BlueprintVersionList_DeepCopyObject_def
      split: prod.splits option.splits)

section \<open>Properties\<close>

text \<open>
  C18. The copy of a component has the same contents and shares no memory with it: after
  \<open>DeepCopyObject\<close>, no change to what the copy refers to, its maps and slices included, is seen in the
  original, and a nil pointer gives a nil object.
\<close>

theorem Component_copy_apart:
  assumes "deep_copier view reach lib" "wf_heap h" "component_view view h p = Some v"
    and "Component_DeepCopyObject lib h p = (h', q)"
  shows "component_view view h' q = Some v \<and> component_reach reach h' p \<inter> component_reach reach h' q = {} \<and>
    (\<forall>h''. (\<forall>a. a \<notin> component_reach reach h' q \<longrightarrow> hpCells h'' a = hpCells h' a) \<longrightarrow>
      component_view view h'' p = Some v)"
proof -
  have "Component_DeepCopy lib h p = (h', q)" using assms(4) by (simp add: DeepCopyObject_DeepCopy)
  from deep_copier.copy_apart [OF Component_object_copier [OF assms(1)] assms(2,3) this] show ?thesis by blast
qed

text \<open>
  The same holds for a list of blueprint versions, whose items and files are all copied: writing into
  the files of a version in the copied list cannot change the cached version.
\<close>

theorem versions_copy_apart:
  assumes "deep_copier view reach lib" "wf_heap h" "versions_view view h p = Some v"
    and "BlueprintVersionList_DeepCopyObject lib h p = (h', q)"
  shows "versions_view view h' q = Some v \<and> versions_reach reach h' p \<inter> versions_reach reach h' q = {} \<and>
    (\<forall>h''. (\<forall>a. a \<notin> versions_reach reach h' q \<longrightarrow> hpCells h'' a = hpCells h' a) \<longrightarrow>
      versions_view view h'' p = Some v)"
proof -
  have "BlueprintVersionList_DeepCopy lib h p = (h', q)" using assms(4) by (simp add: DeepCopyObject_DeepCopy)
  from deep_copier.copy_apart [OF versions_object_copier [OF assms(1)] assms(2,3) this] show ?thesis by blast
qed

end

