(* ===== verification/VersionNames.thy ===== *)
theory VersionNames
  imports SourceRef
begin

text \<open>
  The names of blueprint versions (\<open>SourceReference.Load\<close> in \<open>api/v1alpha1/types.go\<close>) against the rule of
  the API server for object names: a DNS subdomain of at most 253 characters.
\<close>

section \<open>Object names\<close>

definition alnum_char :: "char \<Rightarrow> bool" where
  "alnum_char c \<longleftrightarrow> c \<in> set ''0123456789abcdefghijklmnopqrstuvwxyz''"

definition dns_label :: "string \<Rightarrow> bool" where
  "dns_label l \<longleftrightarrow> l \<noteq> [] \<and> alnum_char (hd l) \<and> alnum_char (last l) \<and> (\<forall>c \<in> set l. alnum_char c \<or> c = CHR ''-'')"

definition dns_subdomain :: "string \<Rightarrow> bool" where
  "dns_subdomain n \<longleftrightarrow> length n \<le> 253 \<and> (\<forall>l \<in> set (split_on (CHR ''.'') n). dns_label l)"

lemma split_on_append_plain:
  "c \<notin> set t \<Longrightarrow> split_on c (s @ t) = butlast (split_on c s) @ [last (split_on c s) @ t]"
proof (induction s)
  case (Cons x s)
  obtain w ws where s: "split_on c s = w # ws" by (cases "split_on c s") simp_all
  with Cons show ?case by (cases ws) auto
qed (simp add: split_on_single)

lemma hex_alnum: "c \<in> hex_chars \<Longrightarrow> alnum_char c"
  by (auto simp: hex_chars_def alnum_char_def)

text \<open>The suffix that the digest adds keeps a label valid.\<close>

lemma label_with_digest:
  assumes "dns_label l"
  shows "dns_label (l @ ''--'' @ calculateDigest vs)"
proof -
  have "last (calculateDigest vs) \<in> hex_chars"
    using calculateDigest_chars [of vs] last_in_set [OF calculateDigest_nonempty(1) [of vs]] by blast
  moreover have "\<forall>c \<in> set (calculateDigest vs). alnum_char c" using calculateDigest_chars [of vs] hex_alnum by blast
  ultimately show ?thesis using assms by (auto simp: dns_label_def hex_alnum)
qed

section \<open>Properties\<close>

text \<open>
  C32. A version's name is 66 characters longer than its blueprint's, so that for a blueprint with a valid
  name it is a valid name exactly if the blueprint's has at most 187 characters: the versions of a blueprint
  with a longer name cannot be created.
\<close>

theorem version_name_valid:
  assumes "dns_subdomain (bpName b)"
  shows "length (bvName (make_version b)) = length (bpName b) + 66 \<and>
    (dns_subdomain (bvName (make_version b)) \<longleftrightarrow> length (bpName b) \<le> 187)"
proof -
  let ?d = "''--'' @ GetDigest b"
  have name: "bvName (make_version b) = bpName b @ ?d" by (simp add: make_version_def blueprint_version_name_def)
  have len: "length (bvName (make_version b)) = length (bpName b) + 66"
    by (simp add: name GetDigest_def calculateDigest_length)
  have "CHR ''.'' \<notin> hex_chars" by (simp add: hex_chars_def)
  then have "CHR ''.'' \<notin> set ?d" using calculateDigest_chars by (auto simp: GetDigest_def)
  then have split: "split_on (CHR ''.'') (bpName b @ ?d) =
      butlast (split_on (CHR ''.'') (bpName b)) @ [last (split_on (CHR ''.'') (bpName b)) @ ?d]"
    by (rule split_on_append_plain)
  have "dns_label (last (split_on (CHR ''.'') (bpName b)))"
    using assms by (simp add: dns_subdomain_def)
  then have "dns_label (last (split_on (CHR ''.'') (bpName b)) @ ?d)"
    using label_with_digest by (simp add: GetDigest_def)
  then have "\<forall>l \<in> set (split_on (CHR ''.'') (bvName (make_version b))). dns_label l"
    using assms by (auto simp: name split dns_subdomain_def simp del: append.simps dest: in_set_butlastD)
  with len show ?thesis by (auto simp: dns_subdomain_def)
qed

end
