(* ===== verification/Clientset.thy ===== *)
theory Clientset
  imports Informers Complex_Main
begin

text \<open>
  The generated client set (\<open>pkg/client/clientset/versioned/clientset.go\<close> and the typed client in
  \<open>typed/core.cs.sap.com/v1alpha1\<close>): how a REST configuration is completed and turned into the two clients.
  The REST, discovery and generic client libraries are parameters. A configuration is a value, so that the shallow copies
  of the code are the values themselves; a pointer to a client is an option.
\<close>

section \<open>Configurations and the REST library\<close>

text \<open>The fields of \<open>rest.Config\<close> the program reads or writes; QPS is the rational number the float stands for.\<close>

record ('l, 'z, 'r) rest_config =
  rcUserAgent :: string
  rcRateLimiter :: "'l option"
  rcQPS :: rat
  rcBurst :: int
  rcGroupVersion :: "(string \<times> string) option"
  rcAPIPath :: string
  rcNegotiatedSerializer :: "'z option"
  rcOther :: 'r

record ('l, 'z, 'r, 'h, 'c, 'd) rest_lib =
  rlDefaultUserAgent :: string
  rlSerializer :: 'z
  rlHTTPClientFor :: "('l, 'z, 'r) rest_config \<Rightarrow> error + 'h"
  rlTokenBucket :: "rat \<Rightarrow> int \<Rightarrow> 'l"
  rlRESTClientFor :: "('l, 'z, 'r) rest_config \<Rightarrow> 'h \<Rightarrow> error + 'c"
  rlDiscoveryFor :: "('l, 'z, 'r) rest_config \<Rightarrow> 'h \<Rightarrow> error + 'd"
  rlDiscovery :: "'c \<Rightarrow> 'd"

section \<open>The typed client\<close>

record 'c CoreV1alpha1Client =
  ccRestClient :: 'c

definition setConfigDefaults ::
  "('l, 'z, 'r, 'h, 'c, 'd) rest_lib \<Rightarrow> ('l, 'z, 'r) rest_config \<Rightarrow> ('l, 'z, 'r) rest_config" where
  "setConfigDefaults lib config =
     (let config = config\<lparr>rcGroupVersion := Some (GroupVersion_Group, GroupVersion_Version)\<rparr>;
          config = config\<lparr>rcAPIPath := ''/apis''\<rparr>;
          config = config\<lparr>rcNegotiatedSerializer := Some (rlSerializer lib)\<rparr>
      in if rcUserAgent config = [] then config\<lparr>rcUserAgent := rlDefaultUserAgent lib\<rparr> else config)"

definition core_NewForConfigAndClient ::
  "('l, 'z, 'r, 'h, 'c, 'd) rest_lib \<Rightarrow> ('l, 'z, 'r) rest_config \<Rightarrow> 'h \<Rightarrow> error + 'c CoreV1alpha1Client" where
  "core_NewForConfigAndClient lib c h =
     (let config = setConfigDefaults lib c in
      case rlRESTClientFor lib config h of
        Inl err \<Rightarrow> Inl err
      | Inr client \<Rightarrow> Inr \<lparr>ccRestClient = client\<rparr>)"

definition core_NewForConfig ::
  "('l, 'z, 'r, 'h, 'c, 'd) rest_lib \<Rightarrow> ('l, 'z, 'r) rest_config \<Rightarrow> error + 'c CoreV1alpha1Client" where
  "core_NewForConfig lib c =
     (let config = setConfigDefaults lib c in
      case rlHTTPClientFor lib config of
        Inl err \<Rightarrow> Inl err
      | Inr httpClient \<Rightarrow> core_NewForConfigAndClient lib config httpClient)"

text \<open>The error's text is the library's, the panic value is the error.\<close>

definition core_NewForConfigOrDie ::
  "('l, 'z, 'r, 'h, 'c, 'd) rest_lib \<Rightarrow> (error \<Rightarrow> string) \<Rightarrow> ('l, 'z, 'r) rest_config \<Rightarrow> 'c CoreV1alpha1Client result" where
  "core_NewForConfigOrDie lib message c =
     (case core_NewForConfig lib c of Inl err \<Rightarrow> Inl (Panic (message err)) | Inr client \<Rightarrow> Inr client)"

definition core_New :: "'c \<Rightarrow> 'c CoreV1alpha1Client" where
  "core_New c = \<lparr>ccRestClient = c\<rparr>"

definition RESTClient :: "'c CoreV1alpha1Client option \<Rightarrow> 'c option" where
  "RESTClient c = (case c of None \<Rightarrow> None | Some client \<Rightarrow> Some (ccRestClient client))"

section \<open>The clients of the three types\<close>

text \<open>
  A call changes the cluster behind the REST client. The library's generic client (\<open>gentype.ClientWithList\<close>) has
  every method, with one type for the options of all of them; \<open>NewClientWithList\<close> makes one from the Go type
  whose objects and lists it decodes into, the name of the resource, the REST client, the parameter codec and
  the namespace. The interfaces are records of methods.
\<close>

type_synonym ('s, 'a) api = "'s \<Rightarrow> 's \<times> (error + 'a)"

record ('s, 'o, 'l, 'w, 'p) ClientWithList =
  gcCreate :: "'o \<Rightarrow> 'p \<Rightarrow> ('s, 'o) api"
  gcUpdate :: "'o \<Rightarrow> 'p \<Rightarrow> ('s, 'o) api"
  gcUpdateStatus :: "'o \<Rightarrow> 'p \<Rightarrow> ('s, 'o) api"
  gcDelete :: "string \<Rightarrow> 'p \<Rightarrow> ('s, unit) api"
  gcDeleteCollection :: "'p \<Rightarrow> 'p \<Rightarrow> ('s, unit) api"
  gcGet :: "string \<Rightarrow> 'p \<Rightarrow> ('s, 'o) api"
  gcList :: "'p \<Rightarrow> ('s, 'l) api"
  gcWatch :: "'p \<Rightarrow> ('s, 'w) api"
  gcPatch :: "string \<Rightarrow> string \<Rightarrow> string \<Rightarrow> 'p \<Rightarrow> string list \<Rightarrow> ('s, 'o) api"

record ('c, 'k, 's, 'o, 'l, 'w, 'p) gentype_lib =
  gtNewClientWithList :: "obj_type \<Rightarrow> string \<Rightarrow> 'c option \<Rightarrow> 'k \<Rightarrow> string \<Rightarrow> ('s, 'o, 'l, 'w, 'p) ClientWithList"
  gtParameterCodec :: 'k

subsection \<open>Components\<close>

record ('s, 'o, 'l, 'w, 'p) ComponentInterface =
  ciCreate :: "'o \<Rightarrow> 'p \<Rightarrow> ('s, 'o) api"
  ciUpdate :: "'o \<Rightarrow> 'p \<Rightarrow> ('s, 'o) api"
  ciUpdateStatus :: "'o \<Rightarrow> 'p \<Rightarrow> ('s, 'o) api"
  ciDelete :: "string \<Rightarrow> 'p \<Rightarrow> ('s, unit) api"
  ciDeleteCollection :: "'p \<Rightarrow> 'p \<Rightarrow> ('s, unit) api"
  ciGet :: "string \<Rightarrow> 'p \<Rightarrow> ('s, 'o) api"
  ciList :: "'p \<Rightarrow> ('s, 'l) api"
  ciWatch :: "'p \<Rightarrow> ('s, 'w) api"
  ciPatch :: "string \<Rightarrow> string \<Rightarrow> string \<Rightarrow> 'p \<Rightarrow> string list \<Rightarrow> ('s, 'o) api"

record ('s, 'o, 'l, 'w, 'p) ComponentsGetter =
  ciComponents :: "string \<Rightarrow> ('s, 'o, 'l, 'w, 'p) ComponentInterface"

record ('s, 'o, 'l, 'w, 'p) components =
  ciClient :: "('s, 'o, 'l, 'w, 'p) ClientWithList"

definition newComponents :: "('c, 'k, 's, 'o, 'l, 'w, 'p) gentype_lib \<Rightarrow> 'c CoreV1alpha1Client \<Rightarrow> string \<Rightarrow> ('s, 'o, 'l, 'w, 'p) components" where
  "newComponents lib c namespace =
     \<lparr>ciClient = gtNewClientWithList lib ComponentType ''components'' (RESTClient (Some c)) (gtParameterCodec lib) namespace\<rparr>"

text \<open>The methods are those of the embedded client.\<close>

definition as_ComponentInterface :: "('s, 'o, 'l, 'w, 'p) components \<Rightarrow> ('s, 'o, 'l, 'w, 'p) ComponentInterface" where
  "as_ComponentInterface c =
     (let g = ciClient c in
      \<lparr>ciCreate = gcCreate g,
       ciUpdate = gcUpdate g,
       ciUpdateStatus = gcUpdateStatus g,
       ciDelete = gcDelete g,
       ciDeleteCollection = gcDeleteCollection g,
       ciGet = gcGet g,
       ciList = gcList g,
       ciWatch = gcWatch g,
       ciPatch = gcPatch g\<rparr>)"

definition client_Components :: "('c, 'k, 's, 'o, 'l, 'w, 'p) gentype_lib \<Rightarrow> 'c CoreV1alpha1Client \<Rightarrow> string \<Rightarrow> ('s, 'o, 'l, 'w, 'p) ComponentInterface" where
  "client_Components lib c namespace = as_ComponentInterface (newComponents lib c namespace)"

subsection \<open>Blueprints\<close>

record ('s, 'o, 'l, 'w, 'p) BlueprintInterface =
  biCreate :: "'o \<Rightarrow> 'p \<Rightarrow> ('s, 'o) api"
  biUpdate :: "'o \<Rightarrow> 'p \<Rightarrow> ('s, 'o) api"
  biDelete :: "string \<Rightarrow> 'p \<Rightarrow> ('s, unit) api"
  biDeleteCollection :: "'p \<Rightarrow> 'p \<Rightarrow> ('s, unit) api"
  biGet :: "string \<Rightarrow> 'p \<Rightarrow> ('s, 'o) api"
  biList :: "'p \<Rightarrow> ('s, 'l) api"
  biWatch :: "'p \<Rightarrow> ('s, 'w) api"
  biPatch :: "string \<Rightarrow> string \<Rightarrow> string \<Rightarrow> 'p \<Rightarrow> string list \<Rightarrow> ('s, 'o) api"

record ('s, 'o, 'l, 'w, 'p) BlueprintsGetter =
  biBlueprints :: "string \<Rightarrow> ('s, 'o, 'l, 'w, 'p) BlueprintInterface"

record ('s, 'o, 'l, 'w, 'p) blueprints =
  biClient :: "('s, 'o, 'l, 'w, 'p) ClientWithList"

definition newBlueprints :: "('c, 'k, 's, 'o, 'l, 'w, 'p) gentype_lib \<Rightarrow> 'c CoreV1alpha1Client \<Rightarrow> string \<Rightarrow> ('s, 'o, 'l, 'w, 'p) blueprints" where
  "newBlueprints lib c namespace =
     \<lparr>biClient = gtNewClientWithList lib BlueprintType ''blueprints'' (RESTClient (Some c)) (gtParameterCodec lib) namespace\<rparr>"

text \<open>The methods are those of the embedded client.\<close>

definition as_BlueprintInterface :: "('s, 'o, 'l, 'w, 'p) blueprints \<Rightarrow> ('s, 'o, 'l, 'w, 'p) BlueprintInterface" where
  "as_BlueprintInterface c =
     (let g = biClient c in
      \<lparr>biCreate = gcCreate g,
       biUpdate = gcUpdate g,
       biDelete = gcDelete g,
       biDeleteCollection = gcDeleteCollection g,
       biGet = gcGet g,
       biList = gcList g,
       biWatch = gcWatch g,
       biPatch = gcPatch g\<rparr>)"

definition client_Blueprints :: "('c, 'k, 's, 'o, 'l, 'w, 'p) gentype_lib \<Rightarrow> 'c CoreV1alpha1Client \<Rightarrow> string \<Rightarrow> ('s, 'o, 'l, 'w, 'p) BlueprintInterface" where
  "client_Blueprints lib c namespace = as_BlueprintInterface (newBlueprints lib c namespace)"

subsection \<open>BlueprintVersions\<close>

record ('s, 'o, 'l, 'w, 'p) BlueprintVersionInterface =
  viCreate :: "'o \<Rightarrow> 'p \<Rightarrow> ('s, 'o) api"
  viUpdate :: "'o \<Rightarrow> 'p \<Rightarrow> ('s, 'o) api"
  viDelete :: "string \<Rightarrow> 'p \<Rightarrow> ('s, unit) api"
  viDeleteCollection :: "'p \<Rightarrow> 'p \<Rightarrow> ('s, unit) api"
  viGet :: "string \<Rightarrow> 'p \<Rightarrow> ('s, 'o) api"
  viList :: "'p \<Rightarrow> ('s, 'l) api"
  viWatch :: "'p \<Rightarrow> ('s, 'w) api"
  viPatch :: "string \<Rightarrow> string \<Rightarrow> string \<Rightarrow> 'p \<Rightarrow> string list \<Rightarrow> ('s, 'o) api"

record ('s, 'o, 'l, 'w, 'p) BlueprintVersionsGetter =
  viBlueprintVersions :: "string \<Rightarrow> ('s, 'o, 'l, 'w, 'p) BlueprintVersionInterface"

record ('s, 'o, 'l, 'w, 'p) blueprintVersions =
  viClient :: "('s, 'o, 'l, 'w, 'p) ClientWithList"

definition newBlueprintVersions :: "('c, 'k, 's, 'o, 'l, 'w, 'p) gentype_lib \<Rightarrow> 'c CoreV1alpha1Client \<Rightarrow> string \<Rightarrow> ('s, 'o, 'l, 'w, 'p) blueprintVersions" where
  "newBlueprintVersions lib c namespace =
     \<lparr>viClient = gtNewClientWithList lib BlueprintVersionType ''blueprintversions'' (RESTClient (Some c)) (gtParameterCodec lib) namespace\<rparr>"

text \<open>The methods are those of the embedded client.\<close>

definition as_BlueprintVersionInterface :: "('s, 'o, 'l, 'w, 'p) blueprintVersions \<Rightarrow> ('s, 'o, 'l, 'w, 'p) BlueprintVersionInterface" where
  "as_BlueprintVersionInterface c =
     (let g = viClient c in
      \<lparr>viCreate = gcCreate g,
       viUpdate = gcUpdate g,
       viDelete = gcDelete g,
       viDeleteCollection = gcDeleteCollection g,
       viGet = gcGet g,
       viList = gcList g,
       viWatch = gcWatch g,
       viPatch = gcPatch g\<rparr>)"

definition client_BlueprintVersions :: "('c, 'k, 's, 'o, 'l, 'w, 'p) gentype_lib \<Rightarrow> 'c CoreV1alpha1Client \<Rightarrow> string \<Rightarrow> ('s, 'o, 'l, 'w, 'p) BlueprintVersionInterface" where
  "client_BlueprintVersions lib c namespace = as_BlueprintVersionInterface (newBlueprintVersions lib c namespace)"

subsection \<open>The interface of the typed client\<close>

text \<open>The three types have objects and lists of their own, so the library comes as three.\<close>

record ('c, 'k, 's, 'bo, 'bl, 'vo, 'vl, 'co, 'cl, 'w, 'p) gentype_libs =
  glBlueprints :: "('c, 'k, 's, 'bo, 'bl, 'w, 'p) gentype_lib"
  glBlueprintVersions :: "('c, 'k, 's, 'vo, 'vl, 'w, 'p) gentype_lib"
  glComponents :: "('c, 'k, 's, 'co, 'cl, 'w, 'p) gentype_lib"

record ('c, 's, 'bo, 'bl, 'vo, 'vl, 'co, 'cl, 'w, 'p) CoreV1alpha1Interface =
  ivRESTClient :: "'c option"
  ivBlueprintsGetter :: "('s, 'bo, 'bl, 'w, 'p) BlueprintsGetter"
  ivBlueprintVersionsGetter :: "('s, 'vo, 'vl, 'w, 'p) BlueprintVersionsGetter"
  ivComponentsGetter :: "('s, 'co, 'cl, 'w, 'p) ComponentsGetter"

definition as_CoreV1alpha1Interface ::
  "('c, 'k, 's, 'bo, 'bl, 'vo, 'vl, 'co, 'cl, 'w, 'p) gentype_libs \<Rightarrow> 'c CoreV1alpha1Client \<Rightarrow> ('c, 's, 'bo, 'bl, 'vo, 'vl, 'co, 'cl, 'w, 'p) CoreV1alpha1Interface" where
  "as_CoreV1alpha1Interface libs c =
     \<lparr>ivRESTClient = RESTClient (Some c),
      ivBlueprintsGetter = \<lparr>biBlueprints = client_Blueprints (glBlueprints libs) c\<rparr>,
      ivBlueprintVersionsGetter = \<lparr>viBlueprintVersions = client_BlueprintVersions (glBlueprintVersions libs) c\<rparr>,
      ivComponentsGetter = \<lparr>ciComponents = client_Components (glComponents libs) c\<rparr>\<rparr>"

section \<open>The client set\<close>

record ('c, 'd) Clientset =
  csDiscoveryClient :: 'd
  csCoreV1alpha1 :: "'c CoreV1alpha1Client"

definition CoreV1alpha1 :: "('c, 'd) Clientset \<Rightarrow> 'c CoreV1alpha1Client" where
  "CoreV1alpha1 c = csCoreV1alpha1 c"

definition Discovery :: "('c, 'd) Clientset option \<Rightarrow> 'd option" where
  "Discovery c = (case c of None \<Rightarrow> None | Some cs \<Rightarrow> Some (csDiscoveryClient cs))"

record ('c, 'd, 's, 'bo, 'bl, 'vo, 'vl, 'co, 'cl, 'w, 'p) Interface =
  iiDiscovery :: "'d option"
  iiCoreV1alpha1 :: "('c, 's, 'bo, 'bl, 'vo, 'vl, 'co, 'cl, 'w, 'p) CoreV1alpha1Interface"

definition as_Interface ::
  "('c, 'k, 's, 'bo, 'bl, 'vo, 'vl, 'co, 'cl, 'w, 'p) gentype_libs \<Rightarrow> ('c, 'd) Clientset \<Rightarrow> ('c, 'd, 's, 'bo, 'bl, 'vo, 'vl, 'co, 'cl, 'w, 'p) Interface" where
  "as_Interface libs c =
     \<lparr>iiDiscovery = Discovery (Some c), iiCoreV1alpha1 = as_CoreV1alpha1Interface libs (CoreV1alpha1 c)\<rparr>"

definition burst_error :: error where
  "burst_error = Errorf ''burst is required to be greater than 0 when RateLimiter is not set and QPS is set to greater than 0''"

definition NewForConfigAndClient ::
  "('l, 'z, 'r, 'h, 'c, 'd) rest_lib \<Rightarrow> ('l, 'z, 'r) rest_config \<Rightarrow> 'h \<Rightarrow> error + ('c, 'd) Clientset" where
  "NewForConfigAndClient lib c httpClient =
     rbind (if rcRateLimiter c = None \<and> 0 < rcQPS c
            then if rcBurst c \<le> 0 then Inl burst_error
                 else Inr (c\<lparr>rcRateLimiter := Some (rlTokenBucket lib (rcQPS c) (rcBurst c))\<rparr>)
            else Inr c)
       (\<lambda>configShallowCopy. rbind (core_NewForConfigAndClient lib configShallowCopy httpClient)
       (\<lambda>coreV1alpha1. rbind (rlDiscoveryFor lib configShallowCopy httpClient)
       (\<lambda>discovery. Inr \<lparr>csDiscoveryClient = discovery, csCoreV1alpha1 = coreV1alpha1\<rparr>)))"

definition NewForConfig ::
  "('l, 'z, 'r, 'h, 'c, 'd) rest_lib \<Rightarrow> ('l, 'z, 'r) rest_config \<Rightarrow> error + ('c, 'd) Clientset" where
  "NewForConfig lib c =
     (let configShallowCopy = (if rcUserAgent c = [] then c\<lparr>rcUserAgent := rlDefaultUserAgent lib\<rparr> else c) in
      rbind (rlHTTPClientFor lib configShallowCopy)
        (\<lambda>httpClient. NewForConfigAndClient lib configShallowCopy httpClient))"

definition NewForConfigOrDie ::
  "('l, 'z, 'r, 'h, 'c, 'd) rest_lib \<Rightarrow> (error \<Rightarrow> string) \<Rightarrow> ('l, 'z, 'r) rest_config \<Rightarrow> ('c, 'd) Clientset result" where
  "NewForConfigOrDie lib message c =
     (case NewForConfig lib c of Inl err \<Rightarrow> Inl (Panic (message err)) | Inr cs \<Rightarrow> Inr cs)"

definition Clientset_New :: "('l, 'z, 'r, 'h, 'c, 'd) rest_lib \<Rightarrow> 'c \<Rightarrow> ('c, 'd) Clientset" where
  "Clientset_New lib c = \<lparr>csDiscoveryClient = rlDiscovery lib c, csCoreV1alpha1 = core_New c\<rparr>"

section \<open>Properties\<close>

text \<open>The configuration both clients of a client set are built from.\<close>

definition completed :: "('l, 'z, 'r, 'h, 'c, 'd) rest_lib \<Rightarrow> ('l, 'z, 'r) rest_config \<Rightarrow> ('l, 'z, 'r) rest_config" where
  "completed lib c = c\<lparr>rcUserAgent := (if rcUserAgent c = [] then rlDefaultUserAgent lib else rcUserAgent c),
     rcRateLimiter := (case rcRateLimiter c of Some l \<Rightarrow> Some l
       | None \<Rightarrow> if 0 < rcQPS c then Some (rlTokenBucket lib (rcQPS c) (rcBurst c)) else None)\<rparr>"

lemma setConfigDefaults_cases:
  "setConfigDefaults lib c = c\<lparr>rcGroupVersion := Some (GroupVersion_Group, GroupVersion_Version),
     rcAPIPath := ''/apis'', rcNegotiatedSerializer := Some (rlSerializer lib),
     rcUserAgent := (if rcUserAgent c = [] then rlDefaultUserAgent lib else rcUserAgent c)\<rparr>"
  by (simp add: setConfigDefaults_def Let_def)

text \<open>
  A client set is created exactly when the burst is positive wherever it is needed and the library gives a
  transport and both clients: these share the transport, the user agent and one rate limiter, which is made
  from QPS and burst if the configuration has none.
\<close>

theorem NewForConfig_shares:
  "NewForConfig lib c = Inr cs \<longleftrightarrow>
     (rcRateLimiter c \<noteq> None \<or> rcQPS c \<le> 0 \<or> 0 < rcBurst c) \<and>
     (\<exists>h core disc. rlHTTPClientFor lib (c\<lparr>rcUserAgent := rcUserAgent (completed lib c)\<rparr>) = Inr h \<and>
        rlRESTClientFor lib (setConfigDefaults lib (completed lib c)) h = Inr core \<and>
        rlDiscoveryFor lib (completed lib c) h = Inr disc \<and>
        cs = \<lparr>csDiscoveryClient = disc, csCoreV1alpha1 = \<lparr>ccRestClient = core\<rparr>\<rparr>)"
proof -
  let ?u = "if rcUserAgent c = [] then rlDefaultUserAgent lib else rcUserAgent c"
  have u: "(if rcUserAgent c = [] then c\<lparr>rcUserAgent := rlDefaultUserAgent lib\<rparr> else c) = c\<lparr>rcUserAgent := ?u\<rparr>"
    by simp
  have lim: "(if rcRateLimiter (c\<lparr>rcUserAgent := ?u\<rparr>) = None \<and> 0 < rcQPS (c\<lparr>rcUserAgent := ?u\<rparr>)
        then if rcBurst (c\<lparr>rcUserAgent := ?u\<rparr>) \<le> 0 then Inl burst_error
             else Inr ((c\<lparr>rcUserAgent := ?u\<rparr>)\<lparr>rcRateLimiter :=
               Some (rlTokenBucket lib (rcQPS (c\<lparr>rcUserAgent := ?u\<rparr>)) (rcBurst (c\<lparr>rcUserAgent := ?u\<rparr>)))\<rparr>)
        else Inr (c\<lparr>rcUserAgent := ?u\<rparr>)) =
      (if rcRateLimiter c \<noteq> None \<or> rcQPS c \<le> 0 \<or> 0 < rcBurst c then Inr (completed lib c) else Inl burst_error)"
    by (cases "rcRateLimiter c") (auto simp: completed_def)
  have core: "core_NewForConfigAndClient lib d h = Inr x \<longleftrightarrow>
      (\<exists>r. rlRESTClientFor lib (setConfigDefaults lib d) h = Inr r \<and> x = \<lparr>ccRestClient = r\<rparr>)" for d h x
    by (auto simp: core_NewForConfigAndClient_def Let_def split: sum.splits)
  have ua: "rcUserAgent (completed lib c) = ?u" by (simp add: completed_def)
  show ?thesis
    unfolding NewForConfig_def Let_def u NewForConfigAndClient_def lim ua
    by (auto simp: rbind_Inr_iff core)
qed

end
