(* ===== verification/FakeClient.thy ===== *)
theory FakeClient
  imports Informers
begin

text \<open>
  The fake client set for tests (\<open>pkg/client/clientset/versioned/fake\<close> and
  \<open>typed/core.cs.sap.com/v1alpha1/fake\<close>): a client set whose calls are answered by an object tracker. The
  tracker, the reactions it gives and the generic fake client are library code and parameters.
\<close>

section \<open>The client set\<close>

text \<open>An action carries list options if it is a watch; other actions watch with the zero options.\<close>

record 'o action =
  acResource :: GroupVersionResource
  acNamespace :: string
  acWatchOptions :: "'o option"

record ('tr, 'obj, 'o, 'w, 'r) tracker_lib =
  tkNew :: 'tr
  tkAdd :: "'tr \<Rightarrow> 'obj \<Rightarrow> 'tr \<times> error option"
  tkObjectReaction :: "'tr \<Rightarrow> 'r"
  tkWatch :: "'tr \<Rightarrow> GroupVersionResource \<Rightarrow> string \<Rightarrow> 'o \<Rightarrow> error + 'w"
  tkNoOptions :: 'o

type_synonym ('o, 'w) watch_reaction = "'o action \<Rightarrow> bool \<times> 'w option \<times> error option"

text \<open>The embedded \<open>testing.Fake\<close> with its two chains of reactors, each for a verb and a resource.\<close>

record ('tr, 'o, 'w, 'r) fake_Clientset =
  fcReactors :: "(string \<times> string \<times> 'r) list"
  fcWatchReactors :: "(string \<times> ('o, 'w) watch_reaction) list"
  fcTracker :: 'tr

fun add_objects :: "('tr, 'obj, 'o, 'w, 'r) tracker_lib \<Rightarrow> (error \<Rightarrow> string) \<Rightarrow> 'obj list \<Rightarrow> 'tr \<Rightarrow> 'tr result" where
  "add_objects lib message [] tr = Inr tr"
| "add_objects lib message (obj # objects) tr =
     (case tkAdd lib tr obj of
        (tr', Some err) \<Rightarrow> Inl (Panic (message err))
      | (tr', None) \<Rightarrow> add_objects lib message objects tr')"

definition watch_reactor :: "('tr, 'obj, 'o, 'w, 'r) tracker_lib \<Rightarrow> 'tr \<Rightarrow> ('o, 'w) watch_reaction" where
  "watch_reactor lib tr action =
     (let opts = (case acWatchOptions action of None \<Rightarrow> tkNoOptions lib | Some opts \<Rightarrow> opts);
          gvr = acResource action;
          ns = acNamespace action
      in case tkWatch lib tr gvr ns opts of
           Inl err \<Rightarrow> (False, None, None)
         | Inr watch \<Rightarrow> (True, Some watch, None))"

definition NewSimpleClientset ::
  "('tr, 'obj, 'o, 'w, 'r) tracker_lib \<Rightarrow> (error \<Rightarrow> string) \<Rightarrow> 'obj list \<Rightarrow> ('tr, 'o, 'w, 'r) fake_Clientset result" where
  "NewSimpleClientset lib message objects =
     rbind (add_objects lib message objects (tkNew lib))
       (\<lambda>tr. Inr \<lparr>fcReactors = [(''*'', ''*'', tkObjectReaction lib tr)],
          fcWatchReactors = [(''*'', watch_reactor lib tr)], fcTracker = tr\<rparr>)"

definition Tracker :: "('tr, 'o, 'w, 'r) fake_Clientset \<Rightarrow> 'tr" where "Tracker c = fcTracker c"

text \<open>The fake discovery client answers from the same fake.\<close>

record 'f FakeDiscovery =
  fdFake :: 'f

definition fake_Discovery :: "('tr, 'o, 'w, 'r) fake_Clientset \<Rightarrow> ('tr, 'o, 'w, 'r) fake_Clientset FakeDiscovery" where
  "fake_Discovery c = \<lparr>fdFake = c\<rparr>"

definition IsWatchListSemanticsUnSupported :: "('tr, 'o, 'w, 'r) fake_Clientset \<Rightarrow> bool" where
  "IsWatchListSemanticsUnSupported c = True"

section \<open>The typed clients\<close>

text \<open>The typed fake client holds the client set it was asked from; its REST client is nil.\<close>

record 'f FakeCoreV1alpha1 =
  fkFake :: 'f

definition fake_CoreV1alpha1 :: "('tr, 'o, 'w, 'r) fake_Clientset \<Rightarrow> ('tr, 'o, 'w, 'r) fake_Clientset FakeCoreV1alpha1" where
  "fake_CoreV1alpha1 c = \<lparr>fkFake = c\<rparr>"

definition fake_RESTClient :: "'f FakeCoreV1alpha1 \<Rightarrow> 'c option" where "fake_RESTClient c = None"

record ('m, 'i) obj_list =
  olListMeta :: 'm
  olItems :: "'i list"

text \<open>
  What \<open>gentype.NewFakeClientWithList\<close> is given: how list metadata is copied and how the items of a list are
  read and replaced. Pointers to items stand for the items.
\<close>

record ('m, 'i) list_access =
  laCopyListMeta :: "('m, 'i) obj_list \<Rightarrow> ('m, 'i) obj_list \<Rightarrow> ('m, 'i) obj_list"
  laItems :: "('m, 'i) obj_list \<Rightarrow> 'i list"
  laSetItems :: "('m, 'i) obj_list \<Rightarrow> 'i list \<Rightarrow> ('m, 'i) obj_list"

type_synonym ('f, 'm, 'i, 't) new_fake_client =
  "'f \<Rightarrow> string \<Rightarrow> GroupVersionResource \<Rightarrow> string \<times> string \<times> string \<Rightarrow> obj_type \<Rightarrow> ('m, 'i) list_access \<Rightarrow> 't"

definition WithKind :: "string \<Rightarrow> string \<times> string \<times> string" where
  "WithKind kind = (GroupVersion_Group, GroupVersion_Version, kind)"

record ('t, 'f) fakeComponents =
  kcFakeClientWithList :: 't
  kcFake :: "'f FakeCoreV1alpha1"

definition newFakeComponents ::
  "('f, 'm, 'i, 't) new_fake_client \<Rightarrow> 'f FakeCoreV1alpha1 \<Rightarrow> string \<Rightarrow> ('t, 'f) fakeComponents" where
  "newFakeComponents new_client fake namespace =
     \<lparr>kcFakeClientWithList = new_client (fkFake fake) namespace (WithResource ''components'') (WithKind ''Component'') ComponentType
        \<lparr>laCopyListMeta = (\<lambda>dst src. dst\<lparr>olListMeta := olListMeta src\<rparr>),
         laItems = (\<lambda>list. olItems list),
         laSetItems = (\<lambda>list items. list\<lparr>olItems := items\<rparr>)\<rparr>,
      kcFake = fake\<rparr>"

definition fake_Components ::
  "('f, 'm, 'i, 't) new_fake_client \<Rightarrow> 'f FakeCoreV1alpha1 \<Rightarrow> string \<Rightarrow> ('t, 'f) fakeComponents" where
  "fake_Components new_client c namespace = newFakeComponents new_client c namespace"

record ('t, 'f) fakeBlueprints =
  kbFakeClientWithList :: 't
  kbFake :: "'f FakeCoreV1alpha1"

definition newFakeBlueprints ::
  "('f, 'm, 'i, 't) new_fake_client \<Rightarrow> 'f FakeCoreV1alpha1 \<Rightarrow> string \<Rightarrow> ('t, 'f) fakeBlueprints" where
  "newFakeBlueprints new_client fake namespace =
     \<lparr>kbFakeClientWithList = new_client (fkFake fake) namespace (WithResource ''blueprints'') (WithKind ''Blueprint'') BlueprintType
        \<lparr>laCopyListMeta = (\<lambda>dst src. dst\<lparr>olListMeta := olListMeta src\<rparr>),
         laItems = (\<lambda>list. olItems list),
         laSetItems = (\<lambda>list items. list\<lparr>olItems := items\<rparr>)\<rparr>,
      kbFake = fake\<rparr>"

definition fake_Blueprints ::
  "('f, 'm, 'i, 't) new_fake_client \<Rightarrow> 'f FakeCoreV1alpha1 \<Rightarrow> string \<Rightarrow> ('t, 'f) fakeBlueprints" where
  "fake_Blueprints new_client c namespace = newFakeBlueprints new_client c namespace"

record ('t, 'f) fakeBlueprintVersions =
  kvFakeClientWithList :: 't
  kvFake :: "'f FakeCoreV1alpha1"

definition newFakeBlueprintVersions ::
  "('f, 'm, 'i, 't) new_fake_client \<Rightarrow> 'f FakeCoreV1alpha1 \<Rightarrow> string \<Rightarrow> ('t, 'f) fakeBlueprintVersions" where
  "newFakeBlueprintVersions new_client fake namespace =
     \<lparr>kvFakeClientWithList = new_client (fkFake fake) namespace (WithResource ''blueprintversions'') (WithKind ''BlueprintVersion'') BlueprintVersionType
        \<lparr>laCopyListMeta = (\<lambda>dst src. dst\<lparr>olListMeta := olListMeta src\<rparr>),
         laItems = (\<lambda>list. olItems list),
         laSetItems = (\<lambda>list items. list\<lparr>olItems := items\<rparr>)\<rparr>,
      kvFake = fake\<rparr>"

definition fake_BlueprintVersions ::
  "('f, 'm, 'i, 't) new_fake_client \<Rightarrow> 'f FakeCoreV1alpha1 \<Rightarrow> string \<Rightarrow> ('t, 'f) fakeBlueprintVersions" where
  "fake_BlueprintVersions new_client c namespace = newFakeBlueprintVersions new_client c namespace"

section \<open>Properties\<close>

lemma add_objects_Inr:
  "add_objects lib message objects tr = Inr tr' \<longleftrightarrow>
     tr' = fold (\<lambda>obj tr. fst (tkAdd lib tr obj)) objects tr \<and>
     (\<forall>i < length objects. snd (tkAdd lib (fold (\<lambda>obj tr. fst (tkAdd lib tr obj)) (take i objects) tr) (objects ! i)) = None)"
proof (induction objects arbitrary: tr)
  case (Cons obj objects)
  obtain t e where a: "tkAdd lib tr obj = (t, e)" by (cases "tkAdd lib tr obj")
  have split: "(\<forall>i < Suc n. P i) \<longleftrightarrow> P 0 \<and> (\<forall>i < n. P (Suc i))" for n and P :: "nat \<Rightarrow> bool"
    by (simp add: All_less_Suc2)
  show ?case using a Cons.IH [of t] by (cases e) (auto simp: split)
qed auto

text \<open>
  The fake client set starts with exactly the given objects, added in order, or not at all; a watch it cannot
  serve is left to other reactors instead of failing.
\<close>

theorem NewSimpleClientset_tracks:
  "NewSimpleClientset lib message objects = Inr cs \<longleftrightarrow>
     (\<forall>i < length objects.
        snd (tkAdd lib (fold (\<lambda>obj tr. fst (tkAdd lib tr obj)) (take i objects) (tkNew lib)) (objects ! i)) = None) \<and>
     cs = (let tr = fold (\<lambda>obj tr. fst (tkAdd lib tr obj)) objects (tkNew lib) in
       \<lparr>fcReactors = [(''*'', ''*'', tkObjectReaction lib tr)], fcWatchReactors = [(''*'', watch_reactor lib tr)],
        fcTracker = tr\<rparr>)"
  by (auto simp: NewSimpleClientset_def rbind_Inr_iff add_objects_Inr Let_def)

end
