(* ===== verification/Witnesses.thy ===== *)
theory Witnesses
  imports Convergence CopyContracts InformerRuns Listers VersionNames Clientset FakeClient
begin

text \<open>
  Concrete objects on which the properties of the other theories apply: a blueprint \<open>ns/sample_app\<close> with one
  file, a component \<open>ns/sample_c1\<close> that uses it, a component \<open>ns/sample_c2\<close> that depends on the first one, a client
  whose state is the list of blueprint versions, and small file systems, servers and libraries.
\<close>

section \<open>Sample objects\<close>

definition sample_meta :: "string \<Rightarrow> string \<Rightarrow> ObjectMeta" where
  "sample_meta ns n = \<lparr>omNamespace = ns, omName = n, omUID = ''uid'', omGeneration = 1,
     omDeletionTimestamp = None, omFinalizers = [], omAnnotations = []\<rparr>"

definition no_source :: SourceReference where
  "no_source = \<lparr>srBlueprint = None, srHttpRepository = None, srFluxGitRepository = None,
     srFluxOciRepository = None, srFluxBucket = None, srFluxHelmChart = None,
     srArtifact = emptyArtifact, srDigest = [], srLoaded = False\<rparr>"

definition spec_of :: "SourceReference \<Rightarrow> ComponentSpec" where
  "spec_of r = \<lparr>spRequeueInterval = None, spTimeout = None, spSourceRef = r, spDigest = [], spRevision = [],
     spSticky = False, spPath = [], spValues = None, spValuesFrom = [], spDecryption = None,
     spPostBuild = None, spDependencies = []\<rparr>"

definition new_status :: ComponentStatus where
  "new_status = \<lparr>csStatus = \<lparr>rsObservedGeneration = 1, rsLastObservedAt = None, rsProcessingSince = None,
       rsReady = True\<rparr>,
     csSourceRef = None, csLastAttemptedDigest = [], csLastAttemptedRevision = [],
     csLastAppliedDigest = [], csLastAppliedRevision = []\<rparr>"

definition app_ref :: NamespacedName where "app_ref = \<lparr>nnNamespace = [], nnName = ''app''\<rparr>"

definition app_source :: SourceReference where "app_source = no_source\<lparr>srBlueprint := Some app_ref\<rparr>"

definition sample_c1 :: Component where
  "sample_c1 = \<lparr>coMeta = sample_meta ''ns'' ''c1'', coSpec = spec_of app_source, coStatus = new_status\<rparr>"

definition sample_c2 :: Component where
  "sample_c2 = \<lparr>coMeta = sample_meta ''ns'' ''c2'',
     coSpec = (spec_of app_source)\<lparr>spDependencies := [\<lparr>nnNamespace = [], nnName = ''c1''\<rparr>]\<rparr>,
     coStatus = new_status\<rparr>"

definition sample_app :: Blueprint where
  "sample_app = \<lparr>bpMeta = sample_meta ''ns'' ''app'', bpSpec = \<lparr>bsFiles = [(''a.yaml'', ''x'')]\<rparr>\<rparr>"

text \<open>A client that stores applied versions in front of a list.\<close>

definition list_client :: "BlueprintVersion list client" where
  "list_client =
     \<lparr>clGetBlueprint = (\<lambda>s n. if n = \<lparr>nnNamespace = ''ns'', nnName = ''app''\<rparr> then Inr sample_app else Inl (NotFound [])),
      clGetVersion = (\<lambda>s n. case List.find (\<lambda>v. version_key v = n) s of None \<Rightarrow> Inl (NotFound []) | Some v \<Rightarrow> Inr v),
      clGetFlux = (\<lambda>s k n. Inl (NotFound [])),
      clApplyVersion = (\<lambda>s v. (v # s, None)),
      clUpdateBlueprint = (\<lambda>s b. (s, Inr b)),
      clListVersions = (\<lambda>s ns n. Inr (filter (\<lambda>v. slash \<notin> set (bvNamespace v)) s)),
      clDeleteVersion = (\<lambda>s v. (remove1 v s, None))\<rparr>"

lemma list_client_simps [simp]:
  "clGetBlueprint list_client s n = (if n = \<lparr>nnNamespace = ''ns'', nnName = ''app''\<rparr> then Inr sample_app else Inl (NotFound []))"
  "clApplyVersion list_client s v = (v # s, None)"
  "clUpdateBlueprint list_client s b = (s, Inr b)"
  "clListVersions list_client s ns n' = Inr (filter (\<lambda>v. slash \<notin> set (bvNamespace v)) s)"
  "clDeleteVersion list_client s v = (remove1 v s, None)"
  by (simp_all add: list_client_def)

lemmas sample_components = sample_c1_def sample_c2_def spec_of_def app_source_def no_source_def app_ref_def sample_meta_def new_status_def

lemma sample_facts [simp]:
  "coNamespace sample_c1 = ''ns''" "coName sample_c1 = ''c1''" "coNamespace sample_c2 = ''ns''" "coName sample_c2 = ''c2''"
  "bpNamespace sample_app = ''ns''" "bpName sample_app = ''app''" "srBlueprint app_source = Some app_ref"
  "\<not> is_deleting sample_c1" "keep_source sample_c1 = Inr None" "\<not> srLoaded app_source" "Component_IsReady sample_c1"
  "WithDefaultNamespace app_ref ''ns'' = \<lparr>nnNamespace = ''ns'', nnName = ''app''\<rparr>"
  by (simp_all add: sample_components sample_app_def is_deleting_def IsZero_def keep_source_def
      WithDefaultNamespace_def Component_IsReady_def)

text \<open>The component as \<open>Load\<close> leaves it, and the loaded reference.\<close>

definition app_status :: SourceReferenceStatus where
  "app_status = \<lparr>srsArtifact = blueprint_artifact sample_app,
     srsDigest = calculateDigest (artifact_json (blueprint_artifact sample_app))\<rparr>"

definition loaded_ref :: SourceReference where
  "loaded_ref = app_source\<lparr>srArtifact := srsArtifact app_status, srDigest := srsDigest app_status, srLoaded := True\<rparr>"

definition loaded_c1 :: Component where "loaded_c1 = set_status_source sample_c1 app_status"

lemma sample_c1_source [simp]: "coSourceRef sample_c1 = app_source"
  by (simp add: sample_c1_def spec_of_def)

lemma load_c1:
  "Load list_client demo_server [] app_source sample_c1 = Some ([make_version sample_app], Inr (loaded_ref, loaded_c1))"
  by (simp add: Load_fresh load_source_def load_blueprint_def loaded_ref_def loaded_c1_def app_status_def Let_def)

lemma app_version_found:
  "clGetVersion list_client [make_version sample_app] \<lparr>nnNamespace = ''ns'', nnName = blueprint_version_name ''app'' (GetDigest sample_app)\<rparr> =
     Inr (make_version sample_app)"
  by (simp add: list_client_def version_key_def make_version_def)

section \<open>Sources\<close>

theorem Load_status_mirrors_reference_witness:
  "srLoaded loaded_ref \<and>
    csSourceRef (coStatus loaded_c1) = Some \<lparr>srsArtifact = srArtifact loaded_ref, srsDigest = srDigest loaded_ref\<rparr> \<and>
    loaded_c1 = sample_c1\<lparr>coStatus := (coStatus sample_c1)\<lparr>csSourceRef := csSourceRef (coStatus loaded_c1)\<rparr>\<rparr>"
  by (rule Load_status_mirrors_reference [OF load_c1]) simp

theorem Load_blueprint_witness:
  "\<exists>b v url digest revision. clGetBlueprint list_client [] (WithDefaultNamespace app_ref (coNamespace sample_c1)) = Inr b \<and>
    digest = calculateDigest [BlueprintSpec_json (bpSpec b)] \<and>
    revision = ''generation:'' @ int_str (omGeneration (bpMeta b)) \<and>
    url = ''blueprint://'' @ bpNamespace b @ ''/'' @ bpName b @ ''/'' @ digest \<and>
    clApplyVersion list_client [] v = ([make_version sample_app], None) \<and>
    bvNamespace v = bpNamespace b \<and> bvName v = bpName b @ ''--'' @ digest \<and>
    bvSpec v = \<lparr>bvsBlueprint = bpName b, bvsDigest = digest, bvsRevision = revision, bvsSpec = bpSpec b\<rparr> \<and>
    srLoaded loaded_ref \<and> srArtifact loaded_ref = \<lparr>artUrl = url, artDigest = digest, artRevision = revision\<rparr> \<and>
    srDigest loaded_ref = calculateDigest [JString url, JString digest, JString revision]"
  by (rule Load_blueprint [OF load_c1]) simp_all

definition sticky_c1 :: Component where
  "sticky_c1 = loaded_c1\<lparr>coSpec := (spec_of app_source)\<lparr>spSticky := True\<rparr>,
     coStatus := (coStatus loaded_c1)\<lparr>csStatus := \<lparr>rsObservedGeneration = 1, rsLastObservedAt = Some (2 * minute),
       rsProcessingSince = Some minute, rsReady = False\<rparr>\<rparr>\<rparr>"

theorem Load_sticky_witness:
  "Load list_client loop_server [] app_source sticky_c1 =
    Some ([], Inr (app_source\<lparr>srArtifact := srsArtifact app_status, srDigest := srsDigest app_status,
      srLoaded := True\<rparr>, sticky_c1))"
  by (rule Load_sticky [where since = minute and observed = "2 * minute"])
    (simp_all add: sticky_c1_def loaded_c1_def set_status_source_def is_deleting_def IsZero_def time_Sub_def
      processing_timeout_def spec_of_def sample_c1_def sample_meta_def)

definition git_source :: FluxSource where
  "git_source = \<lparr>fsKind = GitRepository, fsMeta = sample_meta ''ns'' ''repo'',
     fsConditions = [], fsArtifact = None\<rparr>"

definition git_client :: "unit client" where
  "git_client = \<lparr>clGetBlueprint = (\<lambda>s n. Inl (NotFound [])), clGetVersion = (\<lambda>s n. Inl (NotFound [])),
     clGetFlux = (\<lambda>s k n. Inr git_source), clApplyVersion = (\<lambda>s v. (s, None)),
     clUpdateBlueprint = (\<lambda>s b. (s, Inr b)), clListVersions = (\<lambda>s ns n. Inr []),
     clDeleteVersion = (\<lambda>s v. (s, None))\<rparr>"

definition git_c1 :: Component where
  "git_c1 = sample_c1\<lparr>coSpec := spec_of (no_source\<lparr>srFluxGitRepository := Some \<lparr>nnNamespace = [], nnName = ''repo''\<rparr>\<rparr>)\<rparr>"

definition usable_git :: FluxSource where
  "usable_git = git_source\<lparr>fsConditions := [\<lparr>condType = ''Ready'', condStatus = ''True'', condObservedGeneration = 1\<rparr>],
     fsArtifact := Some \<lparr>faURL = ''http://f'', faDigest = ''d'', faRevision = ''r''\<rparr>\<rparr>"

definition usable_client :: "unit client" where
  "usable_client = git_client\<lparr>clGetFlux := (\<lambda>s k n. Inr usable_git)\<rparr>"

theorem Load_flux_witness:
  "(\<exists>e. Load git_client demo_server () (coSourceRef git_c1) git_c1 = Some ((), Inl (Err (Retriable e (Some (10 * second)))))) \<and>
    (\<exists>r' c'. Load usable_client demo_server () (coSourceRef git_c1) git_c1 = Some ((), Inr (r', c')) \<and>
      srArtifact r' = \<lparr>artUrl = ''http://f'', artDigest = ''d'', artRevision = ''r''\<rparr>)"
proof
  have "\<not> flux_usable git_source" by (simp add: flux_usable_def git_source_def)
  then show "\<exists>e. Load git_client demo_server () (coSourceRef git_c1) git_c1 = Some ((), Inl (Err (Retriable e (Some (10 * second)))))"
    using Load_flux [of "coSourceRef git_c1" git_c1 GitRepository "\<lparr>nnNamespace = ''ns'', nnName = ''repo''\<rparr>"
        git_client "()" git_source demo_server]
    by (simp add: git_c1_def git_client_def sample_components is_deleting_def IsZero_def keep_source_def
        flux_reference_def WithDefaultNamespace_def)
next
  have "flux_usable usable_git"
    by (simp add: flux_usable_def usable_git_def git_source_def sample_meta_def Cons_eq_append_conv)
  then show "\<exists>r' c'. Load usable_client demo_server () (coSourceRef git_c1) git_c1 = Some ((), Inr (r', c')) \<and>
      srArtifact r' = \<lparr>artUrl = ''http://f'', artDigest = ''d'', artRevision = ''r''\<rparr>"
    using Load_flux [of "coSourceRef git_c1" git_c1 GitRepository "\<lparr>nnNamespace = ''ns'', nnName = ''repo''\<rparr>"
        usable_client "()" usable_git demo_server]
    by (auto simp: git_c1_def usable_client_def usable_git_def sample_components is_deleting_def IsZero_def keep_source_def
        flux_reference_def WithDefaultNamespace_def)
qed

lemma ascii_utf8: "list_all (\<lambda>c. between 0 c 127) s \<Longrightarrow> valid_utf8 s"
  by (rule valid_utf8_ascii) (simp add: list_all_iff)

definition ready_git :: "(string \<times> string) list \<Rightarrow> FluxSource" where
  "ready_git annotations = git_source\<lparr>fsMeta := (fsMeta git_source)\<lparr>omAnnotations := annotations\<rparr>,
     fsConditions := [\<lparr>condType = ''Ready'', condStatus = ''True'', condObservedGeneration = 1\<rparr>],
     fsArtifact := Some \<lparr>faURL = ''http://f'', faDigest = ''d'', faRevision = ''r''\<rparr>\<rparr>"

definition git_data :: "jval list" where
  "git_data = [JString ''uid'', JInt 1, json_map [(''a'', JString ''1''), (''b'', JString ''2'')],
     JString ''http://f'', JString ''d'', JString ''r'']"

definition git_artifact :: Artifact where
  "git_artifact = \<lparr>artUrl = ''http://f'', artDigest = ''d'', artRevision = ''r''\<rparr>"

lemma ready_git_artifact:
  "flux_artifact (ready_git [(''a'', ''1''), (''b'', ''2'')]) = Inr (git_artifact, git_data)"
  "flux_artifact (ready_git [(''b'', ''2''), (''a'', ''1'')]) = Inr (git_artifact, git_data)"
  by (simp_all add: flux_artifact_def ready_git_def git_source_def sample_meta_def FluxSource_IsReady_def git_data_def
      git_artifact_def annotations_json_def json_map_def artifact_json_def Let_def ConditionTrue_def)

lemma ready_git_text:
  "flux_text_ok (ready_git [(''a'', ''1''), (''b'', ''2'')])" "flux_text_ok (ready_git [(''b'', ''2''), (''a'', ''1'')])"
  by (simp_all add: flux_text_ok_def ready_git_def git_source_def sample_meta_def ascii_utf8 between_def)

theorem flux_digest_determines_source_witness:
  "git_artifact = git_artifact \<and>
      omUID (fsMeta (ready_git [(''a'', ''1''), (''b'', ''2'')])) = omUID (fsMeta (ready_git [(''b'', ''2''), (''a'', ''1'')])) \<and>
      omGeneration (fsMeta (ready_git [(''a'', ''1''), (''b'', ''2'')])) =
        omGeneration (fsMeta (ready_git [(''b'', ''2''), (''a'', ''1'')])) \<and>
      map_of (omAnnotations (fsMeta (ready_git [(''a'', ''1''), (''b'', ''2'')]))) =
        map_of (omAnnotations (fsMeta (ready_git [(''b'', ''2''), (''a'', ''1'')]))) \<or>
    sha_collision (digest_text git_data) (digest_text git_data)"
  by (rule flux_digest_determines_source [OF ready_git_artifact ready_git_text refl])

theorem blueprint_digest_content_witness:
  "GetDigest sample_app = GetDigest (sample_app\<lparr>bpSpec := \<lparr>bsFiles = [(''b.yaml'', ''y'')]\<rparr>\<rparr>) \<longleftrightarrow>
    map_of [(''a.yaml'', ''x'')] = map_of [(''b.yaml'', ''y'')] \<or>
    sha_collision (digest_text [BlueprintSpec_json \<lparr>bsFiles = [(''a.yaml'', ''x'')]\<rparr>])
      (digest_text [BlueprintSpec_json \<lparr>bsFiles = [(''b.yaml'', ''y'')]\<rparr>])"
  using blueprint_digest_content [of sample_app "sample_app\<lparr>bpSpec := \<lparr>bsFiles = [(''b.yaml'', ''y'')]\<rparr>\<rparr>"]
  by (simp add: files_ok_def sample_app_def ascii_utf8 between_def del: map_of.simps)

section \<open>Events\<close>

definition slash_key :: "string \<Rightarrow> string \<Rightarrow> string" where "slash_key ns n = ns @ ''/'' @ n"

lemma k8s_samples [simp]: "k8s_names sample_c1" "k8s_names sample_c2" "k8s_names loaded_c1" "k8s_names git_c1"
  by (simp_all add: k8s_names_def k8s_component_def k8s_reference_def loaded_c1_def set_status_source_def
      git_c1_def sample_components opt_list_def)

lemma list_cache_serves: "\<forall>c \<in> set store. k8s_names c \<Longrightarrow> cache_serves (set store) slash_key (list_cache store)"
  by (simp add: cache_serves_def list_cache_indexed object_key_def slash_key_def)

lemma list_cache_one [simp]:
  "list_cache store [MatchingDependency key c] =
     Inr (filter (index_matches (pure_index indexByDependencies) (key (coNamespace c) (coName c))) store)"
  "list_cache store [MatchingBlueprint key b] =
     Inr (filter (index_matches (pure_index indexByBlueprint) (key (bpNamespace b) (bpName b))) store)"
  "list_cache store [MatchingBlueprintVersion key v, Limit n] =
     Inr (take n (filter (index_matches (pure_index indexByBlueprintVersion) (key (bvNamespace v) (bvName v))) store))"
  by (simp_all add: MatchingDependency_def MatchingBlueprint_def MatchingBlueprintVersion_def)

theorem ready_component_queues_dependents_witness:
  "set (componentHandler slash_key (list_cache [sample_c1, sample_c2]) (UpdateEvent sample_c1 sample_c1) []) = set [] \<union>
    request_of ` {c \<in> set [sample_c1, sample_c2]. \<exists>d \<in> set (spDependencies (coSpec c)). resolves_to c d (coNamespace sample_c1) (coName sample_c1)}"
  by (rule ready_component_queues_dependents [OF list_cache_serves]) (simp_all add: list_cache_one)

theorem blueprint_queues_outdated_users_witness:
  "set (blueprintHandler slash_key (list_cache [sample_c1, sample_c2]) (CreateEvent sample_app) []) = set [] \<union>
    request_of ` {c \<in> set [sample_c1, sample_c2]. (\<exists>r. srBlueprint (coSourceRef c) = Some r \<and> resolves_to c r (bpNamespace sample_app) (bpName sample_app)) \<and>
      \<not> up_to_date c (GetDigest sample_app) (GetRevision sample_app)}"
  by (rule blueprint_queues_outdated_users [OF list_cache_serves, where old = sample_app]) simp_all

lemma list_cache_git:
  "list_cache store [MatchingFluxSource key (ready_git a)] =
     Inr (filter (index_matches (pure_index indexCompoonentByGitRepository) (key ''ns'' ''repo'')) store)"
  by (simp add: MatchingFluxSource_def ready_git_def git_source_def sample_meta_def)

theorem flux_queues_outdated_users_witness:
  "set (fluxSourceHandler slash_key (list_cache [sample_c1, git_c1]) (UpdateEvent (ready_git []) (ready_git [])) []) = set [] \<union>
    request_of ` {c \<in> set [sample_c1, git_c1]. (\<exists>r \<in> set (opt_list (flux_ref (fsKind (ready_git [])) c)).
        resolves_to c r (omNamespace (fsMeta (ready_git []))) (omName (fsMeta (ready_git [])))) \<and>
      \<not> up_to_date c ''d'' ''r''}"
  using flux_queues_outdated_users [OF list_cache_serves [of "[sample_c1, git_c1]"], of "ready_git []"
      "\<lparr>faURL = ''http://f'', faDigest = ''d'', faRevision = ''r''\<rparr>", OF _ _ _ _ _ _ list_cache_git]
  by (simp add: ready_git_def git_source_def sample_meta_def FluxSource_IsReady_def ConditionTrue_def)

section \<open>Hooks\<close>

definition reconciling :: Component where
  "reconciling = sample_c2\<lparr>coSpec := (coSpec sample_c2)\<lparr>spSourceRef := loaded_ref\<rparr>\<rparr>"

lemma reconciling_facts [simp]:
  "srLoaded (coSourceRef reconciling)" "coNamespace reconciling = ''ns''"
  "spDependencies (coSpec reconciling) = [\<lparr>nnNamespace = [], nnName = ''c1''\<rparr>]"
  by (simp_all add: reconciling_def loaded_ref_def sample_c2_def sample_meta_def)

theorem PreReconcile_spec_witness:
  "fst (makeFuncPreReconcile (\<lambda>n. Inr sample_c1) reconciling) =
      reconciling\<lparr>coStatus := (coStatus reconciling)\<lparr>csLastAttemptedDigest := artDigest (srArtifact (coSourceRef reconciling)),
        csLastAttemptedRevision := artRevision (srArtifact (coSourceRef reconciling))\<rparr>\<rparr> \<and>
    (snd (makeFuncPreReconcile (\<lambda>n. Inr sample_c1) reconciling) = Inr () \<longleftrightarrow>
      (\<forall>d \<in> set (spDependencies (coSpec reconciling)).
         dependency_done (\<lambda>n. Inr sample_c1) reconciling (srArtifact (coSourceRef reconciling)) d))"
  by (rule PreReconcile_spec) simp_all

lemma reconciling_missing:
  "makeFuncPreReconcile (\<lambda>n. Inl (NotFound [])) reconciling =
     (set_attempted reconciling (srArtifact (coSourceRef reconciling)),
      Inl (Err (Retriable (Wrap (NotFound []) (dependent_message \<lparr>nnNamespace = [], nnName = ''c1''\<rparr> '' not found'')) None)))"
  by (simp add: makeFuncPreReconcile_def SourceReference_Artifact_def Let_def check_dependency_def)

theorem PreReconcile_first_unmet_witness:
  "\<exists>ds1 d ds2. spDependencies (coSpec reconciling) = ds1 @ d # ds2 \<and>
    (\<forall>d1 \<in> set ds1. dependency_met (\<lambda>n. Inl (NotFound [])) (set_attempted reconciling (srArtifact (coSourceRef reconciling))) d1) \<and>
    \<not> dependency_met (\<lambda>n. Inl (NotFound [])) (set_attempted reconciling (srArtifact (coSourceRef reconciling))) d \<and>
    ((\<exists>e. Err (Retriable (Wrap (NotFound []) (dependent_message \<lparr>nnNamespace = [], nnName = ''c1''\<rparr> '' not found'')) None) =
        Err (Retriable e None)) \<or>
     (\<exists>e. Err (Retriable (Wrap (NotFound []) (dependent_message \<lparr>nnNamespace = [], nnName = ''c1''\<rparr> '' not found'')) None) = Err e \<and>
        (\<lambda>n. Inl (NotFound [])) (WithDefaultNamespace d (coNamespace reconciling)) = (Inl e :: error + Component) \<and> \<not> IsNotFound e))"
  by (rule PreReconcile_first_unmet [OF reconciling_facts(1) reconciling_missing])

theorem PreDelete_spec_witness:
  "if \<exists>c' \<in> set [sample_c1, sample_c2]. \<exists>d \<in> set (spDependencies (coSpec c')). resolves_to c' d (coNamespace sample_c1) (coName sample_c1)
    then \<exists>e. makeFuncPreDelete slash_key (list_cache [sample_c1, sample_c2]) sample_c1 = Inl (Err (Retriable e None))
    else makeFuncPreDelete slash_key (list_cache [sample_c1, sample_c2]) sample_c1 = Inr ()"
  by (rule PreDelete_spec [OF list_cache_serves]) simp_all

text \<open>A dependency in another namespace whose source is written alike.\<close>

definition far_source :: SourceReference where
  "far_source = no_source\<lparr>srFluxGitRepository := Some \<lparr>nnNamespace = [], nnName = ''repo''\<rparr>\<rparr>"

definition far_c1 :: Component where
  "far_c1 = \<lparr>coMeta = sample_meta ''far'' ''c1'', coSpec = spec_of far_source,
     coStatus = new_status\<lparr>csLastAttemptedDigest := ''other''\<rparr>\<rparr>"

definition near_c2 :: Component where
  "near_c2 = \<lparr>coMeta = sample_meta ''ns'' ''c2'',
     coSpec = (spec_of (far_source\<lparr>srArtifact := git_artifact, srLoaded := True\<rparr>))\<lparr>
       spDependencies := [\<lparr>nnNamespace = ''far'', nnName = ''c1''\<rparr>]\<rparr>,
     coStatus = new_status\<rparr>"

theorem PreReconcile_compares_unresolved_references_witness:
  "WithDefaultNamespace \<lparr>nnNamespace = [], nnName = ''repo''\<rparr> (coNamespace far_c1) \<noteq>
      WithDefaultNamespace \<lparr>nnNamespace = [], nnName = ''repo''\<rparr> (coNamespace near_c2) \<and>
    flux_ref GitRepository far_c1 = Some \<lparr>nnNamespace = [], nnName = ''repo''\<rparr> \<and>
    snd (makeFuncPreReconcile (\<lambda>n. Inr far_c1) near_c2) =
      Inl (Err (Retriable (Errorf (dependent_message \<lparr>nnNamespace = ''far'', nnName = ''c1''\<rparr> '' not synced'')) None))"
  by (rule PreReconcile_compares_unresolved_references [where ds = "[]"])
    (simp_all add: near_c2_def far_c1_def far_source_def sample_components git_artifact_def flux_ref_def
      Component_IsReady_def Equals_iff)

section \<open>The blueprint controller\<close>

definition bp_env :: "Component list \<Rightarrow> Blueprint \<Rightarrow> BlueprintVersion list blueprint_env" where
  "bp_env store b = \<lparr>beClient = list_client\<lparr>clGetBlueprint := (\<lambda>s n. Inr b)\<rparr>,
     beKey = slash_key, beCache = list_cache store, beAddFinalizer = (\<lambda>b f. (b, False)),
     beRemoveFinalizer = (\<lambda>b f. (b, True))\<rparr>"

lemma bp_env_simps [simp]:
  "clGetBlueprint (beClient (bp_env store b)) s n = Inr b"
  "clListVersions (beClient (bp_env store b)) s ns n' = Inr (filter (\<lambda>v. slash \<notin> set (bvNamespace v)) s)"
  "clUpdateBlueprint (beClient (bp_env store b)) s b' = (s, Inr b')"
  "clDeleteVersion (beClient (bp_env store b)) s v = (remove1 v s, None)"
  "beAddFinalizer (bp_env store b) b' f = (b', False)" "beRemoveFinalizer (bp_env store b) b' f = (b', True)"
  "beKey (bp_env store b) = slash_key" "beCache (bp_env store b) = list_cache store"
  by (simp_all add: bp_env_def)

lemma bp_env_serves: "\<forall>c \<in> set store. k8s_names c \<Longrightarrow> serves_env (set store) (bp_env store b)"
  using list_cache_serves by (simp add: serves_env_def)

definition old_version :: BlueprintVersion where
  "old_version = (make_version sample_app)\<lparr>bvMeta := sample_meta ''ns'' ''old''\<rparr>"

lemma app_version_in_use: "version_in_use (set [loaded_c1]) (make_version sample_app)"
proof -
  have "version_refs loaded_c1 = [\<lparr>nnNamespace = [], nnName = blueprint_version_name ''app'' (GetDigest sample_app)\<rparr>]"
    by (simp add: version_refs_def loaded_c1_def set_status_source_def app_status_def blueprint_artifact_def
        blueprint_version_name_def GetDigest_def app_ref_def)
  then show ?thesis
    by (simp add: version_in_use_def resolves_to_def make_version_def loaded_c1_def set_status_source_def
        WithDefaultNamespace_def)
qed

lemma old_version_facts [simp]: "bvNamespace old_version = ''ns''" "IsZero (omDeletionTimestamp (bvMeta old_version))"
  by (simp_all add: old_version_def sample_meta_def IsZero_def)

lemma app_living [simp]: "\<not> bp_deleting sample_app"
  by (simp add: bp_deleting_def sample_app_def sample_meta_def IsZero_def)

lemma reconcile_old:
  "Reconcile (bp_env [] sample_app) [old_version] n = ([], [], Inr (1 * second))"
  by (simp add: Reconcile_def ensure_finalizer_def collect_versions.simps)

theorem Reconcile_requeues_witness:
  "([], 1 * second) = requeue_decision (set []) sample_app [old_version]"
  by (rule Reconcile_requeues [where env = "bp_env [] sample_app" and ?s1.0 = "[old_version]" and ?b0.0 = sample_app,
        OF bp_env_serves _ _ _ _ reconcile_old])
    (simp_all add: ensure_finalizer_def plain_versions_def)

definition dying_app :: Blueprint where
  "dying_app = sample_app\<lparr>bpMeta := (sample_meta ''ns'' ''app'')\<lparr>omDeletionTimestamp := Some 5\<rparr>\<rparr>"

lemma dying_app_facts [simp]: "bp_deleting dying_app" "bpNamespace dying_app = ''ns''" "bpName dying_app = ''app''"
  by (simp_all add: dying_app_def bp_deleting_def IsZero_def sample_meta_def)

text \<open>An API server with one blueprint, which removes what it deletes.\<close>

definition version_client :: "Blueprint \<Rightarrow> BlueprintVersion list client" where
  "version_client b = list_client\<lparr>clGetBlueprint := (\<lambda>s n. Inr b),
     clListVersions := (\<lambda>s ns name. Inr (filter (\<lambda>v. clGetVersion list_client s (version_key v) = Inr v \<and>
        bvNamespace v = ns \<and> bvsBlueprint (bvSpec v) = name) s)),
     clDeleteVersion := (\<lambda>s v. (filter (\<lambda>w. version_key w \<noteq> version_key v) s, None))\<rparr>"

definition version_env :: "Component list \<Rightarrow> Blueprint \<Rightarrow> BlueprintVersion list blueprint_env" where
  "version_env store b = (bp_env store b)\<lparr>beClient := version_client b\<rparr>"

lemma version_env_simps [simp]:
  "beClient (version_env store b) = version_client b"
  "beAddFinalizer (version_env store b) b' f = (b', False)" "beRemoveFinalizer (version_env store b) b' f = (b', True)"
  "beKey (version_env store b) = slash_key" "beCache (version_env store b) = list_cache store"
  "clGetBlueprint (version_client b) s n = Inr b" "clUpdateBlueprint (version_client b) s b' = (s, Inr b')"
  "clGetVersion (version_client b) = clGetVersion list_client"
  "clDeleteVersion (version_client b) s v = (filter (\<lambda>w. version_key w \<noteq> version_key v) s, None)"
  "clListVersions (version_client b) s ns name = Inr (filter (\<lambda>v. clGetVersion list_client s (version_key v) = Inr v \<and>
     bvNamespace v = ns \<and> bvsBlueprint (bvSpec v) = name) s)"
  by (simp_all add: version_env_def version_client_def)

lemma list_client_get: "clGetVersion list_client s n = (case List.find (\<lambda>v. version_key v = n) s of None \<Rightarrow> Inl (NotFound []) | Some v \<Rightarrow> Inr v)"
  by (simp add: list_client_def)

lemma version_client_deletes: "deletes_versions (version_client b)"
proof -
  have found: "clGetVersion list_client s n = Inr v \<Longrightarrow> v \<in> set s \<and> version_key v = n" for s n v
    by (auto simp: list_client_get find_Some_iff split: option.splits)
  have kept: "clGetVersion list_client (filter (\<lambda>w. version_key w \<noteq> k) s) n = clGetVersion list_client s n" if "n \<noteq> k" for s n k
    using that by (induction s) (auto simp: list_client_get)
  have gone: "clGetVersion list_client (filter (\<lambda>w. version_key w \<noteq> k) s) k \<noteq> Inr v" for s k v
    using found by force
  show ?thesis unfolding deletes_versions_def live_version_def using found kept gone by auto
qed

lemma version_env_serves: "\<forall>c \<in> set store. k8s_names c \<Longrightarrow> serves_env (set store) (version_env store b)"
  using bp_env_serves [of store b] by (simp add: serves_env_def)

lemma old_version_key: "version_key old_version = \<lparr>nnNamespace = ''ns'', nnName = ''old''\<rparr>" "bvsBlueprint (bvSpec old_version) = ''app''"
  "omFinalizers (bvMeta old_version) = []"
  by (simp_all add: version_key_def old_version_def make_version_def sample_meta_def)

lemma app_version_key: "version_key (make_version sample_app) = \<lparr>nnNamespace = ''ns'', nnName = blueprint_version_name ''app'' (GetDigest sample_app)\<rparr>"
  by (simp add: version_key_def make_version_def)

lemma two_versions:
  "version_key (make_version sample_app) \<noteq> version_key old_version" "version_key old_version \<noteq> version_key (make_version sample_app)"
  "bvNamespace (make_version sample_app) = ''ns''" "bvsBlueprint (bvSpec (make_version sample_app)) = ''app''"
  "bvsBlueprint (bvSpec old_version) = ''app''"
  unfolding app_version_key by (simp_all add: old_version_key blueprint_version_name_def) (simp_all add: make_version_def)

lemma old_version_unused: "\<not> version_in_use (set [loaded_c1]) old_version"
  by (simp add: version_in_use_def version_refs_def loaded_c1_def set_status_source_def app_status_def blueprint_artifact_def
      blueprint_version_name_def app_ref_def resolves_to_def WithDefaultNamespace_def old_version_def sample_meta_def)

lemma reconcile_dying:
  "Reconcile (version_env [] dying_app) [old_version] app_ref = ([], [], Inr (1 * second))"
  "Reconcile (version_env [] dying_app) [] app_ref = ([], [], Inr 0)"
  by (simp_all add: Reconcile_def ensure_finalizer_def finish_blueprint_def collect_versions.simps list_client_get
      old_version_key)

theorem Reconcile_lets_go_witness:
  "(\<forall>w. clGetVersion list_client [] (version_key old_version) \<noteq> Inr w) \<and>
    (\<exists>b''. clUpdateBlueprint (version_client dying_app) [] dying_app = ([], Inr b''))"
  using Reconcile_lets_go [OF _ version_env_serves _ _ _ _ _ _ reconcile_dying(1) _ reconcile_dying(2),
      of dying_app "[old_version]" dying_app] version_client_deletes [of dying_app]
  by (simp add: list_client_get old_version_key version_in_use_def)

text \<open>The version of the living blueprint that \<open>loaded_c1\<close> uses stays, the old one goes.\<close>

lemma reconcile_two:
  "Reconcile (version_env [loaded_c1] sample_app) [old_version, make_version sample_app] app_ref =
    ([make_version sample_app], [], Inr (1 * second))"
proof -
  let ?env = "version_env [loaded_c1] sample_app"
  have serves: "serves_env (set [loaded_c1]) ?env" by (rule version_env_serves) simp
  obtain items items' where items: "beCache ?env [MatchingBlueprintVersion (beKey ?env) old_version, Limit 1] = Inr items"
    "beCache ?env [MatchingBlueprintVersion (beKey ?env) (make_version sample_app), Limit 1] = Inr items'"
    by simp
  have "items = []" "items' \<noteq> []"
    using version_query [OF serves _ items(1)] version_query [OF serves _ items(2)] old_version_unused app_version_in_use
    by (simp_all add: make_version_def)
  then have "collect_versions ?env [old_version, make_version sample_app] [old_version, make_version sample_app] 0 =
      ([make_version sample_app], Inr 1)"
    using items two_versions(1,2) by (subst collect_unused [where s' = "[make_version sample_app]"])
      (simp_all add: collect_used [OF items(2)])
  then show ?thesis using two_versions by (simp add: Reconcile_def ensure_finalizer_def list_client_get)
qed

theorem Reconcile_collects_unused_witness:
  "clGetVersion list_client [make_version sample_app] (version_key (make_version sample_app)) = Inr (make_version sample_app) \<and>
    \<not> live_version (version_client sample_app) [make_version sample_app] (version_key old_version) \<and>
    clGetVersion list_client [make_version sample_app] \<lparr>nnNamespace = ''ns'', nnName = ''x''\<rparr> =
      clGetVersion list_client [old_version, make_version sample_app] \<lparr>nnNamespace = ''ns'', nnName = ''x''\<rparr>"
proof -
  let ?vs = "[old_version, make_version sample_app]" and ?env = "version_env [loaded_c1] sample_app"
  have listed: "clListVersions (beClient ?env) ?vs (bpNamespace sample_app) (bpName sample_app) = Inr ?vs"
    using two_versions by (simp add: list_client_get)
  have "(\<forall>v \<in> set ?vs. if version_in_use (set [loaded_c1]) v
      then clGetVersion (beClient ?env) [make_version sample_app] (version_key v) = Inr v
      else \<not> live_version (beClient ?env) [make_version sample_app] (version_key v) \<and> IsZero (omDeletionTimestamp (bvMeta v))) \<and>
    (\<forall>n. n \<notin> version_key ` set ?vs \<longrightarrow>
      clGetVersion (beClient ?env) [make_version sample_app] n = clGetVersion (beClient ?env) ?vs n)"
    by (rule Reconcile_collects_unused [where ?b0.0 = sample_app, OF _ version_env_serves _ _ _ listed reconcile_two])
      (simp_all add: version_client_deletes ensure_finalizer_def)
  moreover have "\<lparr>nnNamespace = ''ns'', nnName = ''x''\<rparr> \<notin> version_key ` set ?vs"
    by (simp add: old_version_key app_version_key blueprint_version_name_def)
  ultimately show ?thesis
    using app_version_in_use old_version_unused by (metis list.set_intros version_env_simps(1,8))
qed

section \<open>The two controllers together\<close>

lemma list_client_exists: "version_exists list_client s n \<longleftrightarrow> (\<exists>v \<in> set s. version_key v = n)"
  by (auto simp: version_exists_def list_client_def find_None_iff find_Some_iff split: option.splits)

lemma list_client_keeps: "keeps_versions list_client"
proof -
  have r: "version_exists list_client (remove1 v s) n" if "n \<noteq> version_key v" "version_exists list_client s n" for v s n
    using that by (metis in_set_remove1 list_client_exists)
  have p: "plain_versions (filter (\<lambda>v. slash \<notin> set (bvNamespace v)) s)" for s
    by (simp add: plain_versions_def)
  show ?thesis unfolding keeps_versions_def using r p by (auto simp: list_client_exists)
qed

lemma honest_list_client: "honest_get list_client"
  by (simp add: honest_get_def)


section \<open>Components and their sources\<close>

definition sticky_state :: "BlueprintVersion list work_state" where
  "sticky_state = \<lparr>wkCluster = [], wkStore = [sticky_c1], wkEvents = [], wkQueue = [request_of sticky_c1], wkActive = []\<rparr>"

definition changed_app :: Blueprint where
  "changed_app = sample_app\<lparr>bpMeta := (bpMeta sample_app)\<lparr>omGeneration := 2\<rparr>\<rparr>"

theorem sticky_component_left_behind_witness:
  "\<exists>st' c'. work_run list_client demo_server sticky_state st' \<and> wkEvents st' = [] \<and> wkActive st' = [] \<and>
    wkQueue st' = [] \<and> c' \<in> set (wkStore st') \<and> request_of c' = request_of sticky_c1 \<and>
    Component_IsReady c' \<and> \<not> up_to_date c' (GetDigest changed_app) (GetRevision changed_app)"
proof -
  have "coSourceRef sticky_c1 = app_source" by (simp add: sticky_c1_def spec_of_def)
  moreover have "keep_source sticky_c1 = Inr (Some app_status)"
    by (simp add: keep_source_def isComponentProcessing_def sticky_c1_def loaded_c1_def set_status_source_def
        time_Sub_def processing_timeout_def spec_of_def)
  moreover have "GetRevision sample_app \<noteq> GetRevision changed_app"
    by (simp add: GetRevision_def changed_app_def sample_app_def sample_meta_def)
  ultimately show ?thesis
    using sticky_component_left_behind [of sticky_c1 sticky_state app_status changed_app list_client demo_server]
    by (simp add: sticky_state_def busy_def take_request_def app_status_def blueprint_artifact_def
        sticky_c1_def loaded_c1_def set_status_source_def spec_of_def is_deleting_def IsZero_def sample_c1_def sample_meta_def
        app_source_def no_source_def)
qed

definition settled_git :: Component where
  "settled_git = git_c1\<lparr>coStatus := new_status\<lparr>csLastAttemptedDigest := ''d'', csLastAttemptedRevision := ''r''\<rparr>\<rparr>"

definition later_client :: "unit client" where
  "later_client = git_client\<lparr>clGetFlux := (\<lambda>s k n. Inr ((ready_git [])\<lparr>fsArtifact :=
     Some \<lparr>faURL = ''http://f'', faDigest = ''d2'', faRevision = ''r2''\<rparr>\<rparr>))\<rparr>"

lemma load_settled_git:
  "\<exists>r' c1. Load later_client demo_server () (coSourceRef settled_git) settled_git = Some ((), Inr (r', c1)) \<and>
    artDigest (srArtifact r') = ''d2'' \<and> artRevision (srArtifact r') = ''r2'' \<and> spDependencies (coSpec c1) = []"
  by (simp add: settled_git_def git_c1_def later_client_def ready_git_def git_source_def sample_components Load_def
      IsZero_def keep_source_def load_source_def has_flux_def load_flux_def flux_reference_def flux_artifact_def
      FluxSource_IsReady_def ConditionTrue_def Let_def set_status_source_def)

lemma settled_git_simps [simp]:
  "k8s_names settled_git" "\<not> is_deleting settled_git" "up_to_date settled_git ''d'' ''r''"
proof -
  show "k8s_names settled_git" using k8s_samples(4) by (simp add: settled_git_def k8s_names_def k8s_component_def)
qed (simp_all add: settled_git_def git_c1_def is_deleting_def IsZero_def sample_components up_to_date_def Component_IsReady_def)

theorem rollback_is_missed_witness:
  "\<exists>r' c1 p. Load later_client demo_server () (coSourceRef settled_git) settled_git = Some ((), Inr (r', c1)) \<and>
    makeFuncPreReconcile (\<lambda>n. Inl (NotFound [])) (c1\<lparr>coSpec := (coSpec c1)\<lparr>spSourceRef := r'\<rparr>\<rparr>) = (p, Inr ()) \<and>
    (request_of settled_git \<in> set (fluxSourceHandler slash_key (list_cache [settled_git])
      (UpdateEvent (ready_git []) (ready_git [])) []) \<longleftrightarrow> request_of settled_git \<in> set []) \<and>
    up_to_date (settled_git\<lparr>coStatus := coStatus (makeFuncPostReconcile (with_status (csStatus new_status) p))\<rparr>) ''d2'' ''r2'' \<and>
    \<not> up_to_date (settled_git\<lparr>coStatus := coStatus (makeFuncPostReconcile (with_status (csStatus new_status) p))\<rparr>) ''d'' ''r''"
proof -
  obtain r' c1 where l: "Load later_client demo_server () (coSourceRef settled_git) settled_git = Some ((), Inr (r', c1))"
    "artDigest (srArtifact r') = ''d2''" "artRevision (srArtifact r') = ''r2''" "spDependencies (coSpec c1) = []"
    using load_settled_git by blast
  from Load_records(1) [OF l(1)] l(4) obtain p where
    p: "makeFuncPreReconcile (\<lambda>n. Inl (NotFound [])) (c1\<lparr>coSpec := (coSpec c1)\<lparr>spSourceRef := r'\<rparr>\<rparr>) = (p, Inr ())"
    by (simp add: makeFuncPreReconcile_def SourceReference_Artifact_def Let_def set_attempted_def)
  have "fsArtifact (ready_git []) = Some \<lparr>faURL = ''http://f'', faDigest = ''d'', faRevision = ''r''\<rparr>"
    "slash \<notin> set (omNamespace (fsMeta (ready_git [])))"
    by (simp_all add: ready_git_def git_source_def sample_meta_def)
  moreover have rs: "rsReady (csStatus new_status)" "rsObservedGeneration (csStatus new_status) = omGeneration (coMeta settled_git)"
    by (simp_all add: new_status_def settled_git_def git_c1_def sample_c1_def sample_meta_def)
  ultimately have "(request_of settled_git \<in> set (fluxSourceHandler slash_key (list_cache [settled_git])
      (UpdateEvent (ready_git []) (ready_git [])) []) \<longleftrightarrow> request_of settled_git \<in> set []) \<and>
    up_to_date (settled_git\<lparr>coStatus := coStatus (makeFuncPostReconcile (with_status (csStatus new_status) p))\<rparr>)
      (artDigest (srArtifact r')) (artRevision (srArtifact r')) \<and>
    \<not> up_to_date (settled_git\<lparr>coStatus := coStatus (makeFuncPostReconcile (with_status (csStatus new_status) p))\<rparr>) ''d'' ''r''"
    using rollback_is_missed [OF list_cache_serves _ list_cache_git _ _ _ _ l(1) _ p _ rs refl, of "[settled_git]"] l(2)
    by force
  with l p show ?thesis by auto
qed

section \<open>The checker\<close>

definition http_c1 :: "string \<Rightarrow> Component" where
  "http_c1 revision = sample_c1\<lparr>coSpec := spec_of (no_source\<lparr>srHttpRepository :=
       Some \<lparr>hrUrl = ''http://a'', hrDigestHeader = [], hrRevisionHeader = ''x-rev''\<rparr>\<rparr>),
     coStatus := new_status\<lparr>csLastAttemptedDigest := ''d1'', csLastAttemptedRevision := revision\<rparr>\<rparr>"

definition check_env :: "http_env \<Rightarrow> checker_env" where
  "check_env http = \<lparr>ckCache = (\<lambda>n. list_cache [http_c1 ''r0'', http_c1 ''r1'']), ckHttp = (\<lambda>n. http)\<rparr>"

lemma check_env_lists:
  "ckCache (check_env http) n [HasHttpRepository] = Inr [http_c1 ''r0'', http_c1 ''r1'']"
  by (simp add: check_env_def HasHttpRepository_def index_matches_def indexBySourceType_def http_c1_def
      sample_components Let_def)

lemma check_env_offers:
  "offered (check_env demo_server) n (http_c1 revision) = Some (Inr (''http://b'', ''d1'', ''r1''))"
  using demo_server_run by (simp add: offered_def fetch_def check_env_def http_c1_def spec_of_def no_source_def)

theorem tick_triggers_outdated_witness:
  "\<exists>s'. checker_tick (check_env demo_server) checker_init = Waiting s' \<and>
    ckTriggered s' = ckTriggered checker_init @ map (\<lambda>(c, k). Component_NamespacedName c)
      (filter (\<lambda>(c, k). outdated c (offered (check_env demo_server) k c))
        (numbered (ckCalls checker_init) [http_c1 ''r0'', http_c1 ''r1'']))"
  by (rule tick_triggers_outdated [OF check_env_lists]) (simp add: check_env_offers)

theorem Start_never_crashes_witness:
  "Start (check_env demo_server) [Tick, CtxDone] checker_init \<noteq> Crashed [] checker_init"
  by (rule Start_never_crashes [where store = "\<lambda>n. set [http_c1 ''r0'', http_c1 ''r1'']"])
    (simp add: check_env_def list_cache_indexed del: list.set)

text \<open>A server that answers every request itself.\<close>

definition direct_server :: http_env where
  "direct_server = \<lparr>heParse = Inr, heResolve = (\<lambda>base loc. Inr loc),
     heRoundTrip = (\<lambda>n url. Inr \<lparr>hrpStatusCode = 200, hrpHeader = [(''Etag'', [''d1'']), (''X-Rev'', [''r1''])]\<rparr>)\<rparr>"

lemma direct_server_answers: "GetArtifact direct_server url dh rh \<noteq> None"
proof -
  have "head_loop direct_server d 0 url \<noteq> None" for d
    by (subst head_loop.simps) (simp add: direct_server_def redirect_codes_def)
  then show ?thesis
    by (auto simp: GetArtifact_def client_Head_def Let_def direct_server_def split: option.splits sum.splits)
qed

theorem Start_ends_with_context_witness:
  "(\<exists>s'. Start (check_env direct_server) [Tick, CtxDone, Tick] checker_init = Returned s') \<longleftrightarrow> CtxDone \<in> set [Tick, CtxDone, Tick]"
proof (rule Start_ends_with_context [where store = "\<lambda>n. set [http_c1 ''r0'', http_c1 ''r1'']"])
  show "indexed_cache (set [http_c1 ''r0'', http_c1 ''r1'']) (ckCache (check_env direct_server) n)" for n
    by (simp add: check_env_def list_cache_indexed del: list.set)
  show "fetch (check_env direct_server) n h \<noteq> None" for n h
    using direct_server_answers by (simp add: fetch_def check_env_def)
qed

theorem Start_hangs_on_endless_redirects_witness:
  "\<exists>s'. \<forall>rest. Start (check_env loop_server) (Tick # rest) checker_init = Hanging s'"
proof (rule Start_hangs_on_endless_redirects [OF _ check_env_lists, where u = "\<lambda>n m. ''http://a''"])
  show "indexed_cache (set [http_c1 ''r0'', http_c1 ''r1'']) (ckCache (check_env loop_server) (ckTicks checker_init))"
    unfolding check_env_def by (simp only: checker_env.simps list_cache_indexed)
  show "srHttpRepository (coSourceRef (http_c1 ''r0'')) =
      Some \<lparr>hrUrl = ''http://a'', hrDigestHeader = [], hrRevisionHeader = ''x-rev''\<rparr>"
    by (simp add: http_c1_def spec_of_def no_source_def)
qed (simp_all add: check_env_def loop_server_def follows_def Header_Get_def redirect_codes_def default_digestHeader_def)

section \<open>File systems\<close>

definition sample_disk :: "tree \<Rightarrow> file_sys" where
  "sample_disk m = \<lparr>fsEntries = m, fsFault = (\<lambda>op p. None), fsTempName = (\<lambda>p m. CHR ''/'' # p)\<rparr>"

definition disk_t :: file_sys where "disk_t = sample_disk [([''t''], DirEntry)]"

lemma wf_disk [simp]: "wf_fs (sample_disk [])" "wf_fs disk_t"
  by (auto simp: wf_fs_def disk_t_def sample_disk_def fs_get_def)

lemma resolve_t [simp]: "resolve ''/t'' = [''t'']"
  by (simp add: resolve_def clean_stack_def clean_step_def)

lemma target_t [simp]: "target_dir disk_t ''/t''"
  by (simp add: target_dir_def IsAbs_def) (simp add: disk_t_def sample_disk_def fs_get_def)

text \<open>A key import that writes one file into the key ring.\<close>

definition key_import :: "unit import_lib" where
  "key_import = \<lparr>ilGnuPGImport = (\<lambda>fs home content. if resolve home = [] then (fs, None)
       else (fst (write_at fs (resolve home @ [''key'']) content), None)),
     ilAgeImport = (\<lambda>ids content. Inl (Failure ''malformed age key''))\<rparr>"

lemma key_import_confined [simp]: "import_confined key_import"
  unfolding import_confined_def
proof (intro allI impI)
  fix fs :: file_sys and home content
  assume a: "wf_fs fs" "fs_get fs (resolve home) = Some DirEntry"
  show "works_below (resolve home) fs (fst (ilGnuPGImport key_import fs home content))"
    using write_at_works(1) [OF a, of "[''key'']" content]
    by (cases "write_at fs (resolve home @ [''key'']) content") (auto simp: key_import_def works_below_refl a)
qed

definition no_server :: "unit KeyServiceServer" where
  "no_server = \<lparr>kssEncrypt = (\<lambda>req. Inl (Err (Failure []))), kssDecrypt = (\<lambda>req. Inl (Err (Failure [])))\<rparr>"

definition two_keys :: "(string \<times> string) list" where
  "two_keys = [(''k.asc'', ''secret''), (''k.agekey'', ''bad'')]"

theorem decryptor_leaves_no_keys_witness:
  "fs_get (case snd (NewSopsDecryptor key_import no_server disk_t two_keys) of
      Inl e \<Rightarrow> fst (NewSopsDecryptor key_import no_server disk_t two_keys)
    | Inr d \<Rightarrow> Cleanup d (fst (NewSopsDecryptor key_import no_server disk_t two_keys))) [''gpg-'', ''key''] =
   fs_get disk_t [''gpg-'', ''key'']"
  by (rule decryptor_leaves_no_keys [OF key_import_confined wf_disk(2) prod.collapse [symmetric]])

theorem detect_unique_marker_witness:
  "detectFormatFromMarkerBytes (\<lambda>f. 0) ''a: b'' = unsupportedFormat \<and>
   detectFormatFromMarkerBytes (\<lambda>f. 0) ''mac: ENC['' = Yaml"
proof -
  have "markers ''a: b'' = {}" "markers ''mac: ENC['' = {Yaml}"
    by (simp_all add: markers_filter sopsFormatToMarkerBytes_def HasPrefix_def)
  with detect_unique_marker [of "\<lambda>f. 0" "''a: b''"] detect_unique_marker [of "\<lambda>f. 0" "''mac: ENC[''" Yaml]
  show ?thesis by simp
qed

section \<open>Downloads\<close>

definition d1_version :: BlueprintVersion where
  "d1_version = (make_version sample_app)\<lparr>bvMeta := sample_meta ''ns'' ''app--d1''\<rparr>"

definition d1_download :: "file_sys \<times> error option" where
  "d1_download = downloadBlueprint list_client [d1_version] disk_t (blueprint_url ''ns'' ''app'' ''d1'') ''/t''"

lemma d1_version_found:
  "clGetVersion list_client [d1_version] \<lparr>nnNamespace = ''ns'', nnName = ''app--d1''\<rparr> = Inr d1_version"
  by (simp add: list_client_def version_key_def d1_version_def sample_meta_def)

lemma d1_download_ok: "snd d1_download = None"
proof -
  have "snd (write_files disk_t ''/t'' [(''a.yaml'', ''x'')]) = None" by code_simp
  then show ?thesis
    using d1_version_found match_blueprint_url_url [of "''ns''" "''app''" "''d1''"]
    by (simp add: d1_download_def downloadBlueprint_def d1_version_def make_version_def sample_app_def)
qed

theorem downloadBlueprint_files_witness:
  "same_outside (resolve ''/t'') disk_t (fst d1_download) \<and>
    (\<exists>v. clGetVersion list_client [d1_version] \<lparr>nnNamespace = ''ns'', nnName = blueprint_version_name ''app'' ''d1''\<rparr> = Inr v \<and>
       file_at (fst d1_download) = put_files (resolve ''/t'') (bsFiles (bvsSpec (bvSpec v))) (file_at disk_t))"
  using downloadBlueprint_files [of disk_t "''/t''" "''ns''" "''app''" "''d1''" list_client "[d1_version]"
      "fst d1_download" "snd d1_download"] d1_download_ok
  by (simp add: d1_download_def)

definition tar_items :: "tar_item list" where
  "tar_items = [TarEntry \<lparr>hdName = ''f'', hdTypeflag = TypeReg\<rparr> ''x'' None]"

definition tar_server :: "string \<Rightarrow> error + download" where
  "tar_server url = Inr \<lparr>dlStatusCode = 200, dlStatus = ''200 OK'', dlBody = Inr tar_items\<rparr>"

definition tar_download :: "file_sys \<times> error option" where
  "tar_download = downloadArchive tar_server disk_t ''http://a'' ''/t''"

lemma tar_download_ok: "snd tar_download = None"
  by (simp add: tar_download_def downloadArchive_def tar_server_def tar_items_def extract_entry_def Clean_def
      IsAbs_def clean_stack_def clean_step_def filepath_Dir_def dir_part_def Join_def MkdirAll_def copy_file_def
      write_at_def open_for_write_def resolve_def disk_t_def sample_disk_def fs_get_def fs_put_def Let_def)

theorem downloadArchive_files_witness:
  "same_outside (resolve ''/t'') disk_t (fst tar_download) \<and>
    file_at (fst tar_download) = put_files (resolve ''/t'') (archive_files tar_items) (file_at disk_t)"
  using downloadArchive_files [of disk_t "''/t''" tar_server "''http://a''" _ tar_items "fst tar_download" "snd tar_download"]
    tar_download_ok
  by (simp add: tar_download_def tar_server_def tar_items_def entries_below_def stays_below_def rel_names_def
      clean_stack_def clean_step_def)

theorem archive_escapes_target_witness:
  "\<exists>fs'. extract_entries disk_t (abs_path ([''t''] @ [''work'']))
      [TarEntry \<lparr>hdName = ''../'' @ ''evil'', hdTypeflag = TypeReg\<rparr> ''x'' None] = (fs', None) \<and>
    file_at fs' ([''t''] @ [''evil'']) = Some ''x'' \<and>
    \<not> prefix (resolve (abs_path ([''t''] @ [''work'']))) ([''t''] @ [''evil''])"
  by (rule archive_escapes_target) (simp_all add: plain_elem_def, simp_all add: disk_t_def sample_disk_def fs_get_def)

definition no_sops :: "(unit, unit, unit, unit, unit) sops_lib" where
  "no_sops = \<lparr>slFormatForPath = (\<lambda>p. Yaml), slLoadEncryptedFile = (\<lambda>f b. Inl (Err (Failure []))),
     slGetDataKey = (\<lambda>t s. Inl (Err (Failure []))), slDecryptTree = (\<lambda>k t. Inl (Err (Failure []))),
     slEmitPlainFile = (\<lambda>f b. Inl (Err (Failure []))), slUserError = (\<lambda>e. None)\<rparr>"

definition no_decryptor :: "(unit, unit) SopsDecryptor" where
  "no_decryptor = \<lparr>sdGnuPGHome = [], sdAgeIdentities = [], sdKeyServices = []\<rparr>"

definition chart_disk :: file_sys where
  "chart_disk = sample_disk [([''t''], DirEntry), ([''t'', ''a''], FileEntry ''x'')]"

lemma chart_disk_facts [simp]: "wf_fs chart_disk" "plain_tree chart_disk" "file_at chart_disk [''t'', ''a''] = Some ''x''"
  by (auto simp: wf_fs_def plain_tree_def plain_elem_def chart_disk_def sample_disk_def fs_get_def file_at_def split: if_splits)

lemma chart_decrypt:
  "decryptDirectory chart_disk [''t''] dot (Some (Decrypt no_sops (\<lambda>f. 0) no_decryptor)) = (chart_disk, None)"
proof -
  have unmarked: "Decrypt no_sops (\<lambda>f. 0) no_decryptor ''x'' p = Inr ''x''" for p
    by (rule sops.unmarked) (simp add: has_marker_def sopsFormatToMarkerBytes_def HasPrefix_def)
  have walk: "walk_dir chart_disk [''t''] dot = Inr [dot, ''a'']"
    by (simp add: walk_dir_def ValidPath_def root_Stat_def in_root_def IsAbs_def stays_below_def rel_names_def
        clean_stack_def clean_step_def Stat_at_def chart_disk_def sample_disk_def fs_get_def walk_names_def name_in_root_def)
  show ?thesis
    using unmarked
    by (simp add: decryptDirectory_def walk visit_file_def root_ReadFile_def in_root_def IsAbs_def stays_below_def
        rel_names_def clean_stack_def clean_step_def read_at_def)
      (simp add: chart_disk_def sample_disk_def fs_get_def)
qed

theorem decryptDirectory_keeps_plain_files_witness:
  "dir_at chart_disk = dir_at chart_disk \<and>
    (\<exists>c'. Decrypt no_sops (\<lambda>f. 0) no_decryptor ''x'' (walk_name [''t''] [''t'', ''a'']) = Inr c' \<and>
      file_at chart_disk [''t'', ''a''] = Some c')"
proof -
  have "prefix ([''t''] @ rel_names dot) [''t'', ''a'']" by (simp add: rel_names_def clean_stack_def clean_step_def)
  then show ?thesis
    using decryptDirectory_keeps_plain_files [OF chart_disk_facts(1,2) _ chart_decrypt] chart_disk_facts(3) by blast
qed

theorem write_files_depends_on_order_witness:
  "file_at (fst (write_files disk_t ''/t'' [(''a'', ''x''), (''/a'', ''y'')])) (resolve ''/t'' @ [''a'']) = Some ''y'' \<and>
    file_at (fst (write_files disk_t ''/t'' [(''/a'', ''y''), (''a'', ''x'')])) (resolve ''/t'' @ [''a'']) = Some ''x''"
proof -
  have "snd (write_files disk_t ''/t'' [(''a'', ''x''), (''/a'', ''y'')]) = None"
    "snd (write_files disk_t ''/t'' [(''/a'', ''y''), (''a'', ''x'')]) = None" by code_simp+
  then show ?thesis by (intro write_files_depends_on_order [where fs = disk_t]) (simp_all add: prod_eq_iff)
qed

section \<open>The factory\<close>

type_synonym demo_env = "(BlueprintVersion list, string, unit, unit, unit, unit, unit) factory_env"

definition demo_env :: demo_env where
  "demo_env = \<lparr>feClient = list_client, feHttpGet = tar_server, feHelm = (\<lambda>t p. Inr ''helm''),
     feKustomize = (\<lambda>t p d. Inr ''kustomize''), feSops = no_sops, feImport = key_import,
     feServer = no_server, feRank = (\<lambda>f. 0)\<rparr>"

definition first_call :: "file_sys \<times> string items \<times> (error + string)" where
  "first_call = GetGenerator demo_env [] 0 disk_t new_items ''http://a'' [] ''d'' [] None"

text \<open>The temporary directory of the first call.\<close>

definition work_dir :: string where "work_dir = ''/component-operator-''"

lemma work_dir_made:
  "MkdirTemp disk_t ''component-operator-'' = (fs_put [''component-operator-''] DirEntry disk_t, Inr work_dir)"
  by (simp add: MkdirTemp_def resolve_def clean_stack_def clean_step_def disk_t_def sample_disk_def fs_get_def
      abs_path_def work_dir_def)

lemma first_build:
  "snd (build_generator demo_env [] (fs_put [''component-operator-''] DirEntry disk_t) work_dir ''http://a'' [] [] None) =
     Inr ''kustomize''"
  by code_simp

lemma first_call_ok: "\<exists>fs items. first_call = (fs, items, Inr ''kustomize'')"
proof -
  obtain fs where "build_generator demo_env [] (fs_put [''component-operator-''] DirEntry disk_t) work_dir ''http://a'' [] [] None =
      (fs, Inr ''kustomize'')" using first_build by (metis prod.collapse)
  then show ?thesis
    by (simp add: first_call_def GetGenerator_def Let_def work_dir_made new_items_def)
qed

lemma demo_confined: "import_confined (feImport demo_env)" "source_confined demo_env ''http://a''"
  by (simp_all add: demo_env_def source_confined_def tar_server_def tar_items_def entries_below_def stays_below_def
      rel_names_def clean_stack_def clean_step_def)

theorem GetGenerator_leaves_no_files_witness:
  "fs_get (fst first_call) [''component-operator-'', ''f''] = fs_get disk_t [''component-operator-'', ''f'']"
proof (rule GetGenerator_leaves_no_files [OF demo_confined wf_disk(2)])
  show "GetGenerator demo_env [] 0 disk_t new_items ''http://a'' [] ''d'' [] None =
      (fst first_call, fst (snd first_call), snd (snd first_call))"
    by (simp add: first_call_def)
qed

theorem GetGenerator_cached_witness:
  "\<exists>items3. GetGenerator demo_env [d1_version] 100 (fst first_call) (expire 50 (fst (snd first_call)))
     ''http://a'' [] ''d'' [] None = (fst first_call, items3, Inr ''kustomize'')"
proof (rule GetGenerator_cached [where ins = "[ExpiryTick 50]"])
  show "GetGenerator demo_env [] 0 disk_t new_items ''http://a'' [] ''d'' [] None =
      (fst first_call, fst (snd first_call), Inr ''kustomize'')"
    using first_call_ok by (auto simp: first_call_def)
  show "factory_run (fst first_call, fst (snd first_call)) [ExpiryTick 50]
      (fst first_call, expire 50 (fst (snd first_call)))"
    by (auto intro: run_step step_expiry run_none)
qed (simp add: validity_def)

theorem idle_generator_expires_witness:
  "expire 7 [''i'' \<mapsto> \<lparr>itGenerator = ''g'', itValidUntil = 5\<rparr>] ''i'' = None"
proof (rule idle_generator_expires [where ins = "[ExpiryTick 7 :: (unit, string, unit, unit, unit, unit, unit) factory_input]"
      and fs = disk_t and fs' = disk_t and ident = "''i''" and now = 7
      and item = "\<lparr>itGenerator = ''g'', itValidUntil = 5\<rparr>"
      and items' = "expire 7 [''i'' \<mapsto> \<lparr>itGenerator = ''g'', itValidUntil = 5\<rparr>]"])
  show "factory_run (disk_t, [''i'' \<mapsto> \<lparr>itGenerator = ''g'', itValidUntil = 5\<rparr>]) [ExpiryTick 7 :: (unit, string, unit, unit, unit, unit, unit) factory_input]
      (disk_t, expire 7 [''i'' \<mapsto> \<lparr>itGenerator = ''g'', itValidUntil = 5\<rparr>])"
    by (auto intro: run_step step_expiry run_none)
qed simp_all

theorem generator_id_determines_source_witness:
  "generator_id ''u'' ''p'' ''d'' ''sops'' (Some [(''k'', ''v'')]) = generator_id ''u'' ''p'' ''d'' ''sops'' None \<longleftrightarrow>
    ''u'' = ''u'' \<and> ''p'' = ''p'' \<and> ''d'' = ''d'' \<and> ''sops'' = ''sops'' \<and>
    (same_keys (Some [(''k'', ''v'')]) None \<or>
     sha_collision (digest_text [keys_json (Some [(''k'', ''v'')])]) (digest_text [keys_json None]))"
  by (rule generator_id_determines_source) (simp_all add: keys_ok_def key_entries_def ascii_utf8 between_def)

section \<open>Values\<close>

abbreviation str_val :: "string \<Rightarrow> val" where "str_val s \<equiv> VScalar (SString s)"

theorem deepMerge_entries_witness:
  "\<exists>m'. Some [(''a'', str_val ''1''), (''b'', str_val ''2'')] = Some m' \<and>
    (\<forall>k. map_of m' k = (case (map_of [(''a'', str_val ''0'')] k, map_of [(''a'', str_val ''1''), (''b'', str_val ''2'')] k) of
     (old, None) \<Rightarrow> old
   | (Some (VMap v), Some (VMap w)) \<Rightarrow> (case deepMerge v (entries w) of Inr u \<Rightarrow> Some (VMap u) | Inl _ \<Rightarrow> None)
   | (Some (VMap v), Some w) \<Rightarrow> Some (VMap None)
   | (old, Some w) \<Rightarrow> Some w))"
  by (rule deepMerge_entries) (simp_all add: mergeEntry.simps)

theorem deepMerge_two_layers_witness:
  "\<exists>m'. deepMerge (Some [(''a'', VMap (Some [(''b'', str_val ''0'')]))]) [(''a'', str_val ''1'')] = Inr (Some m')"
  by (rule deepMerge_two_layers) simp_all

definition plain_env :: "(unit, string, unit, unit) generator_env" where
  "plain_env = \<lparr>geReconcilerName = Inr [],
     geYaml = (\<lambda>s. Inr (Some [(''a'', if s = ''map'' then VMap (Some []) else str_val s)])),
     geJson = (\<lambda>s. Inr (Some [(''a'', VMap (Some [(''b'', str_val s)]))])),
     geNewSubstitution = (\<lambda>m f. Inr ()), geNewKustomize = (\<lambda>p i. Inr ()), geTransformable = (\<lambda>g. g),
     geWithTransformer = (\<lambda>t g. g), geAnnotations = (\<lambda>u. []), geGenerate = (\<lambda>g ns n m. Inr []), geFactory = ()\<rparr>"

theorem values_can_panic_witness:
  "merge_values plain_env ((spec_of no_source)\<lparr>
     spValuesFrom := [\<lparr>skName = ''s1'', skValue = ''map''\<rparr>, \<lparr>skName = ''s2'', skValue = ''text''\<rparr>],
     spValues := Some ''inline''\<rparr>) = Inl (Panic nil_map_panic)"
  by (rule values_can_panic [where ?ref1.0 = "\<lparr>skName = ''s1'', skValue = ''map''\<rparr>"
        and ?ref2.0 = "\<lparr>skName = ''s2'', skValue = ''text''\<rparr>" and raw = "''inline''" and w = "str_val ''text''" and k = "''a''" and v = "[]" and j = "''b''"
        and u = "str_val ''inline''" and c = "[]"])
    (simp_all add: plain_env_def)

theorem substitutions_layers_witness:
  "map_of (substitutions \<lparr>pbSubstitute = [(''v'', ''2'')],
       pbSubstituteFrom = [\<lparr>secName = ''s'', secData = [(''v'', ''1''), (''w'', ''3'')]\<rparr>], pbPatches = [], pbImages = []\<rparr>) =
    foldl (++) Map.empty (map (\<lambda>ref. map_of (secData ref)) [\<lparr>secName = ''s'', secData = [(''v'', ''1''), (''w'', ''3'')]\<rparr>]) ++
      map_of [(''v'', ''2'')]"
  using substitutions_layers [of "\<lparr>pbSubstitute = [(''v'', ''2'')],
       pbSubstituteFrom = [\<lparr>secName = ''s'', secData = [(''v'', ''1''), (''w'', ''3'')]\<rparr>], pbPatches = [], pbImages = []\<rparr>"]
  by simp

section \<open>Key service\<close>

text \<open>Keys that hold a text in clear; PGP keys are encrypted for one reader, age keys need an identity.\<close>

definition plain_crypto :: "(string, string \<times> bool, unit) crypto_lib" where
  "plain_crypto = \<lparr>pgNewFromFingerprint = (\<lambda>f. []), pgDisableOpenPGP = (\<lambda>k. k), pgApplyHome = (\<lambda>h k. k),
     pgSetEncryptedKey = (\<lambda>c k. c), pgEncryptedKey = (\<lambda>k. k), pgEncrypt = (\<lambda>p k. Inr p), pgDecrypt = Inr,
     agForRecipient = (\<lambda>r. ([], False)), agApplyIdentities = (\<lambda>ids (c, b). (c, ids \<noteq> [])),
     agSetEncryptedKey = (\<lambda>c (_, b). (c, b)), agEncryptedKey = fst, agEncrypt = (\<lambda>p (_, b). Inr (p, b)),
     agDecrypt = (\<lambda>(c, b). if b then Inr c else Inl (Failure ''no identity''))\<rparr>"

definition age_server :: "(unit, unit) Server" where
  "age_server = NewServer no_server [WithGnuPGHome ''/gpg'', WithAgeIdentities [()]]"

theorem key_service_roundtrip_witness:
  "\<exists>c. Server_Encrypt plain_crypto age_server \<lparr>erKey = Some \<lparr>keyType = Some (Key_AgeKey ''age1'')\<rparr>, erPlaintext = ''p''\<rparr> = Inr c \<and>
    Server_Decrypt plain_crypto age_server \<lparr>drKey = Some \<lparr>keyType = Some (Key_AgeKey ''age1'')\<rparr>, drCiphertext = c\<rparr> = Inr ''p''"
proof (intro exI conjI)
  have ids: "svAgeIdentities age_server = [()]" by (simp add: age_server_def NewServer_def)
  let ?req = "\<lparr>erKey = Some \<lparr>keyType = Some (Key_AgeKey ''age1'')\<rparr>, erPlaintext = ''p''\<rparr> :: unit EncryptRequest"
  show e: "Server_Encrypt plain_crypto age_server ?req = Inr ''p''"
    by (simp add: Server_Encrypt_def encryptWithAge_def plain_crypto_def)
  show "Server_Decrypt plain_crypto age_server \<lparr>drKey = Some \<lparr>keyType = Some (Key_AgeKey ''age1'')\<rparr>, drCiphertext = ''p''\<rparr> = Inr ''p''"
    using key_service_roundtrip [OF _ _ _ _ e, of "\<lparr>keyType = Some (Key_AgeKey ''age1'')\<rparr>" "''age1''"]
    by (auto simp: plain_crypto_def ids)
qed

section \<open>Deep copies\<close>

text \<open>
  A memory with a component that refers to a blueprint and has a dependency, and with a list of one blueprint
  version with one file; the library's values are strings, copied flat.
\<close>

definition component_mem :: "(string, string) Component_mem" where
  "component_mem = \<lparr>moTypeMeta = ''Component'', moObjectMeta = ''c1'',
     moSpec = \<lparr>mcPlacementSpec = [], mcClientSpec = [], mcImpersonationSpec = [], mcSuspensionSpec = [],
       mcRequeueSpec = [], mcRetrySpec = [], mcTimeoutSpec = [], mcPolicySpec = [], mcTypeSpec = [], mcReapplySpec = [],
       mcSourceRef = \<lparr>msBlueprint = Some 0, msHttpRepository = None, msFluxGitRepository = None,
         msFluxOciRepository = None, msFluxBucket = None, msFluxHelmChart = None,
         msArtifact = emptyArtifact, msDigest = [], msLoaded = False\<rparr>,
       mcDigest = [], mcRevision = [], mcSticky = False, mcPath = [], mcValues = None, mcValuesFrom = None,
       mcDecryption = None, mcPostBuild = None, mcDependencies = Some 1\<rparr>,
     moStatus = \<lparr>mtStatus = [], mtSourceRef = None, mtLastAttemptedDigest = [], mtLastAttemptedRevision = [],
       mtLastAppliedDigest = [], mtLastAppliedRevision = []\<rparr>\<rparr>"

definition version_mem :: "(string, string) BlueprintVersion_mem" where
  "version_mem = \<lparr>mvTypeMeta = ''BlueprintVersion'', mvObjectMeta = ''app--d1'',
     mvSpec = \<lparr>mwBlueprint = ''app'', mwDigest = ''d1'', mwRevision = ''r1'', mwBlueprintSpec = \<lparr>mbFiles = Some 3\<rparr>\<rparr>\<rparr>"

definition sample_memory :: "(string, string) memory" where
  "sample_memory = \<lparr>hpNext = 6, hpCells = [0 \<mapsto> NameCell app_ref, 1 \<mapsto> NamesCell [app_ref],
     2 \<mapsto> ComponentCell component_mem, 3 \<mapsto> MapCell [(''a.yaml'', ''x'')], 4 \<mapsto> VersionsCell [version_mem],
     5 \<mapsto> ObjectListCell \<lparr>mlTypeMeta = [], mlListMeta = [], mlItems = Some 4\<rparr>]\<rparr>"

lemma wf_sample_memory: "wf_heap sample_memory"
  by (simp add: wf_heap_def sample_memory_def)

lemma sample_views:
  "component_view view_flat sample_memory (Some 2) \<noteq> None"
  "versions_view view_flat sample_memory (Some 5) \<noteq> None"
  by (simp_all add: component_view_def versions_view_def view_ptr_def sample_memory_def component_mem_def version_mem_def
      Component_view_def Component_fields_def ComponentSpec_view_def ComponentSpec_fields_def SourceReference_view_def
      SourceReference_fields_def ComponentStatus_view_def ComponentStatus_fields_def BlueprintVersionList_view_def
      BlueprintVersionList_fields_def BlueprintVersion_view_def BlueprintVersion_fields_def BlueprintVersionSpec_view_def
      BlueprintVersionSpec_fields_def BlueprintSpec_view_def BlueprintSpec_fields_def view_pair_def view_flat_def view_map_def)

theorem Component_copy_apart_witness:
  "\<exists>v h' q. component_view view_flat sample_memory (Some 2) = Some v \<and>
    Component_DeepCopyObject copy_flat sample_memory (Some 2) = (h', q) \<and>
    component_view view_flat h' q = Some v \<and>
    component_reach reach_flat h' (Some 2) \<inter> component_reach reach_flat h' q = {} \<and>
    (\<forall>h''. (\<forall>a. a \<notin> component_reach reach_flat h' q \<longrightarrow> hpCells h'' a = hpCells h' a) \<longrightarrow>
      component_view view_flat h'' (Some 2) = Some v)"
proof -
  obtain v where v: "component_view view_flat sample_memory (Some 2) = Some v" using sample_views by blast
  obtain h' q where c: "Component_DeepCopyObject copy_flat sample_memory (Some 2) = (h', q)" by (meson surj_pair)
  from Component_copy_apart [OF flat_copier wf_sample_memory v c] v c show ?thesis by blast
qed

theorem versions_copy_apart_witness:
  "\<exists>v h' q. versions_view view_flat sample_memory (Some 5) = Some v \<and>
    BlueprintVersionList_DeepCopyObject copy_flat sample_memory (Some 5) = (h', q) \<and>
    versions_view view_flat h' q = Some v \<and>
    versions_reach reach_flat h' (Some 5) \<inter> versions_reach reach_flat h' q = {} \<and>
    (\<forall>h''. (\<forall>a. a \<notin> versions_reach reach_flat h' q \<longrightarrow> hpCells h'' a = hpCells h' a) \<longrightarrow>
      versions_view view_flat h'' (Some 5) = Some v)"
proof -
  obtain v where v: "versions_view view_flat sample_memory (Some 5) = Some v" using sample_views by blast
  obtain h' q where c: "BlueprintVersionList_DeepCopyObject copy_flat sample_memory (Some 5) = (h', q)" by (meson surj_pair)
  from versions_copy_apart [OF flat_copier wf_sample_memory v c] v c show ?thesis by blast
qed

section \<open>Informers\<close>

definition demo_factory :: "(unit, unit, nat, string, unit) sharedInformerFactory" where
  "demo_factory = NewSharedInformerFactoryWithOptions () 0 [WithNamespace ''ns'']"

definition demanded_factory :: "(unit, unit, nat, string, unit) sharedInformerFactory" where
  "demanded_factory = fst (ForResource (WithResource ''components'') demo_factory)"

lemma demanded_step: "informer_step demo_factory [] demanded_factory"
proof -
  have "demanded_factory = fst (InformerFor ComponentType (Component_defaultInformer (version_Components (V1alpha1 (Core demo_factory)))) demo_factory)"
    by (simp add: demanded_factory_def ForResource_def Component_Informer_def WithResource_def version_Components_def
        V1alpha1_def Core_def group_New_def version_New_def split: prod.split)
  from this [symmetric] show ?thesis
    using informer_step.Demanding [of demo_factory ComponentType "Component_defaultInformer (version_Components (V1alpha1 (Core demo_factory)))"]
    by simp
qed

lemma demo_run:
  "informer_run demo_factory (launched 7 demanded_factory @ launched 8 (StartWithContext 7 demanded_factory))
    (StartWithContext 8 (StartWithContext 7 demanded_factory))"
  using informer_run.Further [OF informer_run.Further [OF informer_run.Further
        [OF informer_run.Here demanded_step] informer_step.Starting] informer_step.Starting]
  by simp

theorem informers_start_once_witness:
  "\<exists>ts f. informer_run demo_factory ts f \<and> ts = launched 7 demanded_factory @ launched 8 (StartWithContext 7 demanded_factory) \<and>
    distinct ts \<and> (\<forall>t. started f t \<longleftrightarrow> t \<in> set ts) \<and> set ts \<subseteq> fst ` set (sfInformers f) \<and>
    distinct (map fst (sfRunning f)) \<and> fst ` set (sfRunning f) \<subseteq> set ts \<and>
    (\<forall>ctx. set (launched ctx f) = (if sfShuttingDown f then {} else fst ` set (sfInformers f) - set ts))"
proof -
  have "\<forall>opt \<in> set [WithNamespace ''ns'']. configures (opt :: (unit, unit, nat, string, unit) SharedInformerOption)" by simp
  from informers_start_once [OF this demo_run [unfolded demo_factory_def]] demo_run show ?thesis by blast
qed

text \<open>The informer of the components runs when the shutdown begins; a later start does not add to it.\<close>

theorem shutdown_is_final_witness:
  "launched 8 (Shutdown_begin (StartWithContext 7 demanded_factory)) = [] \<and>
    sfShuttingDown (StartWithContext 8 (Shutdown_begin (StartWithContext 7 demanded_factory))) \<and>
    set (sfRunning (StartWithContext 8 (Shutdown_begin (StartWithContext 7 demanded_factory)))) \<subseteq>
      set (sfRunning (Shutdown_begin (StartWithContext 7 demanded_factory)))"
  using shutdown_is_final [OF informer_run.Further [OF informer_run.Here informer_step.Starting],
      of "Shutdown_begin (StartWithContext 7 demanded_factory)" 8]
  by (simp add: Shutdown_begin_def)

section \<open>Names of versions\<close>

theorem version_name_valid_witness:
  "length (bvName (make_version sample_app)) = 69 \<and> dns_subdomain (bvName (make_version sample_app))"
proof -
  have "dns_subdomain (bpName sample_app)" by (simp add: sample_app_def sample_meta_def dns_subdomain_def dns_label_def alnum_char_def)
  from version_name_valid [OF this] show ?thesis by (simp add: sample_app_def sample_meta_def)
qed

end
