(* ===== verification/Polling.thy ===== *)
theory Polling
  imports Convergence Checker
begin

text \<open>
  The checker together with the workers. A tick lists the components once and then asks one repository after
  the other, while the workers go on: its steps interleave with those of \<open>Convergence\<close>, each triggered name
  becoming a request. Http repositories send no events, so what follows them is the polling. The set of webs
  says how the http repositories may answer in a stretch of a run: any, or always the same.
\<close>

section \<open>Steps\<close>

text \<open>The components that are listed and not yet checked are part of the state.\<close>

type_synonym 's poll_state = "'s work_state \<times> checker_state \<times> Component list"

definition new_triggers :: "checker_state \<Rightarrow> checker_state \<Rightarrow> request list" where
  "new_triggers ck ck' = drop (length (ckTriggered ck)) (ckTriggered ck')"

definition receive :: "request list \<Rightarrow> 's work_state \<Rightarrow> 's work_state" where
  "receive rs st = st\<lparr>wkQueue := wkQueue st @ rs\<rparr>"

definition count_tick :: "checker_state \<Rightarrow> checker_state" where
  "count_tick ck = ck\<lparr>ckTicks := ckTicks ck + 1\<rparr>"

inductive poll_step :: "'s client \<Rightarrow> http_env set \<Rightarrow> 's poll_state \<Rightarrow> 's poll_state \<Rightarrow> bool" for clnt webs where
  Working: "http \<in> webs \<Longrightarrow> work_step clnt http st st' \<Longrightarrow> poll_step clnt webs (st, ck, cs) (st', ck, cs)"
| Listing: "indexed_cache (set (wkStore st)) (ckCache (env :: checker_env) (ckTicks ck)) \<Longrightarrow>
     ckCache env (ckTicks ck) [HasHttpRepository] = Inr cs \<Longrightarrow>
     poll_step clnt webs (st, ck, []) (st, count_tick ck, cs)"
| ListFailing: "ckCache (env :: checker_env) (ckTicks ck) [HasHttpRepository] = Inl err \<Longrightarrow>
     poll_step clnt webs (st, ck, []) (st, log_error (ListError err) (count_tick ck), [])"
| Checking: "range (ckHttp env) \<subseteq> webs \<Longrightarrow> check_components env [c] ck = Waiting ck' \<Longrightarrow>
     poll_step clnt webs (st, ck, c # cs) (receive (new_triggers ck ck') st, ck', cs)"

inductive poll_run :: "'s client \<Rightarrow> http_env set \<Rightarrow> 's poll_state \<Rightarrow> 's poll_state \<Rightarrow> bool" for clnt webs x where
  Start: "poll_run clnt webs x x"
| More: "poll_run clnt webs x y \<Longrightarrow> poll_step clnt webs y z \<Longrightarrow> poll_run clnt webs x z"

inductive_cases poll_stepE [consumes 1, case_names Working Listing ListFailing Checking]: "poll_step clnt webs x y"

lemma poll_run_trans: "poll_run clnt webs y z \<Longrightarrow> poll_run clnt webs x y \<Longrightarrow> poll_run clnt webs x z"
  by (induction rule: poll_run.induct) (auto intro: poll_run.intros)

lemma work_run_polls: "work_run clnt http st st' \<Longrightarrow> http \<in> webs \<Longrightarrow> poll_run clnt webs (st, ck, cs) (st', ck, cs)"
  by (induction rule: work_run.induct) (auto intro: poll_run.intros poll_step.intros)

section \<open>The steps make up the ticks\<close>

lemma check_components_Cons:
  "check_components env (c # cs) s = (case check_components env [c] s of Waiting s' \<Rightarrow> check_components env cs s' | p \<Rightarrow> p)"
  by (simp split: option.splits)

lemma check_components_triggers:
  "check_components env cs s = Waiting s' \<Longrightarrow> ckTriggered s' = ckTriggered s @ stale_names env (ckCalls s) cs"
proof (induction env cs s rule: check_components.induct)
  case (2 env c cs s)
  then obtain h r where h: "srHttpRepository (coSourceRef c) = Some h" "fetch env (ckCalls s) h = Some r"
    by (auto split: option.splits)
  with 2 have "ckTriggered s' = ckTriggered (check_result c r (s\<lparr>ckCalls := ckCalls s + 1\<rparr>)) @ stale_names env (Suc (ckCalls s)) cs"
    by simp
  with h show ?case by (simp add: stale_names_def offered_def)
qed (simp add: stale_names_def)

lemma new_triggers_checked:
  "check_components env cs s = Waiting s' \<Longrightarrow> new_triggers s s' = stale_names env (ckCalls s) cs"
  using check_components_triggers [of env cs s s'] by (simp add: new_triggers_def)

lemma check_components_split:
  assumes "check_components env (c # cs) s = Waiting s'"
  obtains s1 where "check_components env [c] s = Waiting s1" "check_components env cs s1 = Waiting s'"
    "new_triggers s s' = new_triggers s s1 @ new_triggers s1 s'"
proof -
  from assms obtain s1 where s1: "check_components env [c] s = Waiting s1" "check_components env cs s1 = Waiting s'"
    by (subst (asm) check_components_Cons) (auto split: progress.splits)
  from check_components_triggers [OF s1(1)] check_components_triggers [OF s1(2)]
  have "new_triggers s s' = new_triggers s s1 @ new_triggers s1 s'" by (simp add: new_triggers_def)
  with s1 that show thesis by blast
qed

lemma checks_run:
  assumes "range (ckHttp env) \<subseteq> webs" "check_components env cs ck = Waiting ck'"
  shows "poll_run clnt webs (st, ck, cs) (receive (new_triggers ck ck') st, ck', [])"
  using assms(2)
proof (induction cs arbitrary: st ck)
  case Nil
  then show ?case by (simp add: new_triggers_def receive_def poll_run.Start)
next
  case (Cons c cs)
  from Cons.prems obtain ck1 where ck1: "check_components env [c] ck = Waiting ck1" "check_components env cs ck1 = Waiting ck'"
    "new_triggers ck ck' = new_triggers ck ck1 @ new_triggers ck1 ck'" by (rule check_components_split)
  have "poll_run clnt webs (st, ck, c # cs) (receive (new_triggers ck ck1) st, ck1, cs)"
    by (rule poll_run.More [OF poll_run.Start poll_step.Checking [OF assms(1) ck1(1)]])
  from poll_run_trans [OF Cons.IH [OF ck1(2)] this] show ?case by (simp add: ck1(3) receive_def)
qed

text \<open>A tick of the checker is what its steps do when nobody interferes.\<close>

lemma tick_runs:
  assumes "range (ckHttp env) \<subseteq> webs" "indexed_cache (set (wkStore st)) (ckCache env (ckTicks ck))"
    and "checker_tick env ck = Waiting ck'"
  shows "poll_run clnt webs (st, ck, []) (receive (new_triggers ck ck') st, ck', [])"
proof (cases "ckCache env (ckTicks ck) [HasHttpRepository]")
  case (Inl err)
  with assms(3) have "ck' = log_error (ListError err) (count_tick ck)" by (simp add: checker_tick_def count_tick_def)
  with poll_run.More [OF poll_run.Start poll_step.ListFailing [OF Inl]] show ?thesis
    by (simp add: new_triggers_def receive_def log_error_def count_tick_def)
next
  case (Inr cs)
  with assms(3) have c: "check_components env cs (count_tick ck) = Waiting ck'"
    by (simp add: checker_tick_def count_tick_def)
  have "new_triggers (count_tick ck) ck' = new_triggers ck ck'" by (simp add: new_triggers_def count_tick_def)
  with poll_run_trans [OF checks_run [OF assms(1) c, of clnt st] poll_run.More [OF poll_run.Start poll_step.Listing [OF assms(2) Inr]]]
  show ?thesis by simp
qed

section \<open>Components on their way to a goal\<close>

text \<open>
  A goal says which digests and revisions a component may end up at. It is tended if it is queued, or
  being reconciled towards the goal, or ready there and idle.
\<close>

type_synonym goal = "Component \<Rightarrow> string \<times> string \<Rightarrow> bool"

definition tended :: "goal \<Rightarrow> 's work_state \<Rightarrow> Component \<Rightarrow> bool" where
  "tended goal st c \<longleftrightarrow>
     request_of c \<in> set (wkQueue st) \<or>
     (\<exists>p \<in> set (wkActive st). request_of p = request_of c \<and> omGeneration (coMeta p) = omGeneration (coMeta c) \<and> goal c (attempted p)) \<or>
     (Component_IsReady c \<and> goal c (attempted c) \<and> \<not> busy st (request_of c))"

text \<open>A component that is ready and idle may also still wait for its check.\<close>

definition kept :: "goal \<Rightarrow> Component set \<Rightarrow> 's work_state \<Rightarrow> Component \<Rightarrow> bool" where
  "kept goal pend st c \<longleftrightarrow> tended goal st c \<or> c \<in> pend \<and> Component_IsReady c \<and> \<not> busy st (request_of c)"

definition goal_inv :: "goal \<Rightarrow> Component set \<Rightarrow> 's work_state \<Rightarrow> bool" where
  "goal_inv goal pend st \<longleftrightarrow> (\<forall>c \<in> set (wkStore st). follows_source c \<longrightarrow> kept goal pend st c) \<and>
     distinct (map request_of (wkStore st)) \<and> distinct (map request_of (wkActive st))"

lemma goal_invD:
  assumes "goal_inv goal pend st"
  shows "c \<in> set (wkStore st) \<Longrightarrow> follows_source c \<Longrightarrow> kept goal pend st c"
    "distinct (map request_of (wkStore st))" "distinct (map request_of (wkActive st))"
  using assms by (auto simp: goal_inv_def)

lemma kept_mono:
  assumes "kept goal pend st c" "request_of c \<in> set (wkQueue st) \<Longrightarrow> request_of c \<in> set (wkQueue st')"
    and "\<And>p. request_of p = request_of c \<Longrightarrow> p \<in> set (wkActive st') \<longleftrightarrow> p \<in> set (wkActive st)"
  shows "kept goal pend st' c"
  using assms unfolding kept_def tended_def busy_iff by blast

lemma kept_queued: "request_of c \<in> set (wkQueue st) \<Longrightarrow> kept goal pend st c"
  by (simp add: kept_def tended_def)

lemma kept_busy: "kept goal pend st c \<Longrightarrow> busy st (request_of c) \<Longrightarrow> tended goal st c"
  by (simp add: kept_def)

lemma goal_inv_adds:
  assumes "goal_inv goal pend st" "wkStore st' = wkStore st" "wkActive st' = wkActive st" "set (wkQueue st) \<subseteq> set (wkQueue st')"
  shows "goal_inv goal pend st'"
  using assms kept_mono [of goal pend st _ st'] by (auto simp: goal_inv_def)

lemma goal_inv_idle:
  "goal_inv goal {} st \<Longrightarrow> wkQueue st = [] \<Longrightarrow> wkActive st = [] \<Longrightarrow> c \<in> set (wkStore st) \<Longrightarrow> follows_source c \<Longrightarrow>
     Component_IsReady c \<and> goal c (attempted c)"
  by (auto simp: goal_inv_def kept_def tended_def)

text \<open>
  What the workers need to make for a goal: it does not depend on the status of a component, and what
  \<open>Load\<close> finds lies in it.
\<close>

locale worker_goal =
  fixes clnt :: "'s client" and http :: http_env and goal :: goal
  assumes goal_status: "goal (c\<lparr>coStatus := t\<rparr>) v = goal c v"
    and goal_loaded: "Load clnt http s (coSourceRef c) c = Some (s', Inr (r', c1)) \<Longrightarrow> follows_source c \<Longrightarrow>
      goal c (artDigest (srArtifact r'), artRevision (srArtifact r'))"
begin

lemma worker_ends:
  assumes inv: "goal_inv goal pend st" and p: "p \<in> set (wkActive st)"
    and st': "wkStore st' = write_status p' (wkStore st)" "wkActive st' = remove1 p (wkActive st)"
    and p': "request_of p' = request_of p" "attempted p' = attempted p" "coMeta p' = coMeta p"
    and queue: "set (wkQueue st) \<subseteq> set (wkQueue st')" "Component_IsReady p' \<or> request_of p \<in> set (wkQueue st')"
  shows "goal_inv goal pend st'"
proof -
  have dist: "distinct (map request_of (wkActive st))" by (rule goal_invD(3) [OF inv])
  then have dp: "distinct (wkActive st)" by (simp add: distinct_map)
  have rest: "x \<in> set (wkActive st') \<longleftrightarrow> x \<in> set (wkActive st) \<and> x \<noteq> p" for x
    using dp by (simp add: st'(2))
  have single: "x = p" if "x \<in> set (wkActive st)" "request_of x = request_of p" for x
    using dist p that by (auto simp: distinct_map dest: inj_onD)
  have "kept goal pend st' d" if d: "d \<in> set (wkStore st')" "follows_source d" for d
    using d(1) unfolding st'(1)
  proof (cases rule: written_cases)
    case (Same c)
    have "busy st (request_of c)" using p Same(2) p'(1) by (auto simp: busy_iff)
    moreover from kept_busy [OF _ this, of goal pend] have "tended goal st c"
      using goal_invD(1) [OF inv Same(1)] d(2) Same(3) by simp
    ultimately consider "request_of c \<in> set (wkQueue st)"
      | "omGeneration (coMeta p) = omGeneration (coMeta c)" "goal c (attempted p)"
      using single Same(2) p'(1) unfolding tended_def by metis
    then show ?thesis
    proof cases
      case 1
      with queue(1) Same(3) show ?thesis by (intro kept_queued) auto
    next
      case 2
      have "\<not> busy st' (request_of d)" using rest single Same p'(1) by (auto simp: busy_iff)
      moreover have "ready_at d (attempted p)" if "Component_IsReady p'"
        using ready_at_written [OF that, of c] 2(1) p'(2,3) Same(3) by simp
      ultimately show ?thesis using queue(2) 2(2) Same p'(1) by (auto simp: kept_def tended_def ready_at_def goal_status)
    qed
  next
    case Other
    show ?thesis
    proof (rule kept_mono [OF goal_invD(1) [OF inv Other(1) d(2)]])
      show "x \<in> set (wkActive st') \<longleftrightarrow> x \<in> set (wkActive st)" if "request_of x = request_of d" for x
        using rest [of x] that Other(2) p'(1) by metis
    qed (use queue(1) in auto)
  qed
  moreover have "distinct (map request_of (wkActive st'))"
    using dist dp by (auto simp: st'(2) distinct_map intro: inj_on_subset)
  ultimately show ?thesis using goal_invD(2) [OF inv] by (simp add: goal_inv_def st'(1))
qed

lemma worker_starts:
  assumes inv: "goal_inv goal pend st" and c: "c \<in> set (wkStore st)" "\<not> busy st (request_of c)"
    and load: "Load clnt http (wkCluster st) (coSourceRef c) c = Some (s', Inr (r', c1))" "\<not> is_deleting c"
    and hooks: "makeFuncPreReconcile get (c1\<lparr>coSpec := (coSpec c1)\<lparr>spSourceRef := r'\<rparr>\<rparr>) = (p, Inr ())"
  shows "goal_inv goal pend (st\<lparr>wkCluster := s', wkQueue := take_request (request_of c) (wkQueue st),
    wkActive := p # wkActive st\<rparr>)" (is "goal_inv goal pend ?st")
proof -
  have p: "p = set_attempted (c1\<lparr>coSpec := (coSpec c1)\<lparr>spSourceRef := r'\<rparr>\<rparr>) (srArtifact r')"
    using hooks Load_records(1) [OF load] by (simp add: makeFuncPreReconcile_def SourceReference_Artifact_def Let_def)
  have "coMeta c1 = coMeta c" by (subst Load_records(3) [OF load]) simp
  with p have meta: "coMeta p = coMeta c" "request_of p = request_of c"
    "attempted p = (artDigest (srArtifact r'), artRevision (srArtifact r'))"
    by (simp_all add: request_of_def set_attempted_def attempted_def)
  have "kept goal pend ?st d" if d: "d \<in> set (wkStore st)" "follows_source d" for d
  proof (cases "request_of d = request_of c")
    case True
    with c(1) d(1) goal_invD(2) [OF inv] have "d = c" by (auto simp: distinct_map dest: inj_onD)
    with goal_loaded [OF load(1)] d(2) meta show ?thesis by (simp add: kept_def tended_def)
  next
    case False
    have "x \<in> set (wkActive ?st) \<longleftrightarrow> x \<in> set (wkActive st)" if "request_of x = request_of d" for x
      using that False meta(2) by (cases "x = p") simp_all
    then show ?thesis using False by (intro kept_mono [OF goal_invD(1) [OF inv d]]) simp_all
  qed
  with goal_invD(2,3) [OF inv] c(2) meta(2) show ?thesis by (simp add: goal_inv_def busy_def)
qed

lemma worker_fails:
  assumes inv: "goal_inv goal pend st" and q: "request_of c \<in> set (wkQueue st)" "request_of c' = request_of c"
  shows "goal_inv goal pend (st\<lparr>wkCluster := s', wkStore := write_status c' (wkStore st)\<rparr>)" (is "goal_inv goal pend ?st")
proof -
  have "kept goal pend ?st d" if d: "d \<in> set (write_status c' (wkStore st))" "follows_source d" for d
    using d(1)
  proof (cases rule: written_cases)
    case (Same x)
    with q show ?thesis by (intro kept_queued) simp
  next
    case Other
    then show ?thesis by (intro kept_mono [OF goal_invD(1) [OF inv _ d(2)]]) simp_all
  qed
  with goal_invD(2,3) [OF inv] show ?thesis by (simp add: goal_inv_def)
qed

lemma step_keeps:
  assumes "work_step clnt http st st'" "goal_inv goal pend st"
  shows "goal_inv goal pend st'"
  using assms(1)
proof (cases rule: work_stepE)
  case (Delivering ev evs key clist)
  then show ?thesis using handler_adds [of "wkQueue st" key clist ev] by (intro goal_inv_adds [OF assms(2)]) auto
next
  case (Editing store')
  have "kept goal pend st' c" if "c \<in> set store'" "follows_source c" for c
  proof (cases "c \<in> set (wkStore st)")
    case True
    show ?thesis by (rule kept_mono [OF goal_invD(1) [OF assms(2) True that(2)]]) (auto simp: Editing)
  qed (use that Editing in \<open>auto intro: kept_queued\<close>)
  with Editing goal_invD(3) [OF assms(2)] show ?thesis by (simp add: goal_inv_def)
next
  case (Taking c s' r' c1 get p)
  then show ?thesis using worker_starts [OF assms(2)] by blast
next
  case (Failing c s' res c')
  then show ?thesis using worker_fails [OF assms(2)] by blast
next
  case (Finishing p rs)
  show ?thesis
    by (rule worker_ends [OF assms(2) Finishing(2), where p' = "makeFuncPostReconcile (with_status rs p)"])
      (use Finishing in auto)
next
  case (Requeueing p rs)
  show ?thesis by (rule worker_ends [OF assms(2) Requeueing(2), where p' = "with_status rs p"]) (use Requeueing in auto)
next
  case (Dropping r)
  have "kept goal pend st' c" if "c \<in> set (wkStore st)" "follows_source c" for c
  proof -
    from that Dropping have "request_of c \<noteq> r" by (auto simp: follows_source_def)
    then show ?thesis by (intro kept_mono [OF goal_invD(1) [OF assms(2) that]]) (auto simp: Dropping)
  qed
  with goal_invD(2,3) [OF assms(2)] Dropping show ?thesis by (simp add: goal_inv_def)
qed (auto intro: goal_inv_adds [OF assms(2)])

end

section \<open>Two goals\<close>

text \<open>To be ready at whatever was found, and to be ready at what the http repository of the component offers.\<close>

definition any_goal :: goal where
  "any_goal c v \<longleftrightarrow> True"

definition http_goal :: "http_env \<Rightarrow> goal" where
  "http_goal http c v \<longleftrightarrow>
     (\<forall>h url d r. srBlueprint (coSourceRef c) = None \<longrightarrow> srHttpRepository (coSourceRef c) = Some h \<longrightarrow>
        GetArtifact http (hrUrl h) (hrDigestHeader h) (hrRevisionHeader h) = Some (Inr (url, d, r)) \<longrightarrow> v = (d, r))"

lemma Load_http_offers:
  assumes "Load clnt http s (coSourceRef c) c = Some (s', Inr (r', c1))" "follows_source c"
  shows "http_goal http c (artDigest (srArtifact r'), artRevision (srArtifact r'))"
  using assms(1)
proof (cases rule: Load_Inr_cases)
  case (Kept st)
  then show ?thesis using assms(2) by (simp add: follows_source_def keep_source_def)
next
  case (Fresh a dd)
  then show ?thesis by (auto simp: http_goal_def load_source_def load_http_def Let_def split: option.splits)
qed (use assms(2) in \<open>simp add: follows_source_def\<close>)

interpretation anywhere: worker_goal clnt http any_goal for clnt http
  by unfold_locales (simp_all add: any_goal_def)

interpretation at_offer: worker_goal clnt http "http_goal http" for clnt http
  by unfold_locales (simp add: http_goal_def, rule Load_http_offers)

section \<open>A tick\<close>

lemma stale_single:
  "stale_names env n [c] = (if outdated c (offered env n c) then [request_of c] else [])"
  by (simp add: stale_names_def name_request)

text \<open>A check sets one component on the way to what its repository offers.\<close>

lemma check_keeps:
  assumes inv: "goal_inv (http_goal http) (set (c # cs)) st"
    and check: "range (ckHttp env) \<subseteq> {http}" "check_components env [c] ck = Waiting ck'"
  shows "goal_inv (http_goal http) (set cs) (receive (new_triggers ck ck') st)" (is "goal_inv _ _ ?st")
proof -
  have web: "ckHttp env n = http" for n using check(1) by auto
  have "kept (http_goal http) (set cs) ?st d" if d: "d \<in> set (wkStore st)" "follows_source d" for d
  proof (rule ccontr)
    assume not: "\<not> kept (http_goal http) (set cs) ?st d"
    have "kept (http_goal http) (set (c # cs)) ?st d"
      by (rule kept_mono [OF goal_invD(1) [OF inv d]]) (auto simp: receive_def)
    with not have dc: "d = c" "Component_IsReady c" "\<not> busy ?st (request_of c)" "\<not> tended (http_goal http) ?st c"
      by (auto simp: kept_def)
    then have "\<not> http_goal http c (attempted c)" by (simp add: tended_def)
    then have "outdated c (offered env (ckCalls ck) c)"
      using web by (auto simp: http_goal_def outdated_def offered_def fetch_def attempted_def)
    then have "request_of c \<in> set (wkQueue ?st)"
      by (simp add: receive_def new_triggers_checked [OF check(2)] stale_single)
    with dc show False by (simp add: tended_def)
  qed
  with goal_invD(2,3) [OF inv] show ?thesis by (simp add: goal_inv_def receive_def)
qed

text \<open>Listing while nothing is reconciled: who is not queued is ready, and waits for its check if it is listed.\<close>

lemma list_keeps:
  assumes inv: "goal_inv any_goal {} st" and idle: "wkActive st = []"
    and cs: "indexed_cache (set (wkStore st)) (ckCache env t)" "ckCache env t [HasHttpRepository] = Inr cs"
  shows "goal_inv (http_goal http) (set cs) st"
proof -
  have "kept (http_goal http) (set cs) st c" if c: "c \<in> set (wkStore st)" "follows_source c" for c
  proof (cases "c \<in> set cs \<or> request_of c \<in> set (wkQueue st)")
    case True
    with goal_invD(1) [OF inv c] idle show ?thesis by (auto simp: kept_def tended_def busy_def)
  next
    case False
    have "set cs = indexed (set (wkStore st)) indexBySourceType sourceTypeHttpRepository"
      using indexed_cache_list [OF cs(1) index_funcs_lookup(1)] cs(2) by (simp add: HasHttpRepository_def)
    with False c(1) have "http_goal http c (attempted c)"
      by (auto simp: http_goal_def indexed_def indexBySourceType_def)
    with goal_invD(1) [OF inv c] idle False show ?thesis by (auto simp: kept_def tended_def busy_def)
  qed
  with goal_invD(2,3) [OF inv] show ?thesis by (simp add: goal_inv_def)
qed

lemma more_pending: "goal_inv goal pend st \<Longrightarrow> pend \<subseteq> pend' \<Longrightarrow> goal_inv goal pend' st"
  by (auto simp: goal_inv_def kept_def)

lemma any_run_keeps:
  assumes "poll_run clnt webs x y" "goal_inv any_goal {} (fst x)"
  shows "goal_inv any_goal {} (fst y)"
  using assms(1)
proof (induction rule: poll_run.induct)
  case (More y z)
  from More.hyps(2) show ?case
    by (cases rule: poll_stepE) (use More.IH in \<open>auto intro: anywhere.step_keeps goal_inv_adds simp: receive_def\<close>)
qed (rule assms(2))

lemma quiet_run_keeps:
  assumes "poll_run clnt {http} x y" "goal_inv (http_goal http) (set (snd (snd x))) (fst x)"
  shows "goal_inv (http_goal http) (set (snd (snd y))) (fst y)"
  using assms(1)
proof (induction rule: poll_run.induct)
  case (More y z)
  from More.hyps(2) show ?case
  proof (cases rule: poll_stepE)
    case (Checking env c ck ck' st cs)
    with More.IH check_keeps [of http c cs st env ck ck'] show ?thesis by simp
  qed (use More.IH in \<open>auto intro: at_offer.step_keeps more_pending\<close>)
qed (rule assms(2))

section \<open>Properties\<close>

text \<open>
  C3. Polling corrects itself: however components and http repositories changed before, and whatever was
  missed meanwhile, take a tick that lists the components while nothing is being reconciled. If from then on
  the repositories answer the same, then once no check is due, nothing is queued and nothing is being
  reconciled, every living component that is not sticky is ready at the digest and revision its http
  repository offers, however checks, reconciliations, changes of components and further ticks interleave.
\<close>

theorem polling_corrects:
  assumes "wkStore st0 = []" "wkActive st0 = []" "poll_run clnt UNIV (st0, ck0, []) (st1, ck1, [])" "wkActive st1 = []"
    and "indexed_cache (set (wkStore st1)) (ckCache env (ckTicks ck1))"
      "ckCache env (ckTicks ck1) [HasHttpRepository] = Inr cs"
    and "poll_run clnt {http} (st1, count_tick ck1, cs) (st2, ck2, [])"
    and "wkQueue st2 = []" "wkActive st2 = []" "c \<in> set (wkStore st2)" "\<not> is_deleting c" "\<not> spSticky (coSpec c)"
    and "srBlueprint (coSourceRef c) = None" "srHttpRepository (coSourceRef c) = Some h"
    and "GetArtifact http (hrUrl h) (hrDigestHeader h) (hrRevisionHeader h) = Some (Inr (url, d, r))"
  shows "up_to_date c d r"
proof -
  have "goal_inv any_goal {} (fst (st0, ck0, []))" using assms(1,2) by (simp add: goal_inv_def)
  from any_run_keeps [OF assms(3) this] have "goal_inv any_goal {} st1" by simp
  from list_keeps [OF this assms(4-6), of http] quiet_run_keeps [OF assms(7)]
  have "goal_inv (http_goal http) {} st2" by simp
  from goal_inv_idle [OF this assms(8-10)] have "Component_IsReady c" "attempted c = (d, r)"
    using assms(11-15) by (auto simp: follows_source_def http_goal_def)
  then show ?thesis by (simp add: up_to_date_ready_at ready_at_def)
qed

end
