(* ===== verification/Dependencies.thy ===== *)
theory Dependencies
  imports Convergence
begin

text \<open>
  Dependencies between the components of a cluster, as the hooks see them: \<open>makeFuncPreReconcile\<close> holds a
  component back until its dependencies are ready, and \<open>makeFuncPreDelete\<close> until no component depends on it.
  The theory composes the hooks over a whole store of components: what can never happen on a dependency cycle,
  and that without cycles a rollout and a deletion come to their end, in as many rounds as there are
  components. What the reconciler framework does around the hooks is in the step relation, as in
  \<open>Convergence\<close>.
\<close>

section \<open>Reading the store\<close>

definition store_Get :: "Component list \<Rightarrow> NamespacedName \<Rightarrow> error + Component" where
  "store_Get store n = (case List.find (\<lambda>c. request_of c = n) store of
     None \<Rightarrow> Inl (NotFound []) | Some c \<Rightarrow> Inr c)"

definition depends_on :: "Component \<Rightarrow> request \<Rightarrow> bool" where
  "depends_on c r \<longleftrightarrow> r \<in> dependency_request c ` set (spDependencies (coSpec c))"

lemma dependency_request_name: "dependency_request c d = WithDefaultNamespace d (coNamespace c)"
  by (simp add: dependency_request_def WithDefaultNamespace_def)

lemma depends_on_resolves:
  "depends_on c (request_of d) \<longleftrightarrow> (\<exists>r \<in> set (spDependencies (coSpec c)). resolves_to c r (coNamespace d) (coName d))"
  by (force simp: depends_on_def dependency_request_name resolves_to_def request_of_def)

lemma store_Get_Inr: "store_Get store n = Inr c \<Longrightarrow> c \<in> set store \<and> request_of c = n"
  by (auto simp: store_Get_def find_Some_iff split: option.splits)

lemma store_Get_request:
  assumes "distinct (map request_of store)" "c \<in> set store"
  shows "store_Get store (request_of c) = Inr c"
proof (cases "List.find (\<lambda>d. request_of d = request_of c) store")
  case None
  with assms(2) show ?thesis by (auto simp: find_None_iff)
next
  case (Some d)
  then have "d \<in> set store" "request_of d = request_of c" by (auto simp: find_Some_iff)
  with assms have "d = c" by (auto simp: distinct_map dest: inj_onD)
  with Some show ?thesis by (simp add: store_Get_def)
qed

section \<open>One reconciliation\<close>

text \<open>
  A component whose source is loaded at an artifact runs through the hooks; \<open>done\<close> is the status the
  framework reports when all of them pass, \<open>held\<close> the one it reports when one of them fails.
\<close>

definition with_artifact :: "Artifact \<Rightarrow> Component \<Rightarrow> Component" where
  "with_artifact a c = c\<lparr>coSpec := (coSpec c)\<lparr>spSourceRef := (coSourceRef c)\<lparr>srArtifact := a, srLoaded := True\<rparr>\<rparr>\<rparr>"

definition reconciled ::
  "(NamespacedName \<Rightarrow> error + Component) \<Rightarrow> Artifact \<Rightarrow> RuntimeStatus \<Rightarrow> RuntimeStatus \<Rightarrow> Component \<Rightarrow> Component" where
  "reconciled get a finish held c =
     (let c' = with_artifact a c in
      case makeFuncPostRead c' of
        Inl _ \<Rightarrow> with_status held c'
      | Inr _ \<Rightarrow>
        (case makeFuncPreReconcile get c' of
           (p, Inl _) \<Rightarrow> with_status held p
         | (p, Inr _) \<Rightarrow> makeFuncPostReconcile (with_status finish p)))"

lemma with_artifact_simps [simp]:
  "coMeta (with_artifact a c) = coMeta c" "coStatus (with_artifact a c) = coStatus c"
  "srLoaded (coSourceRef (with_artifact a c)) = True" "srArtifact (coSourceRef (with_artifact a c)) = a"
  "spDependencies (coSpec (with_artifact a c)) = spDependencies (coSpec c)"
  "SourceReference_Equals r (coSourceRef (with_artifact a c)) = SourceReference_Equals r (coSourceRef c)"
  by (simp_all add: with_artifact_def Equals_iff)

lemma PreReconcile_loaded:
  "makeFuncPreReconcile get (with_artifact a c) =
     (let p = set_attempted (with_artifact a c) a in (p, check_dependencies get p (spDependencies (coSpec c))))"
  by (simp add: makeFuncPreReconcile_def SourceReference_Artifact_def Let_def set_attempted_def)

definition hooks_pass :: "(NamespacedName \<Rightarrow> error + Component) \<Rightarrow> Artifact \<Rightarrow> Component \<Rightarrow> bool" where
  "hooks_pass get a c \<longleftrightarrow> makeFuncPostRead (with_artifact a c) = Inr () \<and>
     (\<forall>d \<in> set (spDependencies (coSpec c)). dependency_met get (set_attempted (with_artifact a c) a) d)"

lemma hooks_pass_dependencies:
  "hooks_pass get a c \<longleftrightarrow> makeFuncPostRead (with_artifact a c) = Inr () \<and>
     check_dependencies get (set_attempted (with_artifact a c) a) (spDependencies (coSpec c)) = Inr ()"
  by (simp add: hooks_pass_def check_dependencies_Inr)

lemma reconciled_passed:
  "hooks_pass get a c \<Longrightarrow>
     reconciled get a finish held c = makeFuncPostReconcile (with_status finish (set_attempted (with_artifact a c) a))"
  by (simp add: hooks_pass_dependencies reconciled_def Let_def PreReconcile_loaded)

lemma reconciled_held:
  "\<not> hooks_pass get a c \<Longrightarrow> \<exists>p. reconciled get a finish held c = with_status held p \<and> coMeta p = coMeta c"
  by (fastforce simp: hooks_pass_dependencies reconciled_def Let_def PreReconcile_loaded split: sum.splits)

lemma reconciled_meta [simp]:
  "coMeta (reconciled get a finish held c) = coMeta c" "request_of (reconciled get a finish held c) = request_of c"
proof -
  show m: "coMeta (reconciled get a finish held c) = coMeta c"
  proof (cases "hooks_pass get a c")
    case True
    then show ?thesis by (simp add: reconciled_passed)
  next
    case False
    from reconciled_held [OF this, of finish held] show ?thesis by auto
  qed
  then show "request_of (reconciled get a finish held c) = request_of c" by (simp add: request_of_def)
qed

text \<open>What writing a status leaves of the stored objects.\<close>

lemma written_same_object:
  "d \<in> set (write_status p store) \<Longrightarrow> \<exists>c \<in> set store. coMeta c = coMeta d \<and> coSpec c = coSpec d"
  by (erule written_cases) auto

lemma written_other: "c \<in> set store \<Longrightarrow> request_of c \<noteq> request_of p \<Longrightarrow> c \<in> set (write_status p store)"
  by (force simp: write_status_def name_request)

lemma written_own: "c \<in> set store \<Longrightarrow> request_of c = request_of p \<Longrightarrow> c\<lparr>coStatus := coStatus p\<rparr> \<in> set (write_status p store)"
  by (force simp: write_status_def name_request)

lemma store_Get_exists: "r \<in> request_of ` set store \<Longrightarrow> \<exists>c. store_Get store r = Inr c"
  by (auto simp: store_Get_def find_None_iff split: option.splits)

section \<open>Rounds\<close>

text \<open>
  Steps that are taken one member at a time, where a step settles its member once the members of lower
  rank are settled, and leaves a settled member so as long as those are. In every round each member
  has its turn at least once, in any order; after as many rounds as there are ranks all are settled.
\<close>

locale ranked_rounds =
  fixes step :: "'s \<Rightarrow> 'r \<Rightarrow> 's"
    and inv :: "'s \<Rightarrow> bool"
    and settled :: "'s \<Rightarrow> 'r \<Rightarrow> bool"
    and rank :: "'r \<Rightarrow> nat"
    and members :: "'r set"
  assumes inv_step: "inv s \<Longrightarrow> inv (step s r)"
    and settles: "inv s \<Longrightarrow> r \<in> members \<Longrightarrow> (\<And>q. q \<in> members \<Longrightarrow> rank q < rank r \<Longrightarrow> settled s q) \<Longrightarrow>
      settled (step s r) r"
    and stays: "inv s \<Longrightarrow> p \<in> members \<Longrightarrow> settled s p \<Longrightarrow>
      (\<And>q. q \<in> members \<Longrightarrow> rank q < rank p \<Longrightarrow> settled s q) \<Longrightarrow> settled (step s r) p"
begin

definition settled_below :: "nat \<Rightarrow> 's \<Rightarrow> bool" where
  "settled_below k s \<longleftrightarrow> (\<forall>q \<in> members. rank q < k \<longrightarrow> settled s q)"

lemma inv_steps: "inv s \<Longrightarrow> inv (foldl step s rs)"
  by (induction rs arbitrary: s) (simp_all add: inv_step)

lemma below_step: "inv s \<Longrightarrow> settled_below k s \<Longrightarrow> settled_below k (step s r)"
  unfolding settled_below_def by (meson stays order.strict_trans)

lemma below_steps: "inv s \<Longrightarrow> settled_below k s \<Longrightarrow> settled_below k (foldl step s rs)"
  by (induction rs arbitrary: s) (simp_all add: inv_step below_step)

lemma settled_steps:
  assumes "inv s" "settled_below k s" "p \<in> members" "rank p \<le> k" "settled s p"
  shows "settled (foldl step s rs) p"
  using assms
proof (induction rs arbitrary: s)
  case (Cons r rs)
  have "settled (step s r) p"
    using stays [OF Cons.prems(1,3,5)] Cons.prems(2,4) by (simp add: settled_below_def)
  with Cons inv_step below_step show ?case by simp
qed simp

lemma turn_settles:
  assumes "inv s" "settled_below k s" "p \<in> members" "rank p \<le> k" "p \<in> set rs"
  shows "settled (foldl step s rs) p"
proof -
  from assms(5) obtain xs ys where rs: "rs = xs @ p # ys" by (meson split_list)
  let ?s = "foldl step s xs"
  have s: "inv ?s" "settled_below k ?s" using assms(1,2) by (simp_all add: inv_steps below_steps)
  have "settled (step ?s p) p"
    using settles [OF s(1) assms(3)] s(2) assms(4) by (simp add: settled_below_def)
  with settled_steps [OF inv_step [OF s(1)] below_step [OF s] assms(3,4)] show ?thesis by (simp add: rs)
qed

lemma round_settles:
  assumes "inv s" "settled_below k s" "members \<subseteq> set rs"
  shows "settled_below (Suc k) (foldl step s rs)"
  using turn_settles [OF assms(1,2)] assms(3) by (auto simp: settled_below_def less_Suc_eq_le)

lemma rounds_settle:
  assumes "inv s" "\<forall>rs \<in> set rounds. members \<subseteq> set rs" "settled_below k s"
  shows "settled_below (k + length rounds) (foldl step s (concat rounds))"
  using assms
proof (induction rounds arbitrary: s k)
  case (Cons rs rounds)
  then have "settled_below (Suc k + length rounds) (foldl step (foldl step s rs) (concat rounds))"
    by (intro Cons.IH) (simp_all add: inv_steps round_settles)
  then show ?case by simp
qed simp

lemma all_settled:
  assumes "inv s" "\<forall>rs \<in> set rounds. members \<subseteq> set rs"
    and "\<forall>q \<in> members. rank q < n" "n \<le> length rounds"
  shows "inv (foldl step s (concat rounds)) \<and> (\<forall>q \<in> members. settled (foldl step s (concat rounds)) q)"
proof -
  have "settled_below (length rounds) (foldl step s (concat rounds))"
    using rounds_settle [OF assms(1,2), of 0] by (simp add: settled_below_def)
  with assms(1,3,4) show ?thesis by (force simp: settled_below_def intro: inv_steps)
qed

end

text \<open>A finite relation without cycles ranks every element by what can be reached from it.\<close>

definition reach_rank :: "('a \<times> 'a) set \<Rightarrow> 'a \<Rightarrow> nat" where
  "reach_rank R x = card (R\<^sup>+ `` {x})"

lemma reach_rank_less:
  assumes "finite R" "acyclic R" "(x, y) \<in> R"
  shows "reach_rank R y < reach_rank R x"
proof -
  have "finite (R\<^sup>+ `` {x})" using assms(1) by (auto intro: finite_Image)
  moreover have "R\<^sup>+ `` {y} \<subset> R\<^sup>+ `` {x}"
  proof
    show "R\<^sup>+ `` {y} \<subseteq> R\<^sup>+ `` {x}" using assms(3) by (auto intro: trancl_into_trancl2)
    have "y \<in> R\<^sup>+ `` {x}" "y \<notin> R\<^sup>+ `` {y}" using assms(2,3) by (auto simp: acyclic_def)
    then show "R\<^sup>+ `` {y} \<noteq> R\<^sup>+ `` {x}" by blast
  qed
  ultimately show ?thesis unfolding reach_rank_def by (rule psubset_card_mono)
qed

lemma reach_rank_bound:
  assumes "finite M" "R \<subseteq> M \<times> M" "acyclic R" "x \<in> M"
  shows "reach_rank R x < card M"
proof -
  have "R\<^sup>+ \<subseteq> M \<times> M" using assms(2) by (rule trancl_subset_Sigma)
  moreover have "x \<notin> R\<^sup>+ `` {x}" using assms(3) by (auto simp: acyclic_def)
  ultimately have "R\<^sup>+ `` {x} \<subset> M" using assms(4) by blast
  with assms(1) show ?thesis unfolding reach_rank_def by (rule psubset_card_mono)
qed

section \<open>Rolling out\<close>

text \<open>
  One turn of a component: it is reconciled from the artifact its source has, and its status is written.
  Which artifact that is, is a function of the component's name.
\<close>

definition rollout_step :: "(request \<Rightarrow> Artifact) \<Rightarrow> (Component \<Rightarrow> RuntimeStatus) \<Rightarrow> (Component \<Rightarrow> RuntimeStatus) \<Rightarrow>
    Component list \<Rightarrow> request \<Rightarrow> Component list" where
  "rollout_step art finish held store r =
     (case store_Get store r of
        Inl _ \<Rightarrow> store
      | Inr c \<Rightarrow>
          if is_deleting c then store
          else write_status (reconciled (store_Get store) (art r) (finish c) (held c) c) store)"

definition art_content :: "Artifact \<Rightarrow> string \<times> string" where
  "art_content a = (artDigest a, artRevision a)"

definition reports_ready :: "(Component \<Rightarrow> RuntimeStatus) \<Rightarrow> bool" where
  "reports_ready finish \<longleftrightarrow>
     (\<forall>c. rsReady (finish c) \<and> rsObservedGeneration (finish c) = omGeneration (coMeta c))"

text \<open>
  The source of a component can be rolled out: it has an artifact, which the digest and the revision pinned
  in the spec allow, and an artifact no different from that of a dependency with the same reference.
\<close>

definition source_fits :: "(request \<Rightarrow> Artifact) \<Rightarrow> Component list \<Rightarrow> Component \<Rightarrow> bool" where
  "source_fits art store c \<longleftrightarrow> \<not> is_deleting c \<and>
     artDigest (art (request_of c)) \<noteq> [] \<and> artRevision (art (request_of c)) \<noteq> [] \<and>
     makeFuncPostRead (with_artifact (art (request_of c)) c) = Inr () \<and>
     (\<forall>d \<in> set store. depends_on c (request_of d) \<and> SourceReference_Equals (coSourceRef d) (coSourceRef c) \<longrightarrow>
        art_content (art (request_of d)) = art_content (art (request_of c)))"

definition rolled_out :: "(request \<Rightarrow> Artifact) \<Rightarrow> Component list \<Rightarrow> request \<Rightarrow> bool" where
  "rolled_out art store r \<longleftrightarrow> (\<forall>c \<in> set store. request_of c = r \<longrightarrow> ready_at c (art_content (art r)))"

definition rollout_inv ::
  "(request \<Rightarrow> nat) \<Rightarrow> request set \<Rightarrow> (request \<Rightarrow> Artifact) \<Rightarrow> (Component \<Rightarrow> RuntimeStatus) \<Rightarrow> Component list \<Rightarrow> bool" where
  "rollout_inv rank names art finish store \<longleftrightarrow> reports_ready finish \<and>
     distinct (map request_of store) \<and> request_of ` set store = names \<and>
     (\<forall>c \<in> set store. source_fits art store c \<and>
        (\<forall>r. depends_on c r \<longrightarrow> r \<in> names \<and> rank r < rank (request_of c)))"

lemma rollout_invD:
  assumes "rollout_inv rank names art finish store"
  shows "reports_ready finish" "distinct (map request_of store)" "request_of ` set store = names"
    "c \<in> set store \<Longrightarrow> source_fits art store c"
    "c \<in> set store \<Longrightarrow> depends_on c r \<Longrightarrow> r \<in> names \<and> rank r < rank (request_of c)"
  using assms by (auto simp: rollout_inv_def)

lemma PostRead_object:
  "coMeta c = coMeta d \<Longrightarrow> coSpec c = coSpec d \<Longrightarrow>
     makeFuncPostRead (with_artifact a c) = makeFuncPostRead (with_artifact a d)"
  by (simp add: makeFuncPostRead_def with_artifact_def)

lemma object_facts:
  "coMeta c = coMeta d \<Longrightarrow> request_of c = request_of d"
  "coMeta c = coMeta d \<Longrightarrow> is_deleting c = is_deleting d"
  "coMeta c = coMeta d \<Longrightarrow> coSpec c = coSpec d \<Longrightarrow> depends_on c r = depends_on d r"
  by (simp_all add: request_of_def is_deleting_def depends_on_def dependency_request_name)

lemma source_fits_written:
  assumes "coMeta c = coMeta d" "coSpec c = coSpec d" "source_fits art store c"
  shows "source_fits art (write_status p store) d"
proof -
  note o = object_facts [OF assms(1)]
  have "art_content (art (request_of e)) = art_content (art (request_of d))"
    if e: "e \<in> set (write_status p store)" "depends_on d (request_of e)" "SourceReference_Equals (coSourceRef e) (coSourceRef d)" for e
  proof -
    from written_same_object [OF e(1)] obtain x where x: "x \<in> set store" "coMeta x = coMeta e" "coSpec x = coSpec e" by blast
    with e(2,3) o(3) [OF assms(2)] assms(2) object_facts(1) [OF x(2)]
    have "depends_on c (request_of x)" "SourceReference_Equals (coSourceRef x) (coSourceRef c)" by simp_all
    with assms(3) x(1) have "art_content (art (request_of x)) = art_content (art (request_of c))"
      by (auto simp: source_fits_def)
    then show ?thesis using o(1) object_facts(1) [OF x(2)] by simp
  qed
  moreover have "\<not> is_deleting d" "artDigest (art (request_of d)) \<noteq> []" "artRevision (art (request_of d)) \<noteq> []"
    "makeFuncPostRead (with_artifact (art (request_of d)) d) = Inr ()"
    using assms(3) o(1,2) PostRead_object [OF assms(1,2)] by (simp_all add: source_fits_def)
  ultimately show ?thesis by (simp add: source_fits_def)
qed

lemma rollout_step_cases [case_names Nothing Turn]:
  obtains "rollout_step art finish held store r = store"
  | c where "c \<in> set store" "request_of c = r" "store_Get store r = Inr c"
    "rollout_step art finish held store r = write_status (reconciled (store_Get store) (art r) (finish c) (held c) c) store"
proof (cases "store_Get store r")
  case (Inr c)
  from store_Get_Inr [OF this] have "c \<in> set store" "request_of c = r" by simp_all
  with Inr that show thesis by (cases "is_deleting c") (simp_all add: rollout_step_def)
qed (use that in \<open>simp add: rollout_step_def\<close>)

lemma rollout_inv_step:
  assumes inv: "rollout_inv rank names art finish store"
  shows "rollout_inv rank names art finish (rollout_step art finish held store r)"
proof (cases rule: rollout_step_cases [of art finish held store r])
  case (Turn c)
  let ?store = "write_status (reconciled (store_Get store) (art r) (finish c) (held c) c) store"
  have "source_fits art ?store d \<and> (\<forall>r. depends_on d r \<longrightarrow> r \<in> names \<and> rank r < rank (request_of d))"
    if "d \<in> set ?store" for d
  proof -
    from written_same_object [OF that] obtain x where x: "x \<in> set store" "coMeta x = coMeta d" "coSpec x = coSpec d" by blast
    from source_fits_written [OF x(2,3) rollout_invD(4) [OF inv x(1)]] rollout_invD(5) [OF inv x(1)]
      object_facts [OF x(2)] x(3) show ?thesis by simp
  qed
  moreover have "map request_of ?store = map request_of store" by (rule write_status_requests)
  moreover from this have "request_of ` set ?store = names" using rollout_invD(3) [OF inv] by (metis set_map)
  ultimately show ?thesis using rollout_invD(1,2) [OF inv] Turn(4) by (simp add: rollout_inv_def)
qed (use inv in simp)

text \<open>Once its dependencies are rolled out, a component passes the hooks.\<close>

lemma rolled_out_dependencies_met:
  assumes inv: "rollout_inv rank names art finish store" and c: "c \<in> set store"
    and below: "\<And>q. q \<in> names \<Longrightarrow> rank q < rank (request_of c) \<Longrightarrow> rolled_out art store q"
  shows "hooks_pass (store_Get store) (art (request_of c)) c"
proof -
  let ?a = "art (request_of c)"
  let ?p = "set_attempted (with_artifact ?a c) ?a"
  have fits: "source_fits art store c" by (rule rollout_invD(4) [OF inv c])
  have "dependency_met (store_Get store) ?p d" if d: "d \<in> set (spDependencies (coSpec c))" for d
  proof -
    let ?q = "dependency_request c d"
    have dep: "depends_on c ?q" using d by (simp add: depends_on_def)
    with rollout_invD(3,5) [OF inv] c have q: "?q \<in> request_of ` set store" "rank ?q < rank (request_of c)" by auto
    from store_Get_exists [OF q(1)] obtain x where x: "store_Get store ?q = Inr x" by blast
    from store_Get_Inr [OF x] have xs: "x \<in> set store" "request_of x = ?q" by simp_all
    have ready: "ready_at x (art_content (art ?q))"
      using below [of ?q] q rollout_invD(3) [OF inv] xs by (simp add: rolled_out_def)
    have "\<not> not_synced x ?p"
    proof
      assume ns: "not_synced x ?p"
      then have "SourceReference_Equals (coSourceRef x) (coSourceRef c)" by (simp add: not_synced_def set_attempted_def)
      with fits xs dep have same: "art_content (art ?q) = art_content ?a" unfolding source_fits_def by metis
      with ready have "attempted x = art_content ?a" by (simp add: ready_at_def)
      with ns fits show False by (auto simp: not_synced_def attempted_def art_content_def source_fits_def)
    qed
    moreover have "coNamespace ?p = coNamespace c" by simp
    ultimately show ?thesis using x ready by (auto simp: dependency_met_def ready_at_def dependency_request_name)
  qed
  with fits show ?thesis by (simp add: hooks_pass_def source_fits_def)
qed

lemma turn_rolls_out:
  assumes inv: "rollout_inv rank names art finish store" and r: "r \<in> names"
    and below: "\<And>q. q \<in> names \<Longrightarrow> rank q < rank r \<Longrightarrow> rolled_out art store q"
  shows "rolled_out art (rollout_step art finish held store r) r"
proof -
  from r rollout_invD(3) [OF inv] obtain c where c: "c \<in> set store" "request_of c = r" by blast
  have get: "store_Get store r = Inr c" using store_Get_request [OF rollout_invD(2) [OF inv] c(1)] c(2) by simp
  have "hooks_pass (store_Get store) (art r) c"
    using rolled_out_dependencies_met [OF inv c(1)] below c(2) by blast
  moreover have "\<not> is_deleting c" using rollout_invD(4) [OF inv c(1)] by (simp add: source_fits_def)
  ultimately have step: "rollout_step art finish held store r = write_status (makeFuncPostReconcile
      (with_status (finish c) (set_attempted (with_artifact (art r) c) (art r)))) store" (is "_ = write_status ?p _")
    using get by (simp add: rollout_step_def reconciled_passed)
  have p: "Component_IsReady ?p"
    using rollout_invD(1) [OF inv] by (simp add: reports_ready_def Component_IsReady_def makeFuncPostReconcile_def with_status_def)
  have pa: "attempted ?p = art_content (art r)"
    by (simp add: attempted_def art_content_def makeFuncPostReconcile_def with_status_def)
  have pm: "coMeta ?p = coMeta c" "request_of ?p = r" using c(2) by (simp_all add: request_of_def)
  have "ready_at d (art_content (art r))" if "d \<in> set (write_status ?p store)" "request_of d = r" for d
    using that(1)
  proof (cases rule: written_cases)
    case (Same x)
    then have "x = c" using store_Get_request [OF rollout_invD(2) [OF inv] Same(1)] get pm(2) by simp
    with Same(3) show ?thesis using ready_at_written [OF p, of c] pa pm(1) by simp
  qed (use that pm(2) in simp)
  with step show ?thesis by (simp add: rolled_out_def)
qed

lemma turn_of_other:
  assumes "rolled_out art store p" "p \<noteq> r"
  shows "rolled_out art (rollout_step art finish held store r) p"
proof (cases rule: rollout_step_cases [of art finish held store r])
  case (Turn c)
  have "ready_at d (art_content (art p))" if "d \<in> set (rollout_step art finish held store r)" "request_of d = p" for d
    using that(1) unfolding Turn(4)
  proof (cases rule: written_cases)
    case (Same x)
    with Turn(2) that(2) assms(2) show ?thesis by simp
  next
    case Other
    with assms(1) that(2) show ?thesis by (simp add: rolled_out_def)
  qed
  then show ?thesis by (simp add: rolled_out_def)
qed (use assms in simp)

interpretation rollout: ranked_rounds "rollout_step art finish held" "rollout_inv rank names art finish"
    "rolled_out art" rank names for art finish held rank names
proof
  show "rollout_inv rank names art finish (rollout_step art finish held s r)" if "rollout_inv rank names art finish s" for s r
    by (rule rollout_inv_step [OF that])
  show "rolled_out art (rollout_step art finish held s r) r"
    if "rollout_inv rank names art finish s" "r \<in> names" "\<And>q. q \<in> names \<Longrightarrow> rank q < rank r \<Longrightarrow> rolled_out art s q" for s r
    using that by (rule turn_rolls_out)
  show "rolled_out art (rollout_step art finish held s r) p"
    if "rollout_inv rank names art finish s" "p \<in> names" "rolled_out art s p"
      "\<And>q. q \<in> names \<Longrightarrow> rank q < rank p \<Longrightarrow> rolled_out art s q" for s p r
    using that turn_rolls_out [of rank names art finish s p held] turn_of_other [of art s p r finish held]
    by (cases "p = r") auto
qed

text \<open>
  Names are ordered by namespace and then by name, so that one round can be run through in the order of the
  names.
\<close>

instantiation NamespacedName_ext :: (linorder) linorder
begin

definition less_eq_NamespacedName_ext :: "'a NamespacedName_scheme \<Rightarrow> 'a NamespacedName_scheme \<Rightarrow> bool" where
  "m \<le> n \<longleftrightarrow> nnNamespace m < nnNamespace n \<or>
     (nnNamespace m = nnNamespace n \<and> (nnName m < nnName n \<or>
       (nnName m = nnName n \<and> NamespacedName.more m \<le> NamespacedName.more n)))"

definition less_NamespacedName_ext :: "'a NamespacedName_scheme \<Rightarrow> 'a NamespacedName_scheme \<Rightarrow> bool" where
  "m < n \<longleftrightarrow> m \<le> n \<and> \<not> n \<le> (m :: 'a NamespacedName_scheme)"

instance
proof
  fix k m n :: "'a NamespacedName_scheme"
  show "m < n \<longleftrightarrow> m \<le> n \<and> \<not> n \<le> m" by (rule less_NamespacedName_ext_def)
  show "m \<le> m" by (simp add: less_eq_NamespacedName_ext_def)
  show "k \<le> n" if "k \<le> m" "m \<le> n" using that by (auto simp: less_eq_NamespacedName_ext_def)
  show "m = n" if "m \<le> n" "n \<le> m"
    using that by (intro NamespacedName.equality) (auto simp: less_eq_NamespacedName_ext_def)
  show "m \<le> n \<or> n \<le> m" by (auto simp: less_eq_NamespacedName_ext_def)
qed

end

definition sorted_round :: "Component list \<Rightarrow> request list" where
  "sorted_round store = sort (map request_of store)"

lemma sorted_rounds_cover: "\<forall>round \<in> set (replicate n (sorted_round store)). request_of ` set store \<subseteq> set round"
  by (auto simp: sorted_round_def)

definition dependencies :: "Component list \<Rightarrow> (request \<times> request) set" where
  "dependencies store = {(request_of c, r) | c r. c \<in> set store \<and> depends_on c r}"

lemma dependencies_simps [simp]:
  "dependencies [] = {}" "dependencies (c # cs) = {request_of c} \<times> {r. depends_on c r} \<union> dependencies cs"
  by (auto simp: dependencies_def)

lemma finite_dependencies: "finite (dependencies store)"
proof -
  have "dependencies store = (\<Union>c \<in> set store. (\<lambda>d. (request_of c, dependency_request c d)) ` set (spDependencies (coSpec c)))"
    by (auto simp: dependencies_def depends_on_def)
  then show ?thesis by simp
qed

section \<open>Deleting\<close>

text \<open>
  One turn of a component that is being deleted: the framework removes it when the pre-delete hook passes, and
  reports that it is held otherwise. \<open>caches\<close> is the listing the cache offers for a store.
\<close>

definition delete_step :: "(string \<Rightarrow> string \<Rightarrow> string) \<Rightarrow> (Component list \<Rightarrow> cache_list) \<Rightarrow> (Component \<Rightarrow> RuntimeStatus) \<Rightarrow>
    Component list \<Rightarrow> request \<Rightarrow> Component list" where
  "delete_step key caches held store r =
     (case store_Get store r of
        Inl _ \<Rightarrow> store
      | Inr c \<Rightarrow>
          if \<not> is_deleting c then store
          else (case makeFuncPreDelete key (caches store) c of
             Inl _ \<Rightarrow> write_status (with_status (held c) c) store
           | Inr _ \<Rightarrow> filter (\<lambda>d. request_of d \<noteq> r) store))"

definition caches_serve :: "(string \<Rightarrow> string \<Rightarrow> string) \<Rightarrow> (Component list \<Rightarrow> cache_list) \<Rightarrow> bool" where
  "caches_serve key caches \<longleftrightarrow> (\<forall>store. (\<forall>c \<in> set store. k8s_names c) \<longrightarrow>
     cache_serves (set store) key (caches store) \<and> (\<forall>c. \<exists>items. caches store [MatchingDependency key c] = Inr items))"

definition deleted :: "Component list \<Rightarrow> request \<Rightarrow> bool" where
  "deleted store r \<longleftrightarrow> (\<forall>c \<in> set store. request_of c = r \<longrightarrow> \<not> is_deleting c)"

definition deletion_inv :: "(request \<Rightarrow> nat) \<Rightarrow> request set \<Rightarrow> Component set \<Rightarrow>
    (string \<Rightarrow> string \<Rightarrow> string) \<Rightarrow> (Component list \<Rightarrow> cache_list) \<Rightarrow> Component list \<Rightarrow> bool" where
  "deletion_inv rank names living key caches store \<longleftrightarrow> caches_serve key caches \<and>
     distinct (map request_of store) \<and> request_of ` set store \<subseteq> names \<and> {c \<in> set store. \<not> is_deleting c} = living \<and>
     (\<forall>c \<in> set store. k8s_names c) \<and>
     (\<forall>c \<in> set store. \<forall>d \<in> set store. is_deleting d \<longrightarrow> depends_on c (request_of d) \<longrightarrow>
        is_deleting c \<and> rank (request_of c) < rank (request_of d))"

lemma deletion_invD:
  assumes "deletion_inv rank names living key caches store"
  shows "caches_serve key caches" "distinct (map request_of store)" "request_of ` set store \<subseteq> names"
    "{c \<in> set store. \<not> is_deleting c} = living" "c \<in> set store \<Longrightarrow> k8s_names c"
    "c \<in> set store \<Longrightarrow> d \<in> set store \<Longrightarrow> is_deleting d \<Longrightarrow> depends_on c (request_of d) \<Longrightarrow>
      is_deleting c \<and> rank (request_of c) < rank (request_of d)"
proof -
  note inv = assms [unfolded deletion_inv_def]
  show "caches_serve key caches" "distinct (map request_of store)" "request_of ` set store \<subseteq> names"
    "{c \<in> set store. \<not> is_deleting c} = living" using inv by (blast, blast, blast, blast)
  show "k8s_names c" if "c \<in> set store" using inv that by blast
  show "is_deleting c \<and> rank (request_of c) < rank (request_of d)"
    if "c \<in> set store" "d \<in> set store" "is_deleting d" "depends_on c (request_of d)" using inv that by blast
qed

text \<open>With a cache that serves the store, the hook passes exactly when nothing depends on the component.\<close>

lemma PreDelete_store:
  assumes "caches_serve key caches" "\<forall>c \<in> set store. k8s_names c" "c \<in> set store"
  shows "makeFuncPreDelete key (caches store) c = Inr () \<longleftrightarrow> (\<forall>d \<in> set store. \<not> depends_on d (request_of c))"
proof -
  from assms(1,2) obtain items where cache: "cache_serves (set store) key (caches store)"
    and l: "caches store [MatchingDependency key c] = Inr items" unfolding caches_serve_def by metis
  have "CHR ''/'' \<notin> set (coNamespace c)" using assms(2,3) by (auto simp: k8s_names_def k8s_component_def)
  from dependency_query [OF cache this l] have "set items = {d \<in> set store. depends_on d (request_of c)}"
    by (simp add: depends_on_resolves)
  moreover have "makeFuncPreDelete key (caches store) c = Inr () \<longleftrightarrow> items = []"
    using l by (auto simp: makeFuncPreDelete_def split: list.splits)
  ultimately show ?thesis by (auto simp flip: set_empty)
qed

lemma k8s_names_object: "coMeta c = coMeta d \<Longrightarrow> coSpec c = coSpec d \<Longrightarrow> k8s_names c \<Longrightarrow> k8s_names d"
  by (simp add: k8s_names_def k8s_component_def)

lemma delete_step_cases [consumes 1, case_names Nothing Held Removed]:
  assumes inv: "deletion_inv rank names living key caches store"
  obtains "delete_step key caches held store r = store" "\<And>c. c \<in> set store \<Longrightarrow> request_of c = r \<Longrightarrow> \<not> is_deleting c"
  | c d where "c \<in> set store" "request_of c = r" "is_deleting c" "d \<in> set store" "depends_on d r"
      "delete_step key caches held store r = write_status (with_status (held c) c) store"
  | c where "c \<in> set store" "request_of c = r" "is_deleting c"
      "delete_step key caches held store r = filter (\<lambda>d. request_of d \<noteq> r) store"
proof (cases "\<exists>c \<in> set store. request_of c = r \<and> is_deleting c")
  case True
  then obtain c where c: "c \<in> set store" "request_of c = r" "is_deleting c" by blast
  have get: "store_Get store r = Inr c" using store_Get_request [OF deletion_invD(2) [OF inv] c(1)] c(2) by simp
  note hook = PreDelete_store [OF deletion_invD(1) [OF inv] _ c(1)]
  show thesis
  proof (cases "makeFuncPreDelete key (caches store) c")
    case (Inl f)
    with hook deletion_invD(5) [OF inv] obtain d where "d \<in> set store" "depends_on d r" using c(2) by auto
    then show thesis using that(2) [OF c] get c(3) Inl by (simp add: delete_step_def)
  next
    case (Inr u)
    then show thesis using that(3) [OF c] get c(3) by (simp add: delete_step_def)
  qed
next
  case False
  have "delete_step key caches held store r = store"
  proof (cases "store_Get store r")
    case (Inr c)
    with False store_Get_Inr [OF Inr] show ?thesis by (auto simp: delete_step_def)
  qed (simp add: delete_step_def)
  with False that(1) show thesis by blast
qed

lemma written_living:
  assumes "is_deleting p" "\<And>c. c \<in> set store \<Longrightarrow> request_of c = request_of p \<Longrightarrow> is_deleting c"
  shows "{d \<in> set (write_status p store). \<not> is_deleting d} = {d \<in> set store. \<not> is_deleting d}"
proof -
  have "is_deleting (c\<lparr>coStatus := st\<rparr>) = is_deleting c" for c st by (simp add: is_deleting_def)
  then show ?thesis using assms by (fastforce elim: written_cases intro: written_other)
qed

lemma deletion_inv_step:
  assumes inv: "deletion_inv rank names living key caches store"
  shows "deletion_inv rank names living key caches (delete_step key caches held store r)"
  using inv
proof (cases rule: delete_step_cases [where held = held and r = r])
  case (Held c d)
  let ?store = "write_status (with_status (held c) c) store"
  have objects: "\<exists>x \<in> set store. coMeta x = coMeta e \<and> coSpec x = coSpec e" if "e \<in> set ?store" for e
    using that by (rule written_same_object)
  have "is_deleting a \<and> rank (request_of a) < rank (request_of b)"
    if ab: "a \<in> set ?store" "b \<in> set ?store" "is_deleting b" "depends_on a (request_of b)" for a b
  proof -
    from objects ab(1,2) obtain x y where x: "x \<in> set store" "coMeta x = coMeta a" "coSpec x = coSpec a"
      and y: "y \<in> set store" "coMeta y = coMeta b" "coSpec y = coSpec b" by meson
    note xo = object_facts [OF x(2)] and yo = object_facts [OF y(2)]
    show ?thesis using deletion_invD(6) [OF inv x(1) y(1)] ab(3,4) xo yo x(3) by simp
  qed
  moreover have "k8s_names e" if "e \<in> set ?store" for e
    using objects [OF that] deletion_invD(5) [OF inv] k8s_names_object by metis
  moreover have "{e \<in> set ?store. \<not> is_deleting e} = living"
  proof -
    have "is_deleting (with_status (held c) c)" using Held(3) by (simp add: is_deleting_def)
    moreover have "is_deleting x" if "x \<in> set store" "request_of x = request_of (with_status (held c) c)" for x
    proof -
      from that(2) have "request_of x = request_of c" by simp
      with that(1) Held(1) deletion_invD(2) [OF inv] have "x = c" unfolding distinct_map by (metis inj_onD)
      with Held(3) show ?thesis by simp
    qed
    ultimately show ?thesis using written_living deletion_invD(4) [OF inv] by blast
  qed
  moreover have requests: "map request_of ?store = map request_of store" by (rule write_status_requests)
  moreover from requests have "request_of ` set ?store = request_of ` set store" by (metis set_map)
  ultimately show ?thesis unfolding Held(6) deletion_inv_def
    using deletion_invD(1-3) [OF inv] by (intro conjI) (simp_all only: requests simp_thms, blast+)
next
  case (Removed c)
  have "x = c" if "x \<in> set store" "request_of x = r" for x
    using that Removed(1,2) deletion_invD(2) [OF inv] unfolding distinct_map by (metis inj_onD)
  with Removed(3) have "{e \<in> set (filter (\<lambda>d. request_of d \<noteq> r) store). \<not> is_deleting e} =
      {e \<in> set store. \<not> is_deleting e}" unfolding set_filter by blast
  also note deletion_invD(4) [OF inv]
  finally have "{e \<in> set (filter (\<lambda>d. request_of d \<noteq> r) store). \<not> is_deleting e} = living" .
  moreover have "distinct (map request_of (filter (\<lambda>d. request_of d \<noteq> r) store))"
    using deletion_invD(2) [OF inv] by (rule distinct_map_filter)
  moreover have "request_of ` set (filter (\<lambda>d. request_of d \<noteq> r) store) \<subseteq> names"
    using deletion_invD(3) [OF inv] by auto
  ultimately show ?thesis unfolding Removed(4) deletion_inv_def
    using deletion_invD(1) [OF inv] deletion_invD(5,6) [OF inv] unfolding set_filter by blast
qed (use inv in simp)

lemma turn_deletes:
  assumes inv: "deletion_inv rank names living key caches store"
    and below: "\<And>q. q \<in> names \<Longrightarrow> rank q < rank r \<Longrightarrow> deleted store q"
  shows "deleted (delete_step key caches held store r) r"
  using inv
proof (cases rule: delete_step_cases [where held = held and r = r])
  case (Held c d)
  with deletion_invD(6) [OF inv Held(4,1,3)] have d: "is_deleting d" "rank (request_of d) < rank r" by simp_all
  moreover have "request_of d \<in> names" using Held(4) deletion_invD(3) [OF inv] by blast
  ultimately have "deleted store (request_of d)" using below by blast
  with d Held(4) show ?thesis by (auto simp: deleted_def)
qed (auto simp: deleted_def)

lemma delete_step_keeps_deleted:
  assumes inv: "deletion_inv rank names living key caches store" and "deleted store p"
  shows "deleted (delete_step key caches held store r) p"
  using inv
proof (cases rule: delete_step_cases [where held = held and r = r])
  case (Held c d)
  show ?thesis unfolding deleted_def
  proof (intro ballI impI)
    fix e
    assume e: "e \<in> set (delete_step key caches held store r)" "request_of e = p"
    from written_same_object [OF e(1) [unfolded Held(6)]] obtain x where x: "x \<in> set store" "coMeta x = coMeta e" by blast
    have "request_of x = p" using object_facts(1) [OF x(2)] e(2) by (rule trans)
    with assms(2) x(1) have "\<not> is_deleting x" unfolding deleted_def by blast
    with object_facts(2) [OF x(2)] show "\<not> is_deleting e" by blast
  qed
qed (use assms(2) in \<open>auto simp: deleted_def\<close>)

interpretation deletion: ranked_rounds "delete_step key caches held" "deletion_inv rank names living key caches"
    deleted rank names for key caches held rank names living
proof
  show "deletion_inv rank names living key caches (delete_step key caches held s r)"
    if "deletion_inv rank names living key caches s" for s r
    by (rule deletion_inv_step [OF that])
  show "deleted (delete_step key caches held s r) r"
    if "deletion_inv rank names living key caches s" "\<And>q. q \<in> names \<Longrightarrow> rank q < rank r \<Longrightarrow> deleted s q" for s r
    using that by (rule turn_deletes)
  show "deleted (delete_step key caches held s r) p"
    if "deletion_inv rank names living key caches s" "deleted s p" for s p r
    using that by (rule delete_step_keeps_deleted)
qed

section \<open>Everything that can happen to the components\<close>

text \<open>
  Components are reconciled from whatever artifact, fail for whatever reason, are removed once their pre-delete
  hook passes, and are edited, created and deleted by users, except those whose names are frozen.
\<close>

inductive life_step :: "request set \<Rightarrow> Component list \<Rightarrow> Component list \<Rightarrow> bool" for frozen where
  Reconciling: "c \<in> set store \<Longrightarrow> \<not> is_deleting c \<Longrightarrow> \<not> rsReady held \<Longrightarrow>
     life_step frozen store (write_status (reconciled (store_Get store) a finish held c) store)"
| Failing: "c \<in> set store \<Longrightarrow> \<not> rsReady held \<Longrightarrow> life_step frozen store (write_status (with_status held c) store)"
| Removing: "c \<in> set store \<Longrightarrow> is_deleting c \<Longrightarrow> cache_serves (set store) key clist \<Longrightarrow>
     makeFuncPreDelete key clist c = Inr () \<Longrightarrow>
     life_step frozen store (filter (\<lambda>d. request_of d \<noteq> request_of c) store)"
| Editing: "distinct (map request_of store') \<Longrightarrow>
     filter (\<lambda>c. request_of c \<in> frozen) store' = filter (\<lambda>c. request_of c \<in> frozen) store \<Longrightarrow>
     life_step frozen store store'"

inductive_cases life_stepE [consumes 1, case_names Reconciling Failing Removing Editing]:
  "life_step frozen store store'"

inductive life_run :: "request set \<Rightarrow> Component list \<Rightarrow> Component list \<Rightarrow> bool" for frozen store where
  Start: "life_run frozen store store"
| More: "life_run frozen store store' \<Longrightarrow> life_step frozen store' store'' \<Longrightarrow> life_run frozen store store''"

lemma life_run_foldl:
  assumes "\<And>s r. P s \<Longrightarrow> P (f s r) \<and> (f s r = s \<or> life_step frozen s (f s r))" "P s"
  shows "life_run frozen s (foldl f s rs)"
proof (induction rs rule: rev_induct)
  case (snoc r rs)
  have "P (foldl f s rs)" using assms by (induction rs rule: rev_induct) simp_all
  with assms(1) [of "foldl f s rs" r] snoc show ?case by (auto intro: life_run.More)
qed (simp add: life_run.Start)

text \<open>The turns of rollouts and deletions are such steps.\<close>

lemma rollout_step_life:
  assumes "\<And>c. \<not> rsReady (held c)"
  shows "rollout_step art finish held store r = store \<or> life_step frozen store (rollout_step art finish held store r)"
proof (cases "store_Get store r")
  case (Inr c)
  with store_Get_Inr [OF Inr] assms show ?thesis by (auto simp: rollout_step_def intro: life_step.Reconciling)
qed (simp add: rollout_step_def)

lemma delete_step_life:
  assumes inv: "deletion_inv rank names living key caches store" and "\<And>c. \<not> rsReady (held c)"
  shows "delete_step key caches held store r = store \<or> life_step frozen store (delete_step key caches held store r)"
proof (cases "store_Get store r")
  case (Inr c)
  from store_Get_Inr [OF Inr] have c: "c \<in> set store" "request_of c = r" by simp_all
  have cache: "cache_serves (set store) key (caches store)"
    using deletion_invD(1,5) [OF inv] unfolding caches_serve_def by blast
  show ?thesis
  proof (cases "is_deleting c")
    case True
    show ?thesis
    proof (cases "makeFuncPreDelete key (caches store) c")
      case (Inl f)
      then show ?thesis using \<open>store_Get store r = Inr c\<close> True life_step.Failing [OF c(1) assms(2)]
        by (simp add: delete_step_def)
    next
      case (Inr u)
      then show ?thesis using \<open>store_Get store r = Inr c\<close> True life_step.Removing [OF c(1) True cache] c(2)
        by (simp add: delete_step_def)
    qed
  qed (use Inr in \<open>simp add: delete_step_def\<close>)
qed (simp add: delete_step_def)

section \<open>Cycles\<close>

text \<open>
  Components are entangled if each of them depends on one of them and has a dependent among them: those of a
  dependency cycle, or a single component that names itself.
\<close>

definition entangled :: "request set \<Rightarrow> Component list \<Rightarrow> bool" where
  "entangled names store \<longleftrightarrow> names \<subseteq> request_of ` set store \<and>
     (\<forall>c \<in> set store. request_of c \<in> names \<longrightarrow>
        (\<exists>r \<in> names. depends_on c r) \<and> (\<exists>d \<in> set store. request_of d \<in> names \<and> depends_on d (request_of c)))"

definition none_ready :: "request set \<Rightarrow> Component list \<Rightarrow> bool" where
  "none_ready names store \<longleftrightarrow> (\<forall>c \<in> set store. request_of c \<in> names \<longrightarrow> \<not> Component_IsReady c)"

definition stuck :: "request set \<Rightarrow> Component list \<Rightarrow> bool" where
  "stuck names store \<longleftrightarrow> distinct (map request_of store) \<and> entangled names store \<and> none_ready names store"

lemma entangled_written:
  assumes "entangled names store"
  shows "entangled names (write_status p store)"
proof -
  have requests: "request_of ` set (write_status p store) = request_of ` set store"
    by (metis write_status_requests set_map)
  have "(\<exists>r \<in> names. depends_on c r) \<and> (\<exists>d \<in> set (write_status p store). request_of d \<in> names \<and> depends_on d (request_of c))"
    if c: "c \<in> set (write_status p store)" "request_of c \<in> names" for c
  proof -
    from written_same_object [OF c(1)] obtain x where x: "x \<in> set store" "coMeta x = coMeta c" "coSpec x = coSpec c" by blast
    note xo = object_facts [OF x(2)]
    from xo(1) c(2) x(1) assms have "\<exists>r \<in> names. depends_on x r"
      and "\<exists>d \<in> set store. request_of d \<in> names \<and> depends_on d (request_of x)" unfolding entangled_def by metis+
    then obtain r d where r: "r \<in> names" "depends_on x r" and d: "d \<in> set store" "request_of d \<in> names" "depends_on d (request_of c)"
      using xo(1) by auto
    have "\<exists>d' \<in> set (write_status p store). request_of d' \<in> names \<and> depends_on d' (request_of c)"
    proof (cases "request_of d = request_of p")
      case True
      have "depends_on (d\<lparr>coStatus := coStatus p\<rparr>) (request_of c)" "request_of (d\<lparr>coStatus := coStatus p\<rparr>) \<in> names"
        using d(2,3) by (simp_all add: depends_on_def dependency_request_name)
      with written_own [OF d(1) True] show ?thesis by blast
    next
      case False
      with written_other [OF d(1)] d show ?thesis by blast
    qed
    with r xo(3) [OF x(3)] show ?thesis by blast
  qed
  with assms requests show ?thesis unfolding entangled_def by metis
qed

lemma stuck_written:
  assumes "stuck names store" "request_of p \<in> names \<Longrightarrow> \<not> rsReady (csStatus (coStatus p))"
  shows "stuck names (write_status p store)"
proof -
  have "\<not> Component_IsReady c" if "c \<in> set (write_status p store)" "request_of c \<in> names" for c
    using that(1)
  proof (cases rule: written_cases)
    case (Same x)
    with that(2) assms(2) show ?thesis by (simp add: Component_IsReady_def)
  next
    case Other
    with that(2) assms(1) show ?thesis by (simp add: stuck_def none_ready_def)
  qed
  moreover have "distinct (map request_of (write_status p store))" "entangled names (write_status p store)"
    using assms(1) entangled_written unfolding stuck_def write_status_requests by blast+
  ultimately show ?thesis by (simp add: stuck_def none_ready_def)
qed

text \<open>A component that depends on one that is not ready does not pass.\<close>

lemma stuck_not_passing:
  assumes "none_ready names store" "depends_on c r" "r \<in> names"
  shows "\<not> hooks_pass (store_Get store) a c"
proof
  assume pass: "hooks_pass (store_Get store) a c"
  from assms(2) obtain d where d: "d \<in> set (spDependencies (coSpec c))" "r = dependency_request c d"
    by (auto simp: depends_on_def)
  with pass have "dependency_met (store_Get store) (set_attempted (with_artifact a c) a) d" by (simp add: hooks_pass_def)
  then obtain x where x: "store_Get store r = Inr x" "Component_IsReady x"
    using d(2) by (auto simp: dependency_met_def dependency_request_name)
  with store_Get_Inr [OF x(1)] assms(1,3) show False by (auto simp: none_ready_def)
qed

lemma stuck_step:
  assumes "life_step names store store'" "stuck names store"
  shows "stuck names store'"
  using assms(1)
proof (cases rule: life_stepE)
  case (Reconciling c held a finish)
  show ?thesis unfolding Reconciling(1)
  proof (rule stuck_written [OF assms(2)])
    assume "request_of (reconciled (store_Get store) a finish held c) \<in> names"
    then have "request_of c \<in> names" by simp
    with assms(2) Reconciling(2) obtain r where r: "r \<in> names" "depends_on c r"
      unfolding stuck_def entangled_def by blast
    with assms(2) have "\<not> hooks_pass (store_Get store) a c"
      using stuck_not_passing [OF _ r(2,1)] by (simp add: stuck_def)
    from reconciled_held [OF this, of finish held] Reconciling(4)
    show "\<not> rsReady (csStatus (coStatus (reconciled (store_Get store) a finish held c)))" by (auto simp: with_status_def)
  qed
next
  case (Failing c held)
  then show ?thesis using stuck_written [OF assms(2), of "with_status held c"] by (simp add: with_status_def)
next
  case (Removing c key clist)
  have "request_of c \<notin> names"
  proof
    assume "request_of c \<in> names"
    with assms(2) Removing(2) obtain d where d: "d \<in> set store" "depends_on d (request_of c)"
      unfolding stuck_def entangled_def by blast
    have "CHR ''/'' \<notin> set (coNamespace c)"
      using cache_servesD(3) [OF Removing(4)] Removing(2) by (auto simp: k8s_component_def)
    moreover from Removing(5) obtain items where l: "clist [MatchingDependency key c] = Inr items"
      by (auto simp: makeFuncPreDelete_def split: sum.splits)
    ultimately have "set items = {d \<in> set store. depends_on d (request_of c)}"
      using dependency_query [OF Removing(4)] by (simp add: depends_on_resolves)
    with d have "items \<noteq> []" by auto
    with l Removing(5) show False by (auto simp: makeFuncPreDelete_def split: list.splits)
  qed
  then have keep: "x \<in> set store' \<longleftrightarrow> x \<in> set store" if "request_of x \<in> names" for x
    using that unfolding Removing(1) set_filter by fastforce
  have "distinct (map request_of store')" using assms(2) unfolding Removing(1) stuck_def by (auto intro: distinct_map_filter)
  moreover have "entangled names store'" "none_ready names store'"
    using assms(2) keep unfolding stuck_def entangled_def none_ready_def image_iff subset_iff by blast+
  ultimately show ?thesis by (simp add: stuck_def)
next
  case Editing
  have keep: "x \<in> set store' \<longleftrightarrow> x \<in> set store" if "request_of x \<in> names" for x
    using that arg_cong [OF Editing(2), of set] unfolding set_filter by blast
  have "entangled names store'" "none_ready names store'"
    using assms(2) keep unfolding stuck_def entangled_def none_ready_def image_iff subset_iff by blast+
  with Editing(1) show ?thesis by (simp add: stuck_def)
qed

lemma stuck_run: "life_run names store store' \<Longrightarrow> stuck names store \<Longrightarrow> stuck names store'"
  by (induction rule: life_run.induct) (auto intro: stuck_step)

section \<open>Properties\<close>

text \<open>
  C5. A rollout comes to its end. The components are not being deleted and have different names; all
  dependencies are among them, without a cycle. Every component's source has, all the time, the same artifact,
  with a digest and a revision that are not empty and that the ones pinned in the spec allow; a dependency
  whose source reference is written alike has an artifact with the same digest and revision. What passes the
  hooks is reported ready in the same turn, and what does not pass is reported not ready. Then, after as many
  rounds as there are components, all of them are ready at their artifacts, whatever their status was before
  and in whatever order a round reconciles them.
\<close>

theorem rollout_completes:
  assumes "distinct (map request_of store)" "acyclic (dependencies store)"
    and "Range (dependencies store) \<subseteq> request_of ` set store"
    and "\<forall>c \<in> set store. source_fits art store c" "reports_ready finish"
    and "\<forall>round \<in> set rounds. request_of ` set store \<subseteq> set round" "length store \<le> length rounds"
    and "\<forall>c. \<not> rsReady (held c)" "store' = foldl (rollout_step art finish held) store (concat rounds)"
  shows "life_run {} store store' \<and> map request_of store' = map request_of store \<and>
    (\<forall>c \<in> set store'. up_to_date c (artDigest (art (request_of c))) (artRevision (art (request_of c))))"
proof -
  let ?names = "request_of ` set store" and ?rank = "reach_rank (dependencies store)"
  have dep: "r \<in> ?names \<and> ?rank r < ?rank (request_of c)" if "c \<in> set store" "depends_on c r" for c r
  proof -
    have "(request_of c, r) \<in> dependencies store" using that by (auto simp: dependencies_def)
    with reach_rank_less [OF finite_dependencies assms(2)] assms(3) show ?thesis by blast
  qed
  have inv: "rollout_inv ?rank ?names art finish store"
    using assms(1,4,5) dep by (simp add: rollout_inv_def)
  have "dependencies store \<subseteq> ?names \<times> Range (dependencies store)" by (auto simp: dependencies_def)
  with assms(3) have "dependencies store \<subseteq> ?names \<times> ?names" by blast
  from reach_rank_bound [OF _ this assms(2)] have "\<forall>q \<in> ?names. ?rank q < card ?names" by simp
  moreover have "card ?names \<le> length rounds" using card_length [of "map request_of store"] assms(7) by simp
  ultimately have "rollout_inv ?rank ?names art finish store' \<and> (\<forall>q \<in> ?names. rolled_out art store' q)"
    using rollout.all_settled [OF inv assms(6)] assms(9) by blast
  moreover have "map request_of (foldl (rollout_step art finish held) store rs) = map request_of store" for rs
    by (induction rs rule: rev_induct) (simp_all add: rollout_step_def split: sum.splits)
  moreover have "life_run {} store store'"
    unfolding assms(9) using rollout_step_life assms(8) by (intro life_run_foldl [where P = "\<lambda>_. True"]) blast+
  ultimately show ?thesis
    using rollout_invD(3) by (fastforce simp: rolled_out_def up_to_date_ready_at art_content_def assms(9))
qed

text \<open>
  C6. A deletion comes to its end: if the components that are being deleted include everything that depends on
  them, and depend on each other without a cycle, then after as many rounds as there are components exactly
  the others are left, and these are unchanged.
\<close>

theorem deletion_completes:
  assumes "distinct (map request_of store)" "\<forall>c \<in> set store. k8s_names c" "caches_serve key caches"
    and "\<forall>c \<in> set store. \<forall>d \<in> set store. is_deleting d \<and> depends_on c (request_of d) \<longrightarrow> is_deleting c"
    and "acyclic (dependencies (filter is_deleting store))"
    and "\<forall>round \<in> set rounds. request_of ` set store \<subseteq> set round" "length store \<le> length rounds"
    and "\<forall>c. \<not> rsReady (held c)" "store' = foldl (delete_step key caches held) store (concat rounds)"
  shows "life_run {} store store' \<and> set store' = {c \<in> set store. \<not> is_deleting c}"
proof -
  let ?names = "request_of ` set store" and ?living = "{c \<in> set store. \<not> is_deleting c}"
  let ?R = "(dependencies (filter is_deleting store) \<inter> ?names \<times> ?names)\<inverse>"
  let ?rank = "reach_rank ?R"
  have R: "finite ?R" "acyclic ?R" "?R \<subseteq> ?names \<times> ?names"
    using assms(5) finite_dependencies [of "filter is_deleting store"]
    by (auto simp: acyclic_converse intro: acyclic_subset)
  have "is_deleting c \<and> ?rank (request_of c) < ?rank (request_of d)"
    if c: "c \<in> set store" "d \<in> set store" "is_deleting d" "depends_on c (request_of d)" for c d
  proof -
    have del: "is_deleting c" using assms(4) c by blast
    with c have "(request_of d, request_of c) \<in> ?R" by (auto simp: dependencies_def)
    with del reach_rank_less [OF R(1,2)] show ?thesis by blast
  qed
  then have inv: "deletion_inv ?rank ?names ?living key caches store"
    unfolding deletion_inv_def using assms(1-3) by blast
  from reach_rank_bound [OF _ R(3,2)] have "\<forall>q \<in> ?names. ?rank q < card ?names" by simp
  moreover have "card ?names \<le> length rounds" using card_length [of "map request_of store"] assms(7) by simp
  ultimately have end_inv: "deletion_inv ?rank ?names ?living key caches store'" and gone: "\<forall>q \<in> ?names. deleted store' q"
    using deletion.all_settled [OF inv assms(6)] assms(9) by blast+
  from gone deletion_invD(3) [OF end_inv] have "\<not> is_deleting c" if "c \<in> set store'" for c
    using that unfolding deleted_def by blast
  moreover have "life_run {} store store'" unfolding assms(9)
  proof (rule life_run_foldl [where P = "deletion_inv ?rank ?names ?living key caches"])
    show "deletion_inv ?rank ?names ?living key caches (delete_step key caches held s r) \<and>
        (delete_step key caches held s r = s \<or> life_step {} s (delete_step key caches held s r))"
      if "deletion_inv ?rank ?names ?living key caches s" for s r
      using deletion_inv_step [OF that] delete_step_life [OF that] assms(8) by blast
  qed (rule inv)
  ultimately show ?thesis using deletion_invD(4) [OF end_inv] by blast
qed

text \<open>
  C7. A dependency cycle is final: components that are entangled and not ready are never removed and never
  become ready, whatever is reconciled, removed and edited besides, from whatever artifacts, until one of them
  is edited.
\<close>

theorem dependency_cycle_is_final:
  assumes "distinct (map request_of store)" "entangled names store" "none_ready names store"
    and "life_run names store store'" "r \<in> names"
  shows "\<exists>c \<in> set store'. request_of c = r \<and> \<not> Component_IsReady c"
proof -
  have "stuck names store'" using stuck_run [OF assms(4)] assms(1-3) by (simp add: stuck_def)
  then have "r \<in> request_of ` set store'" "none_ready names store'" using assms(5) by (auto simp: stuck_def entangled_def)
  with assms(5) show ?thesis by (auto simp: none_ready_def)
qed

end
