(* ===== verification/Orphans.thy ===== *)
theory Orphans
  imports Convergence
begin

text \<open>
  What happens to a blueprint version whose blueprint is gone. \<open>Load\<close> reads the blueprint and then applies the
  version, without an owner reference; only the reconciliation of the blueprint deletes versions, and it
  returns at once when the blueprint is not found.
\<close>

section \<open>Reconciliations spare the versions of other blueprints\<close>

definition version_owner :: "BlueprintVersion \<Rightarrow> NamespacedName" where
  "version_owner v = \<lparr>nnNamespace = bvNamespace v, nnName = bvsBlueprint (bvSpec v)\<rparr>"

text \<open>
  What the client and the finalizer helper promise: objects are found under their names, lists have the
  namespace and blueprint that were asked for, a deletion concerns the one version, an update no version.
\<close>

definition tidy_env :: "('s \<Rightarrow> BlueprintVersion set) \<Rightarrow> 's blueprint_env \<Rightarrow> bool" where
  "tidy_env vers env \<longleftrightarrow>
     (\<forall>s req b. clGetBlueprint (beClient env) s req = Inr b \<longrightarrow> blueprint_key b = req) \<and>
     (\<forall>b. blueprint_key (fst (beAddFinalizer env b meta_Name)) = blueprint_key b) \<and>
     (\<forall>s b s' b'. clUpdateBlueprint (beClient env) s b = (s', Inr b') \<longrightarrow> blueprint_key b' = blueprint_key b) \<and>
     (\<forall>s b. vers s \<subseteq> vers (fst (clUpdateBlueprint (beClient env) s b))) \<and>
     (\<forall>s ns n vs. clListVersions (beClient env) s ns n = Inr vs \<longrightarrow>
        version_owner ` set vs \<subseteq> {\<lparr>nnNamespace = ns, nnName = n\<rparr>}) \<and>
     (\<forall>s v. vers s - {v} \<subseteq> vers (fst (clDeleteVersion (beClient env) s v)))"

lemma tidy_envD:
  assumes "tidy_env vers env"
  shows "clGetBlueprint (beClient env) s req = Inr b \<Longrightarrow> blueprint_key b = req"
    "beAddFinalizer env b meta_Name = (b', x) \<Longrightarrow> blueprint_key b' = blueprint_key b"
    "clUpdateBlueprint (beClient env) s b = (s', Inr b') \<Longrightarrow> blueprint_key b' = blueprint_key b"
    "clUpdateBlueprint (beClient env) s b = (s', res) \<Longrightarrow> v \<in> vers s \<Longrightarrow> v \<in> vers s'"
    "clListVersions (beClient env) s (bpNamespace b) (bpName b) = Inr vs \<Longrightarrow> v \<in> set vs \<Longrightarrow> version_owner v = blueprint_key b"
    "clDeleteVersion (beClient env) s w = (s', e) \<Longrightarrow> v \<in> vers s \<Longrightarrow> v \<noteq> w \<Longrightarrow> v \<in> vers s'"
proof -
  note t = assms [unfolded tidy_env_def]
  note t1 = t [THEN conjunct1] and t2 = t [THEN conjunct2, THEN conjunct1] and t3 = t [THEN conjunct2, THEN conjunct2]
  note t4 = t3 [THEN conjunct2]
  note t5 = t4 [THEN conjunct2]
  show "clGetBlueprint (beClient env) s req = Inr b \<Longrightarrow> blueprint_key b = req"
    using t1 by simp
  show "beAddFinalizer env b meta_Name = (b', x) \<Longrightarrow> blueprint_key b' = blueprint_key b"
    using t2 [rule_format, of b] by simp
  show "clUpdateBlueprint (beClient env) s b = (s', Inr b') \<Longrightarrow> blueprint_key b' = blueprint_key b"
    using t3 [THEN conjunct1, rule_format, of s b s' b'] by simp
  show "clUpdateBlueprint (beClient env) s b = (s', res) \<Longrightarrow> v \<in> vers s \<Longrightarrow> v \<in> vers s'"
    using t4 [THEN conjunct1, rule_format, of s b] by auto
  show "clListVersions (beClient env) s (bpNamespace b) (bpName b) = Inr vs \<Longrightarrow> v \<in> set vs \<Longrightarrow> version_owner v = blueprint_key b"
    using t5 [THEN conjunct1, rule_format, of s "bpNamespace b" "bpName b" vs] by (auto simp: blueprint_key_def)
  show "clDeleteVersion (beClient env) s w = (s', e) \<Longrightarrow> v \<in> vers s \<Longrightarrow> v \<noteq> w \<Longrightarrow> v \<in> vers s'"
    using t5 [THEN conjunct2, rule_format, of s w] by auto
qed

lemma collect_spares:
  assumes "tidy_env vers env"
  shows "v \<in> vers s \<Longrightarrow> v \<notin> set vs \<Longrightarrow> v \<in> vers (fst (collect_versions env s vs n))"
proof (induction vs arbitrary: s n)
  case (Cons w vs)
  show ?case
  proof (cases "clDeleteVersion (beClient env) s w")
    case (Pair s' e)
    have "v \<in> vers s'" by (rule tidy_envD(6) [OF assms Pair]) (use Cons.prems in auto)
    from Cons.IH [OF this, of "n + 1"] Cons.IH [OF Cons.prems(1), of n] Cons.prems Pair this show ?thesis
      by (simp add: collect_versions.simps(2) split: sum.split option.split)
  qed
qed simp

lemma Reconcile_spares:
  assumes "tidy_env vers env" "v \<in> vers s" "version_owner v \<noteq> req \<or> (\<exists>err. clGetBlueprint (beClient env) s req = Inl err)"
  shows "v \<in> vers (fst (Reconcile env s req))"
proof (cases "clGetBlueprint (beClient env) s req")
  case (Inl err)
  with assms(2) show ?thesis by (simp add: Reconcile_def)
next
  case (Inr b0)
  with assms(3) tidy_envD(1) [OF assms(1) Inr] have own: "version_owner v \<noteq> blueprint_key b0" by simp
  obtain s1 r1 where e: "ensure_finalizer env s b0 = (s1, r1)" by (cases "ensure_finalizer env s b0")
  have s1: "v \<in> vers s1"
    using e assms(2) by (auto simp: ensure_finalizer_def split: if_splits prod.splits bool.splits sum.splits
        intro: tidy_envD(4) [OF assms(1)])
  show ?thesis
  proof (cases r1)
    case (Inl f)
    with Inr e s1 show ?thesis by (simp add: Reconcile_def)
  next
    case (Inr b)
    have key: "blueprint_key b = blueprint_key b0"
      using e Inr by (auto simp: ensure_finalizer_def split: if_splits prod.splits bool.splits sum.splits
          dest!: tidy_envD(2) [OF assms(1)] tidy_envD(3) [OF assms(1)])
    show ?thesis
    proof (cases "clListVersions (beClient env) s1 (bpNamespace b) (bpName b)")
      case (Inl f)
      with \<open>clGetBlueprint (beClient env) s req = Inr b0\<close> Inr e s1 show ?thesis by (simp add: Reconcile_def)
    next
      case (Inr vs)
      have "v \<notin> set vs" using tidy_envD(5) [OF assms(1) Inr, of v] own key by auto
      then have s2: "v \<in> vers (fst (collect_versions env s1 vs 0))" by (rule collect_spares [OF assms(1) s1])
      have fin: "v \<in> vers (fst (finish_blueprint env t b vs))" if "v \<in> vers t" for t
        using that by (auto simp: finish_blueprint_def split: prod.splits bool.splits sum.splits
            intro: tidy_envD(4) [OF assms(1)])
      obtain s2 r2 where "collect_versions env s1 vs 0 = (s2, r2)" by (cases "collect_versions env s1 vs 0")
      with s2 fin [of s2] \<open>clGetBlueprint (beClient env) s req = Inr b0\<close> \<open>r1 = Inr b\<close> e Inr show ?thesis
        by (auto simp: Reconcile_def split: sum.splits)
    qed
  qed
qed

section \<open>Orphans stay\<close>

text \<open>The blueprint controller at work: one request after the other, each with the cache and client of its time.\<close>

definition reconcile_all :: "('s blueprint_env \<times> NamespacedName) list \<Rightarrow> 's \<Rightarrow> 's" where
  "reconcile_all turns s = fold (\<lambda>(env, req) s. fst (Reconcile env s req)) turns s"

lemma reconcile_all_spares:
  assumes "\<forall>(env, req) \<in> set turns. tidy_env vers env \<and> (\<forall>s. \<exists>err. clGetBlueprint (beClient env) s (version_owner v) = Inl err)"
    and "v \<in> vers s"
  shows "v \<in> vers (reconcile_all turns s)"
  using assms
proof (induction turns arbitrary: s)
  case (Cons t turns)
  obtain env req where t: "t = (env, req)" by (cases t)
  with Cons.prems have "tidy_env vers env" "\<exists>err. clGetBlueprint (beClient env) s (version_owner v) = Inl err" by auto
  from Reconcile_spares [OF this(1) Cons.prems(2), of req] this(2)
  have "v \<in> vers (fst (Reconcile env s req))" by blast
  with Cons t show ?case by (simp add: reconcile_all_def)
qed (simp add: reconcile_all_def)

text \<open>
  C11. A version that \<open>Load\<close> applies of a blueprint that is gone by then, or goes before its next
  reconciliation, is never deleted: as long as the blueprint is not found, the version is there after any
  sequence of reconciliations of any blueprints, whether a component uses it or not.
\<close>

theorem orphaned_version_stays:
  assumes "Load clnt http s r c = Some (s', Inr (r', c'))"
    and "\<not> is_deleting c" "keep_source c = Inr None" "srBlueprint (coSourceRef c) = Some ref"
    and "\<And>s v s'. clApplyVersion clnt s v = (s', None) \<Longrightarrow> v \<in> vers s'"
    and "\<And>s n b. clGetBlueprint clnt s n = Inr b \<Longrightarrow> blueprint_key b = n"
    and "\<forall>(env, req) \<in> set turns. tidy_env vers env \<and>
      (\<forall>s. \<exists>err. clGetBlueprint (beClient env) s (WithDefaultNamespace ref (coNamespace c)) = Inl err)"
  shows "\<exists>b. clGetBlueprint clnt s (WithDefaultNamespace ref (coNamespace c)) = Inr b \<and>
    make_version b \<in> vers (reconcile_all turns s')"
proof -
  from Load_applies_version [OF assms(1-4)] obtain b
    where b: "clGetBlueprint clnt s (WithDefaultNamespace ref (coNamespace c)) = Inr b"
      "clApplyVersion clnt s (make_version b) = (s', None)" by blast
  have "version_owner (make_version b) = WithDefaultNamespace ref (coNamespace c)"
    using assms(6) [OF b(1)] by (simp add: version_owner_def make_version_def blueprint_key_def)
  with reconcile_all_spares [of turns vers "make_version b" s'] assms(5) [OF b(2)] assms(7)
  have "make_version b \<in> vers (reconcile_all turns s')" by simp
  with b(1) show ?thesis by blast
qed

end
