(* ===== verification/Provenance.thy ===== *)
theory Provenance
  imports Generator System
begin

text \<open>
  Where generators come from: the factory's files, kept well-formed over whole runs of the factory, the call
  that built a cached generator, and the blueprint whose files it was built from. It joins the loading of a
  blueprint (\<open>SourceRef\<close>), the download (\<open>Downloads\<close>) and the cache (\<open>Factory\<close>).
\<close>

section \<open>The files of a subtree\<close>

definition tree_files :: "tree \<Rightarrow> (string list \<rightharpoonup> string)" where
  "tree_files t q = (case map_of t q of Some (FileEntry c) \<Rightarrow> Some c | _ \<Rightarrow> None)"

lemma map_of_subtree:
  assumes "wf_fs fs" "root \<noteq> []" "q \<noteq> []"
  shows "map_of (subtree fs root) q = fs_get fs (root @ q)"
proof -
  define names where "names = filter (\<lambda>p. p \<noteq> root) (walk_names fs root)"
  have names: "p \<in> set names \<longleftrightarrow> prefix root p \<and> p \<noteq> root \<and> fs_get fs p \<noteq> None" for p
    using walk_names_get [OF assms(1,2)] by (auto simp: names_def)
  have lookup: "map_of (map (\<lambda>p. (drop (length root) p, the (fs_get fs p))) ns) q =
      (if root @ q \<in> set ns then Some (the (fs_get fs (root @ q))) else None)"
    if "\<And>p. p \<in> set ns \<Longrightarrow> prefix root p" for ns
    using that
  proof (induction ns)
    case (Cons p ns)
    from Cons.prems have "prefix root p" by simp
    then obtain r where "p = root @ r" by (auto simp: prefix_def)
    with Cons show ?case by auto
  qed simp
  have "map_of (subtree fs root) q = (if root @ q \<in> set names then Some (the (fs_get fs (root @ q))) else None)"
    unfolding subtree_def names_def [symmetric] by (rule lookup) (use names in blast)
  moreover have "root @ q \<in> set names \<longleftrightarrow> fs_get fs (root @ q) \<noteq> None" using names assms(3) by simp
  ultimately show ?thesis by auto
qed

lemma subtree_files:
  assumes "wf_fs fs" "root \<noteq> []" "fs_get fs root = Some DirEntry"
  shows "tree_files (subtree fs root) q = file_at fs (root @ q)"
proof (cases "q = []")
  case True
  have "[] \<notin> fst ` set (subtree fs root)"
    using walk_names_get [OF assms(1,2)] by (auto simp: subtree_def prefix_def)
  then have "map_of (subtree fs root) [] = None" by (simp add: map_of_eq_None_iff)
  with True assms(3) show ?thesis by (simp add: tree_files_def file_at_def)
next
  case False
  with map_of_subtree [OF assms(1,2)] show ?thesis by (simp add: tree_files_def file_at_def)
qed

lemma put_files_relative:
  "put_files d files m (d @ q) = put_files [] files (\<lambda>q. m (d @ q)) q"
proof (induction files arbitrary: m)
  case (Cons f files)
  obtain p c where f: "f = (p, c)" by (cases f)
  have "(\<lambda>q. (m(d @ rel_names p \<mapsto> c)) (d @ q)) = (\<lambda>q. m (d @ q))(rel_names p \<mapsto> c)" by auto
  with Cons f show ?case by (simp add: put_files_def)
qed (simp add: put_files_def)

section \<open>The directory a generator is built in\<close>

definition fresh_dir :: "file_sys \<Rightarrow> string \<Rightarrow> bool" where
  "fresh_dir fs tmp \<longleftrightarrow> target_dir fs tmp \<and> (\<forall>ns. ns \<noteq> [] \<longrightarrow> fs_get fs (resolve tmp @ ns) = None)"

lemma MkdirTemp_fresh:
  assumes "wf_fs fs" "MkdirTemp fs pattern = (fs1, Inr tmp)"
  shows "fresh_dir fs1 tmp"
proof -
  from MkdirTemp_works [OF assms] obtain d where d: "tmp = abs_path d" "plain_list d" "resolve tmp = d" "d \<noteq> []"
    "fs_get fs d = None" "fs1 = fs_put d DirEntry fs" "wf_fs fs1" "fs_get fs1 d = Some DirEntry" .
  have "fs_get fs (d @ ns) = None" if "ns \<noteq> []" for ns
    using wf_above [OF assms(1) _ that, of d] d(5) by (cases "fs_get fs (d @ ns)") auto
  with d show ?thesis by (simp add: fresh_dir_def target_dir_def IsAbs_def abs_path_def fs_get_put)
qed

text \<open>
  Without decryption keys, a generator for a blueprint URL is built by Helm or Kustomize from a tree that
  holds exactly the files of the version the URL names.
\<close>

lemma built_from_version:
  assumes "fresh_dir fs tmp" "key_entries keys = []"
    and "match_blueprint_url url = Some (ns, n, d)" "HasPrefix url blueprint_scheme"
    and "build_generator env s fs tmp url path provider keys = (fs', Inr g)"
  obtains v t where "clGetVersion (feClient env) s \<lparr>nnNamespace = ns, nnName = blueprint_version_name n d\<rparr> = Inr v"
    "tree_files t = put_files [] (bsFiles (bvsSpec (bvSpec v))) Map.empty"
    "feHelm env t path = Inr g \<or> feKustomize env t path None = Inr g"
proof -
  let ?root = "resolve tmp"
  have dec: "make_decryptor env fs provider keys = (fs, Inr None)" using assms(2) by (simp add: make_decryptor_def)
  have tmp: "target_dir fs tmp" using assms(1) by (simp add: fresh_dir_def)
  obtain fs2 e where dl: "download_source env s fs url tmp = (fs2, e)" by (meson surj_pair)
  with assms(5) dec have e: "e = None" and gen: "load_generator env fs2 tmp path None = (fs', Inr g)"
    by (auto simp: build_generator_def decrypt_function_def split: option.splits)
  from dl e assms(3,4) obtain v where v: "clGetVersion (feClient env) s \<lparr>nnNamespace = ns, nnName = blueprint_version_name n d\<rparr> = Inr v"
    and w: "write_files fs tmp (bsFiles (bvsSpec (bvSpec v))) = (fs2, None)"
    by (auto simp: download_source_def downloadBlueprint_def blueprint_version_name_def split: sum.splits)
  from write_files_works [OF tmp w] have below: "works_below ?root fs fs2"
    and files: "file_at fs2 = put_files ?root (bsFiles (bvsSpec (bvSpec v))) (file_at fs)" by simp_all
  have t2: "wf_fs fs2" "?root \<noteq> []" "fs_get fs2 ?root = Some DirEntry"
    using below tmp by (simp_all add: works_below_def target_dir_def)
  have "tree_files (subtree fs2 ?root) = put_files [] (bsFiles (bvsSpec (bvSpec v))) Map.empty"
  proof
    fix q
    have "(\<lambda>q. file_at fs (?root @ q)) = Map.empty"
    proof
      fix q
      show "file_at fs (?root @ q) = None"
        using assms(1) tmp by (cases "q = []") (simp_all add: fresh_dir_def file_at_def target_dir_def)
    qed
    then show "tree_files (subtree fs2 ?root) q = put_files [] (bsFiles (bvsSpec (bvSpec v))) Map.empty q"
      using put_files_relative by (simp add: subtree_files [OF t2] files)
  qed
  moreover have "feHelm env (subtree fs2 ?root) path = Inr g \<or> feKustomize env (subtree fs2 ?root) path None = Inr g"
    using gen by (auto simp: load_generator_def decryptDirectory_def Let_def split: sum.splits os_error.splits entry.splits)
  ultimately show thesis using that v by blast
qed

section \<open>Runs of the factory\<close>

text \<open>Calls whose sources and key imports stay in the directories they are given.\<close>

fun confined :: "('s, 'g, 'v, 'm, 'r, 'k, 'i) factory_input \<Rightarrow> bool" where
  "confined (ExpiryTick now) = True"
| "confined (Call env s now url path digest provider keys) \<longleftrightarrow>
     import_confined (feImport env) \<and> source_confined env url"

text \<open>The generator is one that the call builds in a fresh directory.\<close>

fun builds :: "('s, 'g, 'v, 'm, 'r, 'k, 'i) factory_input \<Rightarrow> 'g \<Rightarrow> bool" where
  "builds (ExpiryTick now) g = False"
| "builds (Call env s now url path digest provider keys) g \<longleftrightarrow>
     (\<exists>fs tmp fs'. fresh_dir fs tmp \<and> build_generator env s fs tmp url path provider keys = (fs', Inr g))"

fun_cases builds_callE [consumes 1, case_names Built]: "builds i g"

lemma GetGenerator_keeps_wf:
  assumes "import_confined (feImport env)" "source_confined env url" "wf_fs fs"
    and "GetGenerator env s now fs items url path digest provider keys = (fs', items', r)"
  shows "wf_fs fs'"
proof (cases "items (generator_id url path digest provider keys)")
  case None
  obtain fs1 m where m: "MkdirTemp fs ''component-operator-'' = (fs1, m)" by (meson surj_pair)
  show ?thesis
  proof (cases m)
    case (Inl e)
    then have "fs1 = fs" using m by (auto simp: MkdirTemp_def Let_def split: if_splits option.splits)
    with assms(3,4) None m Inl show ?thesis by (simp add: GetGenerator_def Let_def)
  next
    case (Inr tmp)
    have t: "target_dir fs1 tmp" using MkdirTemp_fresh [OF assms(3) m [unfolded Inr]] by (simp add: fresh_dir_def)
    obtain fs2 b where b: "build_generator env s fs1 tmp url path provider keys = (fs2, b)" by (meson surj_pair)
    have "fs' = RemoveAll fs2 tmp"
      using assms(4) None m Inr b by (auto simp: GetGenerator_def Let_def split: sum.splits)
    moreover have "wf_fs fs2" using build_generator_below [OF assms(1,2) t b] by (simp add: works_below_def)
    ultimately show ?thesis using wf_RemoveAll t by (simp add: target_dir_def)
  qed
qed (use assms(3,4) in \<open>simp add: GetGenerator_def Let_def\<close>)

lemma GetGenerator_builds:
  assumes "wf_fs fs" "items (generator_id url path digest provider keys) = None"
    and "GetGenerator env s now fs items url path digest provider keys = (fs', items', Inr g)"
  shows "builds (Call env s now url path digest provider keys) g"
proof -
  obtain fs1 m where m: "MkdirTemp fs ''component-operator-'' = (fs1, m)" by (meson surj_pair)
  with assms(2,3) obtain tmp where tmp: "m = Inr tmp" by (auto simp: GetGenerator_def Let_def split: sum.splits)
  obtain fs2 b where b: "build_generator env s fs1 tmp url path provider keys = (fs2, b)" by (meson surj_pair)
  with assms(2,3) m tmp have "b = Inr g" by (auto simp: GetGenerator_def Let_def split: sum.splits)
  with MkdirTemp_fresh [OF assms(1) m [unfolded tmp]] b show ?thesis by auto
qed

text \<open>
  The files stay as they are, and each cached generator was built by an earlier call with the same id.
\<close>

definition factory_inv ::
  "file_sys \<Rightarrow> ('s, 'g, 'v, 'm, 'r, 'k, 'i) factory_input set \<Rightarrow> file_sys \<times> 'g items \<Rightarrow> bool" where
  "factory_inv fs0 calls st \<longleftrightarrow> wf_fs (fst st) \<and> (\<forall>q. fs_get (fst st) q = fs_get fs0 q) \<and>
     (\<forall>ident item. snd st ident = Some item \<longrightarrow>
        (\<exists>i \<in> calls. input_id i = Some ident \<and> builds i (itGenerator item)))"

lemma factory_inv_mono: "factory_inv fs0 calls st \<Longrightarrow> calls \<subseteq> calls' \<Longrightarrow> factory_inv fs0 calls' st"
  unfolding factory_inv_def by blast

lemma factory_inv_call:
  assumes inv: "factory_inv fs0 calls (fs, items)" and ok: "confined (Call env s now url path digest provider keys)"
    and call: "GetGenerator env s now fs items url path digest provider keys = (fs', items', r)"
  shows "factory_inv fs0 (insert (Call env s now url path digest provider keys) calls) (fs', items')"
    (is "factory_inv _ (insert ?i _) _")
proof -
  have wf: "wf_fs fs" and same: "\<And>q. fs_get fs q = fs_get fs0 q" using inv by (simp_all add: factory_inv_def)
  have origin: "\<exists>i \<in> calls. input_id i = Some ident \<and> builds i (itGenerator item)" if "items ident = Some item" for ident item
    using inv that by (auto simp: factory_inv_def)
  have conf: "import_confined (feImport env)" "source_confined env url" using ok by simp_all
  have "\<exists>i \<in> insert ?i calls. input_id i = Some ident \<and> builds i (itGenerator item)" if item: "items' ident = Some item" for ident item
    using call
  proof (cases rule: GetGenerator_items)
    case (Hit old)
    with item obtain x where x: "items ident = Some x" "itGenerator item = itGenerator x"
      by (auto simp: item_touch_def split: if_splits)
    from origin [OF x(1)] x(2) show ?thesis by auto
  next
    case (Stored g)
    show ?thesis
    proof (cases "ident = generator_id url path digest provider keys")
      case True
      with item Stored(3) have "itGenerator item = g" by (auto simp: item_put_def)
      moreover have "builds ?i g" by (rule GetGenerator_builds [OF wf Stored(1) call [unfolded Stored(2)]])
      ultimately show ?thesis using True by simp
    next
      case False
      with item Stored(3) have "items ident = Some item" by (simp add: item_put_def)
      from origin [OF this] show ?thesis by blast
    qed
  next
    case (Failed e)
    with item origin show ?thesis by blast
  qed
  moreover have "wf_fs fs'" by (rule GetGenerator_keeps_wf [OF conf wf call])
  moreover have "fs_get fs' q = fs_get fs0 q" for q using GetGenerator_leaves_no_files [OF conf wf call] same by simp
  ultimately show ?thesis by (simp add: factory_inv_def)
qed

lemma factory_inv_step:
  assumes "factory_step st i st'" "factory_inv fs0 calls st" "confined i"
  shows "factory_inv fs0 (insert i calls) st'"
  using assms(1)
proof (cases rule: factory_step.cases)
  case (step_expiry fs items now)
  have "snd st ident = Some item" if "snd st' ident = Some item" for ident item
    using that step_expiry by (auto simp: expire_def split: option.splits if_splits)
  with assms(2) step_expiry show ?thesis unfolding factory_inv_def by auto
next
  case (step_call env s now fs items url path digest provider keys fs' items' r)
  show ?thesis unfolding step_call(2,3)
    by (rule factory_inv_call [OF _ _ step_call(4)]) (use assms(2,3) step_call(1,2) in simp_all)
qed

lemma factory_inv_run:
  assumes "factory_run st ins st'" "factory_inv fs0 calls st" "\<forall>i \<in> set ins. confined i"
  shows "factory_inv fs0 (calls \<union> set ins) st'"
  using assms
proof (induction arbitrary: calls rule: factory_run.induct)
  case (run_step st i st' ins st'')
  then have "factory_inv fs0 (insert i calls) st'" by (intro factory_inv_step) simp_all
  with run_step.IH run_step.prems(2) have "factory_inv fs0 (insert i calls \<union> set ins) st''" by (metis list.set_intros(2))
  then show ?case by (rule factory_inv_mono) auto
qed simp

section \<open>Properties\<close>

text \<open>
  C16. Over every run of a new factory whose calls are confined (the entries of the archives and the imported
  keys stay in the directories they are given), with calls that fail or not and with expiry ticks, a
  well-formed file system stays well-formed and every path in it stays as it was, and each generator in the
  cache is one that a call of the run with the same id has built.
\<close>

theorem factory_runs_keep_files:
  assumes "factory_run (fs, new_items) ins (fs', items')" "wf_fs fs" "\<forall>i \<in> set ins. confined i"
  shows "wf_fs fs' \<and> (\<forall>q. fs_get fs' q = fs_get fs q) \<and>
    (\<forall>ident item. items' ident = Some item \<longrightarrow> (\<exists>i \<in> set ins. input_id i = Some ident \<and> builds i (itGenerator item)))"
proof -
  have "factory_inv fs {} (fs, new_items)" using assms(2) by (simp add: factory_inv_def new_items_def)
  from factory_inv_run [OF assms(1) this assms(3)] show ?thesis by (simp add: factory_inv_def)
qed

section \<open>The versions in the cluster\<close>

text \<open>
  What the API server does with versions: one that is read after an apply call was there before or has the
  specification of the applied object; and the files of stored blueprints are UTF-8 texts under pairwise
  different names.
\<close>

definition stores_applied :: "'s client \<Rightarrow> bool" where
  "stores_applied clnt \<longleftrightarrow>
     (\<forall>s v s' e n w. clApplyVersion clnt s v = (s', e) \<longrightarrow> clGetVersion clnt s' n = Inr w \<longrightarrow>
        clGetVersion clnt s n = Inr w \<or> (n = version_key v \<and> bvSpec w = bvSpec v)) \<and>
     (\<forall>s n b. clGetBlueprint clnt s n = Inr b \<longrightarrow> files_ok (bpSpec b))"

text \<open>
  Cluster states in which the program alone has written blueprint versions: it begins without any, loads
  components (of any kind, with success or not), and in between versions may disappear and everything else
  may change.
\<close>

inductive operated :: "'s client \<Rightarrow> 's \<Rightarrow> bool" for clnt where
  NoVersions: "(\<And>n v. clGetVersion clnt s n \<noteq> Inr v) \<Longrightarrow> operated clnt s"
| Loads: "operated clnt s \<Longrightarrow> Load clnt http s r c = Some (s', res) \<Longrightarrow> operated clnt s'"
| Changes: "operated clnt s \<Longrightarrow>
     (\<And>n v. clGetVersion clnt s' n = Inr v \<Longrightarrow> \<exists>w. clGetVersion clnt s n = Inr w \<and> bvSpec v = bvSpec w) \<Longrightarrow> operated clnt s'"

text \<open>Then every version is one that \<open>make_version\<close> made of a blueprint, under the name it gave it.\<close>

definition versions_made :: "'s client \<Rightarrow> 's \<Rightarrow> bool" where
  "versions_made clnt s \<longleftrightarrow> (\<forall>n v. clGetVersion clnt s n = Inr v \<longrightarrow>
     (\<exists>b. files_ok (bpSpec b) \<and> n = version_key (make_version b) \<and> bvSpec v = bvSpec (make_version b)))"

lemma Load_applies_made:
  assumes "Load clnt http s r c = Some (s', res)"
  shows "s' = s \<or> (\<exists>n b e. clGetBlueprint clnt s n = Inr b \<and> clApplyVersion clnt s (make_version b) = (s', e))"
  using assms by (auto simp: Load_def load_source_def load_blueprint_def split: if_splits sum.splits option.splits prod.splits)

lemma operated_made:
  assumes "stores_applied clnt" "operated clnt s"
  shows "versions_made clnt s"
  using assms(2)
proof (induction rule: operated.induct)
  case (NoVersions s)
  then show ?case by (simp add: versions_made_def)
next
  case (Loads s http r c s' res)
  from Load_applies_made [OF Loads.hyps(2)] show ?case
  proof (elim disjE exE conjE)
    fix n b e
    assume b: "clGetBlueprint clnt s n = Inr b" and applied: "clApplyVersion clnt s (make_version b) = (s', e)"
    have ok: "files_ok (bpSpec b)" using assms(1) b unfolding stores_applied_def by blast
    have "clGetVersion clnt s m = Inr w \<or> (m = version_key (make_version b) \<and> bvSpec w = bvSpec (make_version b))"
      if "clGetVersion clnt s' m = Inr w" for m w
      using assms(1) applied that unfolding stores_applied_def by blast
    with ok Loads.IH show ?case unfolding versions_made_def by blast
  qed (use Loads.IH in simp)
next
  case (Changes s s')
  then show ?case unfolding versions_made_def by metis
qed

text \<open>A call as the program makes it, on a cluster it has written the versions of, whose encoded keys have no SHA-256 collision with the given ones.\<close>

fun sound_call :: "keys \<Rightarrow> ('s, 'g, 'v, 'm, 'r, 'k, 'i) factory_input \<Rightarrow> bool" where
  "sound_call keys (ExpiryTick now) = True"
| "sound_call keys (Call env s now url path digest provider keys') \<longleftrightarrow>
     confined (Call env s now url path digest provider keys') \<and> stores_applied (feClient env) \<and> operated (feClient env) s \<and>
     CHR 0x0A \<notin> set (url @ digest @ path) \<and> keys_ok keys' \<and>
     \<not> sha_collision (digest_text [keys_json keys']) (digest_text [keys_json keys])"

lemma sound_confined: "sound_call keys i \<Longrightarrow> confined i"
  by (cases i) auto

lemma same_keys_empty: "same_keys keys keys' \<Longrightarrow> key_entries keys' = [] \<Longrightarrow> key_entries keys = []"
  by (cases keys; cases keys') (auto simp: same_keys_def key_entries_def dest: map_of_eq_empty_iff [THEN iffD1])

lemma made_version_files: "bvsSpec (bvSpec (make_version b)) = bpSpec b"
  by (simp add: make_version_def)

lemma version_digest:
  assumes "\<lparr>nnNamespace = ns, nnName = blueprint_version_name n (GetDigest b)\<rparr> = version_key (make_version b')"
  shows "GetDigest b = GetDigest b'"
proof -
  have "n @ ''--'' @ GetDigest b = bpName b' @ ''--'' @ GetDigest b'"
    using assms by (simp add: version_key_def make_version_def blueprint_version_name_def)
  then have "(n @ ''--'') @ GetDigest b = (bpName b' @ ''--'') @ GetDigest b'" by simp
  moreover have "length (GetDigest b) = length (GetDigest b')" by (simp add: GetDigest_def calculateDigest_length)
  ultimately show ?thesis using append_eq_append_conv [of "n @ ''--''" "bpName b' @ ''--''"] by blast
qed

definition call_env :: "('s, 'g, 'v, 'm, 'r, 'k, 'i) factory_input \<Rightarrow> ('s, 'g, 'v, 'm, 'r, 'k, 'i) factory_env option" where
  "call_env i = (case i of ExpiryTick _ \<Rightarrow> None | Call env _ _ _ _ _ _ _ \<Rightarrow> Some env)"

text \<open>The tree holds the files of a blueprint, up to a SHA-256 collision between their encodings.\<close>

definition holds_blueprint :: "tree \<Rightarrow> Blueprint \<Rightarrow> bool" where
  "holds_blueprint t b \<longleftrightarrow> (\<exists>files. tree_files t = put_files [] files Map.empty \<and>
     (map_of files = map_of (bsFiles (bpSpec b)) \<or>
      sha_collision (digest_text [BlueprintSpec_json (bpSpec b)]) (digest_text [BlueprintSpec_json \<lparr>bsFiles = files\<rparr>])))"

lemma built_from_blueprint:
  assumes "builds (Call env s now (artUrl (blueprint_artifact b)) path digest provider keys) g"
    and "k8s_blueprint b" "files_ok (bpSpec b)" "key_entries keys = []" "versions_made (feClient env) s"
  shows "\<exists>t. holds_blueprint t b \<and> (feHelm env t path = Inr g \<or> feKustomize env t path None = Inr g)"
proof -
  let ?url = "blueprint_url (bpNamespace b) (bpName b) (GetDigest b)"
  have url: "artUrl (blueprint_artifact b) = ?url" by (simp add: blueprint_artifact_def)
  with assms(1) obtain fs tmp fs' where fresh: "fresh_dir fs tmp"
    and build: "build_generator env s fs tmp ?url path provider keys = (fs', Inr g)" by auto
  have match: "match_blueprint_url ?url = Some (bpNamespace b, bpName b, GetDigest b)"
    using assms(2) GetDigest_plain [of b] match_blueprint_url_url by (simp add: k8s_blueprint_def)
  have scheme: "HasPrefix ?url blueprint_scheme" by (simp add: blueprint_url_def blueprint_scheme_def HasPrefix_def)
  from built_from_version [OF fresh assms(4) match scheme build] obtain v t where
    v: "clGetVersion (feClient env) s \<lparr>nnNamespace = bpNamespace b, nnName = blueprint_version_name (bpName b) (GetDigest b)\<rparr> = Inr v"
    and t: "tree_files t = put_files [] (bsFiles (bvsSpec (bvSpec v))) Map.empty"
      "feHelm env t path = Inr g \<or> feKustomize env t path None = Inr g" .
  from assms(5) v obtain b' where b': "files_ok (bpSpec b')" "bvsSpec (bvSpec v) = bpSpec b'"
    "GetDigest b = GetDigest b'" unfolding versions_made_def using version_digest made_version_files by metis
  have "map_of (bsFiles (bpSpec b)) = map_of (bsFiles (bpSpec b')) \<or>
      sha_collision (digest_text [BlueprintSpec_json (bpSpec b)]) (digest_text [BlueprintSpec_json (bpSpec b')])"
    using b'(1,3) assms(3) BlueprintSpec_json_ok BlueprintSpec_json_eq [OF assms(3) b'(1)]
    by (simp add: GetDigest_def calculateDigest_eq_iff)
  moreover have "bpSpec b' = \<lparr>bsFiles = bsFiles (bpSpec b')\<rparr>" by simp
  ultimately have "holds_blueprint t b" unfolding holds_blueprint_def using t(1) b'(2) by metis
  with t(2) show ?thesis by blast
qed

text \<open>
  C4. What is rendered for a component without decryption keys is its blueprint: when \<open>Load\<close> has loaded the
  blueprint of a living component and the factory returns a generator for the reference it reported, newly
  built or cached since whatever earlier run, then that generator was built, by Helm or Kustomize, from a
  tree that holds exactly the files the blueprint had when it was loaded, up to SHA-256 collisions. The calls
  of the run are on clusters whose versions were all written by \<open>Load\<close>, their archives and key imports stay in
  their directories, and their URLs, digests and paths have no newlines; the API server returns a version
  with the specification that was applied.
\<close>

theorem generator_has_blueprint_files:
  assumes "Load clnt http s r c = Some (s', Inr (r', c'))"
    and "\<not> is_deleting c" "keep_source c = Inr None" "srBlueprint (coSourceRef c) = Some ref"
    and "\<And>n b. clGetBlueprint clnt s n = Inr b \<Longrightarrow> k8s_blueprint b \<and> files_ok (bpSpec b)"
    and "factory_run (fs, new_items) ins (fs1, items1)" "wf_fs fs" "\<forall>i \<in> set ins. sound_call keys i"
    and "sound_call keys (Call env t now (artUrl (srArtifact r')) path (artDigest (srArtifact r')) provider keys)"
    and "key_entries keys = []"
    and "GetGenerator env t now fs1 items1 (artUrl (srArtifact r')) path (artDigest (srArtifact r')) provider keys =
      (fs2, items2, Inr g)"
  shows "\<exists>b env' tree. clGetBlueprint clnt s (WithDefaultNamespace ref (coNamespace c)) = Inr b \<and>
    (env' = env \<or> Some env' \<in> call_env ` set ins) \<and> holds_blueprint tree b \<and>
    (feHelm env' tree path = Inr g \<or> feKustomize env' tree path None = Inr g)"
proof -
  from Load_applies_version [OF assms(1-4)] obtain b where b: "clGetBlueprint clnt s (WithDefaultNamespace ref (coNamespace c)) = Inr b"
    and art: "srArtifact r' = blueprint_artifact b" by metis
  have ok: "k8s_blueprint b" "files_ok (bpSpec b)" using assms(5) [OF b] by simp_all
  let ?url = "artUrl (srArtifact r')" and ?digest = "artDigest (srArtifact r')"
  let ?i = "Call env t now ?url path ?digest provider keys"
  let ?id = "generator_id ?url path ?digest provider keys"
  have confined: "\<forall>i \<in> set ins. confined i" using assms(8) sound_confined by blast
  have "factory_inv fs {} (fs, new_items)" using assms(7) by (simp add: factory_inv_def new_items_def)
  from factory_inv_run [OF assms(6) this confined] have inv: "factory_inv fs (set ins) (fs1, items1)" by simp
  from factory_inv_call [OF inv _ assms(11)] assms(9) have inv2: "factory_inv fs (insert ?i (set ins)) (fs2, items2)" by simp
  obtain item where item: "items2 ?id = Some item" "itGenerator item = g"
    using assms(11) by (cases rule: GetGenerator_items) (auto simp: item_touch_def item_put_def)
  from inv2 have "\<exists>j \<in> insert ?i (set ins). input_id j = Some ?id \<and> builds j (itGenerator item)"
    unfolding factory_inv_def snd_conv using item(1) by blast
  then obtain j where j: "j \<in> insert ?i (set ins)" "input_id j = Some ?id" "builds j g" unfolding item(2) by blast
  from j(1) assms(8,9) have sound: "sound_call keys j" by blast
  from j(3) obtain env' s1 now' url path' digest provider' keys' where
    jc: "j = Call env' s1 now' url path' digest provider' keys'" by (rule builds_callE)
  from sound jc assms(9) j(2) generator_id_sources [of url digest path' ?url ?digest path keys' keys provider' provider]
  have same: "url = ?url" "path' = path" "same_keys keys' keys"
    "stores_applied (feClient env')" "operated (feClient env') s1" by auto
  have "\<exists>t. holds_blueprint t b \<and> (feHelm env' t path = Inr g \<or> feKustomize env' t path None = Inr g)"
    by (rule built_from_blueprint [OF _ ok same_keys_empty [OF same(3) assms(10)] operated_made [OF same(4,5)]])
      (use j(3) jc same(1,2) art in simp)
  moreover have "env' = env \<or> Some env' \<in> call_env ` set ins"
    using j(1) jc by (auto simp: call_env_def image_iff intro: bexI [of _ j])
  ultimately show ?thesis using b by blast
qed

end
