(* ===== verification/SystemWitnesses.thy ===== *)
theory SystemWitnesses
  imports Witnesses Polling Dependencies Orphans Provenance
begin

text \<open>
  The properties of \<open>Dependencies\<close> on two components: \<open>ns/c2\<close> depends on \<open>ns/c1\<close>, both rolled out or both being
  deleted; and a component that names itself as its dependency. The properties of \<open>Provenance\<close> on the blueprint
  of \<open>Witnesses\<close>, whose generator is built and taken from the cache afterwards. The property of \<open>Polling\<close> on a
  component whose http repository moves to a new revision. The one of \<open>Orphans\<close> on the version that \<open>ns/c1\<close> loads,
  whose blueprint is gone afterwards.
\<close>

lemma sample_requests [simp]:
  "request_of sample_c1 = \<lparr>nnNamespace = ''ns'', nnName = ''c1''\<rparr>"
  "request_of sample_c2 = \<lparr>nnNamespace = ''ns'', nnName = ''c2''\<rparr>"
  by (simp_all add: request_of_def)

lemma sample_dependency_lists [simp]:
  "spDependencies (coSpec sample_c1) = []" "spDependencies (coSpec sample_c2) = [\<lparr>nnNamespace = [], nnName = ''c1''\<rparr>]"
  by (simp_all add: sample_components)

lemma sample_dependencies [simp]:
  "depends_on sample_c1 = (\<lambda>r. False)" "depends_on sample_c2 = (\<lambda>r. r = \<lparr>nnNamespace = ''ns'', nnName = ''c1''\<rparr>)"
  by (simp_all add: fun_eq_iff depends_on_def dependency_request_name WithDefaultNamespace_def)

section \<open>A rollout\<close>

definition sample_artifact :: Artifact where
  "sample_artifact = \<lparr>artUrl = ''u'', artDigest = ''d'', artRevision = ''r''\<rparr>"

definition finished :: "Component \<Rightarrow> RuntimeStatus" where
  "finished c = \<lparr>rsObservedGeneration = omGeneration (coMeta c), rsLastObservedAt = None, rsProcessingSince = None, rsReady = True\<rparr>"

definition pending :: "Component \<Rightarrow> RuntimeStatus" where
  "pending c = \<lparr>rsObservedGeneration = omGeneration (coMeta c), rsLastObservedAt = None, rsProcessingSince = None, rsReady = False\<rparr>"

lemma acyclic_empty: "acyclic {}"
  by (simp add: acyclic_def)

definition sample_rounds :: "request list list" where
  "sample_rounds = replicate 2 [request_of sample_c2, request_of sample_c1]"

theorem rollout_completes_witness:
  "\<exists>store'. store' = foldl (rollout_step (\<lambda>_. sample_artifact) finished pending) [sample_c1, sample_c2] (concat sample_rounds) \<and>
     life_run {} [sample_c1, sample_c2] store' \<and> map request_of store' = map request_of [sample_c1, sample_c2] \<and>
     (\<forall>c \<in> set store'. up_to_date c (artDigest sample_artifact) (artRevision sample_artifact))"
proof -
  have fits: "source_fits (\<lambda>_. sample_artifact) [sample_c1, sample_c2] c" if "c \<in> set [sample_c1, sample_c2]" for c
    using that by (auto simp: source_fits_def sample_artifact_def makeFuncPostRead_def with_artifact_def
        sample_components is_deleting_def IsZero_def)
  have "life_run {} [sample_c1, sample_c2] store' \<and> map request_of store' = map request_of [sample_c1, sample_c2] \<and>
     (\<forall>c \<in> set store'. up_to_date c (artDigest sample_artifact) (artRevision sample_artifact))"
    if "store' = foldl (rollout_step (\<lambda>_. sample_artifact) finished pending) [sample_c1, sample_c2] (concat sample_rounds)" for store'
    by (rule rollout_completes [OF _ _ _ _ _ _ _ _ that])
      (use fits in \<open>simp_all add: acyclic_empty reports_ready_def finished_def pending_def sample_rounds_def\<close>)
  then show ?thesis by blast
qed

section \<open>A deletion\<close>

definition leaving :: "Component \<Rightarrow> Component" where
  "leaving c = c\<lparr>coMeta := (coMeta c)\<lparr>omDeletionTimestamp := Some 1\<rparr>\<rparr>"

lemma leaving_facts [simp]:
  "request_of (leaving c) = request_of c" "is_deleting (leaving c)" "k8s_names (leaving c) = k8s_names c"
  "depends_on (leaving c) r = depends_on c r"
  by (simp_all add: leaving_def request_of_def is_deleting_def IsZero_def k8s_names_def k8s_component_def
      depends_on_def dependency_request_name)

lemma list_caches_serve: "caches_serve slash_key list_cache"
  by (simp add: caches_serve_def list_cache_serves)

text \<open>A living component \<open>ns/c1\<close> in another store stays.\<close>

definition other_c :: Component where
  "other_c = sample_c1\<lparr>coMeta := sample_meta ''ns'' ''c3''\<rparr>"

lemma other_c_facts [simp]:
  "request_of other_c = \<lparr>nnNamespace = ''ns'', nnName = ''c3''\<rparr>" "\<not> is_deleting other_c" "k8s_names other_c"
  "\<not> depends_on other_c r"
  by (simp_all add: other_c_def request_of_def is_deleting_def IsZero_def k8s_names_def k8s_component_def depends_on_def
      sample_components opt_list_def k8s_reference_def)

definition leaving_store :: "Component list" where
  "leaving_store = [leaving sample_c1, other_c, leaving sample_c2]"

theorem deletion_completes_witness:
  "life_run {} leaving_store (foldl (delete_step slash_key list_cache pending) leaving_store
     (concat (replicate 3 (sorted_round leaving_store)))) \<and>
   set (foldl (delete_step slash_key list_cache pending) leaving_store
     (concat (replicate 3 (sorted_round leaving_store)))) = {c \<in> set leaving_store. \<not> is_deleting c}"
proof (rule deletion_completes)
  show "acyclic (dependencies (filter is_deleting leaving_store))"
    by (simp add: leaving_store_def acyclic_empty)
  show "\<forall>round \<in> set (replicate 3 (sorted_round leaving_store)). request_of ` set leaving_store \<subseteq> set round"
    by (rule sorted_rounds_cover)
qed (auto simp: leaving_store_def list_caches_serve pending_def)

section \<open>A cycle\<close>

definition own_dependency :: Component where
  "own_dependency = sample_c1\<lparr>coSpec := (coSpec sample_c1)\<lparr>spDependencies := [\<lparr>nnNamespace = [], nnName = ''c1''\<rparr>]\<rparr>,
     coStatus := (coStatus sample_c1)\<lparr>csStatus := pending sample_c1\<rparr>\<rparr>"

lemma own_dependency_facts:
  "request_of own_dependency = \<lparr>nnNamespace = ''ns'', nnName = ''c1''\<rparr>" "\<not> Component_IsReady own_dependency"
  "\<not> is_deleting own_dependency" "depends_on own_dependency \<lparr>nnNamespace = ''ns'', nnName = ''c1''\<rparr>"
  by (simp_all add: own_dependency_def request_of_def Component_IsReady_def pending_def is_deleting_def IsZero_def
      depends_on_def dependency_request_name WithDefaultNamespace_def sample_components)

text \<open>It is reconciled from an artifact of its source, and the framework would report it as ready.\<close>

definition own_store :: "Component list" where
  "own_store = write_status (reconciled (store_Get [own_dependency]) sample_artifact (finished own_dependency)
     (pending own_dependency) own_dependency) [own_dependency]"

theorem dependency_cycle_is_final_witness:
  "\<exists>c \<in> set own_store. request_of c = \<lparr>nnNamespace = ''ns'', nnName = ''c1''\<rparr> \<and> \<not> Component_IsReady c"
proof (rule dependency_cycle_is_final)
  let ?names = "{\<lparr>nnNamespace = ''ns'', nnName = ''c1''\<rparr>}"
  show "entangled ?names [own_dependency]" "none_ready ?names [own_dependency]"
    by (simp_all add: entangled_def none_ready_def own_dependency_facts)
  have "life_step ?names [own_dependency] own_store" unfolding own_store_def
    by (rule life_step.Reconciling) (simp_all add: own_dependency_facts pending_def)
  then show "life_run ?names [own_dependency] own_store" by (rule life_run.More [OF life_run.Start])
qed simp_all

section \<open>A generator and its blueprint\<close>

abbreviation app_url :: string where "app_url \<equiv> artUrl (srArtifact loaded_ref)"
abbreviation app_digest :: string where "app_digest \<equiv> artDigest (srArtifact loaded_ref)"

lemma app_url_parts: "app_url = blueprint_url ''ns'' ''app'' (GetDigest sample_app)" "app_digest = GetDigest sample_app"
  by (simp_all add: loaded_ref_def app_status_def blueprint_artifact_def)

abbreviation work_disk :: file_sys where "work_disk \<equiv> fs_put [''component-operator-''] DirEntry disk_t"

lemma app_files_loaded:
  "snd (write_files work_disk work_dir [(''a.yaml'', ''x'')]) = None"
  "snd (load_generator demo_env (fst (write_files work_disk work_dir [(''a.yaml'', ''x'')])) work_dir [] None) = Inr ''kustomize''"
  by code_simp+

lemma app_downloaded:
  "download_source demo_env [make_version sample_app] work_disk app_url work_dir = write_files work_disk work_dir [(''a.yaml'', ''x'')]"
proof -
  have "bsFiles (bvsSpec (bvSpec (make_version sample_app))) = [(''a.yaml'', ''x'')]"
    by (simp add: make_version_def sample_app_def)
  moreover have "HasPrefix app_url blueprint_scheme"
    by (simp add: app_url_parts blueprint_url_def blueprint_scheme_def HasPrefix_def)
  moreover have "match_blueprint_url app_url = Some (''ns'', ''app'', GetDigest sample_app)"
    using match_blueprint_url_url [of "''ns''" "''app''" "GetDigest sample_app"] GetDigest_plain [of sample_app]
    by (simp add: app_url_parts)
  moreover have "feClient demo_env = list_client" by (simp add: demo_env_def)
  ultimately show ?thesis using app_version_found
    by (simp add: download_source_def downloadBlueprint_def blueprint_version_name_def)
qed

lemma app_built: "\<exists>fs. build_generator demo_env [make_version sample_app] work_disk work_dir app_url [] [] None = (fs, Inr ''kustomize'')"
proof -
  obtain fs2 where w: "write_files work_disk work_dir [(''a.yaml'', ''x'')] = (fs2, None)"
    using app_files_loaded(1) by (metis prod.collapse)
  with app_files_loaded(2) obtain fs3 where "load_generator demo_env fs2 work_dir [] None = (fs3, Inr ''kustomize'')"
    by (metis fst_conv prod.collapse)
  with w show ?thesis
    by (simp add: build_generator_def make_decryptor_def key_entries_def decrypt_function_def app_downloaded)
qed

definition app_call :: "file_sys \<times> string items \<times> (error + string)" where
  "app_call = GetGenerator demo_env [make_version sample_app] 0 disk_t new_items app_url [] app_digest [] None"

abbreviation app_input :: "(BlueprintVersion list, string, unit, unit, unit, unit, unit) factory_input" where
  "app_input \<equiv> Call demo_env [make_version sample_app] 0 app_url [] app_digest [] None"

lemma app_call_ok: "snd (snd app_call) = Inr ''kustomize''"
  using app_built by (auto simp: app_call_def GetGenerator_def Let_def work_dir_made new_items_def)

lemma app_call_result:
  "GetGenerator demo_env [make_version sample_app] 0 disk_t new_items app_url [] app_digest [] None =
     (fst app_call, fst (snd app_call), Inr ''kustomize'')"
  using app_call_ok by (metis app_call_def prod.collapse)

lemma app_run: "factory_run (disk_t, new_items) [app_input, ExpiryTick 50] (fst app_call, expire 50 (fst (snd app_call)))"
  by (rule run_step [OF step_call [OF app_call_result] run_step [OF step_expiry run_none]])

theorem factory_runs_keep_files_witness:
  "wf_fs (fst app_call) \<and> (\<forall>q. fs_get (fst app_call) q = fs_get disk_t q) \<and>
    (\<exists>items. items = expire 50 (fst (snd app_call)) \<and>
      (\<forall>ident item. items ident = Some item \<longrightarrow>
        (\<exists>i \<in> set [app_input, ExpiryTick 50]. input_id i = Some ident \<and> builds i (itGenerator item))))"
proof -
  have "source_confined demo_env app_url"
    by (simp add: source_confined_def app_url_parts blueprint_url_def blueprint_scheme_def HasPrefix_def)
  then have "\<forall>i \<in> set [app_input, ExpiryTick 50]. confined i" using demo_confined(1) by simp
  from factory_runs_keep_files [OF app_run wf_disk(2) this] show ?thesis by blast
qed

lemma app_files_ok: "files_ok (bpSpec sample_app)"
  by (simp add: files_ok_def sample_app_def ascii_utf8 between_def)

lemma app_sound: "sound_call None (Call demo_env [make_version sample_app] now app_url [] app_digest [] None)"
proof -
  have conf: "source_confined demo_env app_url"
    by (simp add: source_confined_def app_url_parts blueprint_url_def blueprint_scheme_def HasPrefix_def)
  have "stores_applied list_client" by (auto simp: stores_applied_def list_client_def app_files_ok split: if_splits)
  moreover have "operated list_client [make_version sample_app]"
    by (rule operated.Loads [OF operated.NoVersions load_c1]) (simp add: list_client_def)
  moreover have "CHR 0x0A \<notin> set (app_url @ app_digest)"
    using calculateDigest_plain(3) by (simp add: app_url_parts blueprint_url_def GetDigest_def)
  ultimately show ?thesis using conf demo_confined(1)
    by (simp add: demo_env_def keys_ok_def key_entries_def sha_collision_def)
qed

text \<open>The generator is taken from the cache, after its first call and a tick.\<close>

theorem generator_has_blueprint_files_witness:
  "\<exists>b env' tree. clGetBlueprint list_client [] (WithDefaultNamespace app_ref (coNamespace sample_c1)) = Inr b \<and>
    (env' = demo_env \<or> Some env' \<in> call_env ` set [app_input, ExpiryTick 50]) \<and> holds_blueprint tree b \<and>
    (feHelm env' tree [] = Inr ''kustomize'' \<or> feKustomize env' tree [] None = Inr ''kustomize'')"
proof -
  obtain items2 where second: "GetGenerator demo_env [make_version sample_app] 100 (fst app_call) (expire 50 (fst (snd app_call)))
      app_url [] app_digest [] None = (fst app_call, items2, Inr ''kustomize'')"
  proof -
    have "item_store.fresh 0 (generator_id app_url [] app_digest [] None) ''kustomize'' (fst (snd app_call))"
      using app_call_result
      by (cases rule: GetGenerator_items) (simp_all add: item_store.fresh_put new_items_def)
    then have "item_store.fresh 0 (generator_id app_url [] app_digest [] None) ''kustomize'' (expire 50 (fst (snd app_call)))"
      by (rule item_store.fresh_sweep) (simp add: validity_def)
    then show thesis using that by (auto simp: item_store.fresh_def find_item_def GetGenerator_def Let_def)
  qed
  show ?thesis
  proof (rule generator_has_blueprint_files [OF load_c1 _ _ _ _ app_run wf_disk(2) _ _ _ second])
    show "k8s_blueprint b \<and> files_ok (bpSpec b)" if "clGetBlueprint list_client [] n = Inr b" for n b
      using that app_files_ok by (auto simp: k8s_blueprint_def split: if_splits)
    show "\<forall>i \<in> set [app_input, ExpiryTick 50]. sound_call None i" using app_sound by simp
    show "sound_call None (Call demo_env [make_version sample_app] 100 app_url [] app_digest [] None)" by (rule app_sound)
  qed (simp_all add: key_entries_def)
qed

section \<open>Polling\<close>

text \<open>An http repository that moves from revision \<open>r0\<close> to \<open>r1\<close>, and the component that follows it.\<close>

definition rev_server :: "string \<Rightarrow> http_env" where
  "rev_server r = \<lparr>heParse = Inr, heResolve = (\<lambda>base loc. Inr loc),
     heRoundTrip = (\<lambda>n url. Inr \<lparr>hrpStatusCode = 200, hrpHeader = [(''Etag'', [''d1'']), (''X-Rev'', [r])]\<rparr>)\<rparr>"

lemma rev_server_run: "r \<noteq> [] \<Longrightarrow> GetArtifact (rev_server r) ''http://a'' [] ''x-rev'' = Some (Inr (''http://a'', ''d1'', r))"
  by (simp add: GetArtifact_def client_Head_def rev_server_def default_digestHeader_def default_revisionHeader_def
      head_loop.simps redirect_codes_def Header_Get_def Let_def artifact_of_response_def)

definition polled :: "ComponentStatus \<Rightarrow> Component" where
  "polled t = (http_c1 ''r0'')\<lparr>coStatus := t\<rparr>"

lemma polled_simps [simp]:
  "request_of (polled t) = \<lparr>nnNamespace = ''ns'', nnName = ''c1''\<rparr>" "\<not> is_deleting (polled t)" "coStatus (polled t) = t"
  "(polled t)\<lparr>coStatus := u\<rparr> = polled u" "follows_source (polled t)" "coMeta (polled t) = coMeta sample_c1"
  "srBlueprint (coSourceRef (polled t)) = None"
  "srHttpRepository (coSourceRef (polled t)) = Some \<lparr>hrUrl = ''http://a'', hrDigestHeader = [], hrRevisionHeader = ''x-rev''\<rparr>"
  by (simp_all add: polled_def http_c1_def sample_components request_of_def is_deleting_def IsZero_def follows_source_def)

definition poll_state :: "Component list \<Rightarrow> request list \<Rightarrow> BlueprintVersion list work_state" where
  "poll_state store q = \<lparr>wkCluster = [], wkStore = store, wkEvents = [], wkQueue = q, wkActive = []\<rparr>"

text \<open>A turn: the component is taken up, found at revision \<open>r\<close>, and becomes ready.\<close>

lemma polled_turn:
  assumes "r \<noteq> []" "request_of (polled t) \<in> set q" "set q \<subseteq> {request_of (polled t)}"
  shows "\<exists>t'. up_to_date (polled t') ''d1'' r \<and>
    work_run list_client (rev_server r) (poll_state [polled t] q) (poll_state [polled t'] [])"
proof -
  let ?a = "\<lparr>artUrl = ''http://a'', artDigest = ''d1'', artRevision = r\<rparr>"
  let ?r = "(coSourceRef (polled t))\<lparr>srArtifact := ?a, srDigest := calculateDigest (artifact_json ?a), srLoaded := True\<rparr>"
  let ?c1 = "set_status_source (polled t) \<lparr>srsArtifact = ?a, srsDigest = calculateDigest (artifact_json ?a)\<rparr>"
  let ?c2 = "?c1\<lparr>coSpec := (coSpec ?c1)\<lparr>spSourceRef := ?r\<rparr>\<rparr>"
  let ?p = "set_attempted ?c2 ?a"
  let ?p' = "makeFuncPostReconcile (with_status (csStatus new_status) ?p)"
  let ?st1 = "(poll_state [polled t] [])\<lparr>wkActive := [?p]\<rparr>"
  have ref: "\<not> srLoaded (coSourceRef (polled t))" "keep_source (polled t) = Inr None"
    by (simp_all add: polled_def http_c1_def sample_components keep_source_def)
  then have load: "Load list_client (rev_server r) [] (coSourceRef (polled t)) (polled t) = Some ([], Inr (?r, ?c1))"
    using rev_server_run [OF assms(1)] by (simp add: Load_fresh load_source_def load_http_def Let_def)
  have spec: "spDigest (coSpec ?c2) = []" "spRevision (coSpec ?c2) = []" "spDependencies (coSpec ?p) = []"
    by (simp_all add: set_status_source_def set_attempted_def polled_def http_c1_def sample_components)
  then have hooks: "makeFuncPostRead ?c2 = Inr ()" "makeFuncPreReconcile (\<lambda>n. Inl (NotFound [])) ?c2 = (?p, Inr ())"
    by (simp_all add: makeFuncPostRead_def makeFuncPreReconcile_def SourceReference_Artifact_def Let_def)
  have "take_request (request_of (polled t)) q = []"
    using assms(3) by (auto simp: take_request_def filter_empty_conv)
  then have s1: "work_step list_client (rev_server r) (poll_state [polled t] q) ?st1"
    using work_step.Taking [of "polled t" "poll_state [polled t] q" list_client "rev_server r" "[]" ?r ?c1 ?c2
        "\<lambda>n. Inl (NotFound [])" ?p] load hooks assms(2)
    by (simp add: poll_state_def busy_def)
  have meta: "coMeta ?p = coMeta sample_c1" by (simp add: set_attempted_def set_status_source_def)
  then have ready: "Component_IsReady ?p'"
    by (simp add: Component_IsReady_def with_status_def makeFuncPostReconcile_def sample_components)
  have "Component_NamespacedName ?p' = Component_NamespacedName (polled t)"
    using meta by (simp add: Component_NamespacedName_def makeFuncPostReconcile_def with_status_def)
  then have "write_status ?p' [polled t] = [polled (coStatus ?p')]" by (simp add: write_status_def)
  then have s2: "work_step list_client (rev_server r) ?st1 (poll_state [polled (coStatus ?p')] [])"
    using work_step.Finishing [of ?p ?st1 ?p' "csStatus new_status" list_client "rev_server r"] ready
    by (simp add: poll_state_def)
  have "up_to_date (polled (coStatus ?p')) ''d1'' r"
    by (simp add: up_to_date_def Component_IsReady_def makeFuncPostReconcile_def with_status_def set_attempted_def sample_components)
  with s1 s2 show ?thesis by (meson work_run.intros)
qed

text \<open>The component is created and reconciled at \<open>r0\<close>; then the repository moves, a tick queues it, and it follows.\<close>

theorem polling_corrects_witness:
  "\<exists>c0 c ck. poll_run list_client UNIV (poll_state [] [], checker_init, []) (poll_state [c0] [], checker_init, []) \<and>
    up_to_date c0 ''d1'' ''r0'' \<and>
    poll_run list_client {rev_server ''r1''} (poll_state [c0] [], count_tick checker_init, [c0]) (poll_state [c] [], ck, []) \<and>
    up_to_date c ''d1'' ''r1''"
proof -
  let ?t = "coStatus (http_c1 ''r0'')" and ?q = "[\<lparr>nnNamespace = ''ns'', nnName = ''c1''\<rparr>]"
  have "work_step list_client (rev_server ''r0'') (poll_state [] []) (poll_state [polled ?t] ?q)"
    using work_step.Editing [of "[polled ?t]" list_client "rev_server ''r0''" "poll_state [] []"]
    by (simp add: poll_state_def)
  moreover obtain t0 where t0: "up_to_date (polled t0) ''d1'' ''r0''"
    "work_run list_client (rev_server ''r0'') (poll_state [polled ?t] ?q) (poll_state [polled t0] [])"
    using polled_turn [of "''r0''" ?t ?q] by auto
  ultimately have past: "poll_run list_client UNIV (poll_state [] [], checker_init, []) (poll_state [polled t0] [], checker_init, [])"
    by (meson UNIV_I poll_run.intros poll_run_trans poll_step.Working work_run_polls)
  let ?env = "\<lparr>ckCache = (\<lambda>n. list_cache [polled t0]), ckHttp = (\<lambda>n. rev_server ''r1'')\<rparr>"
  have list: "ckCache ?env (ckTicks checker_init) [HasHttpRepository] = Inr [polled t0]"
    by (simp add: HasHttpRepository_def index_matches_def indexBySourceType_def)
  have offer: "offered ?env n (polled t0) = Some (Inr (''http://a'', ''d1'', ''r1''))" for n
    using rev_server_run by (simp add: offered_def fetch_def)
  obtain ck where check: "check_components ?env [polled t0] (count_tick checker_init) = Waiting ck"
    using check_components_Waiting [of "count_tick checker_init" "[polled t0]" ?env] offer by auto
  have trig: "new_triggers (count_tick checker_init) ck = ?q"
    using new_triggers_checked [OF check] offer t0(1) by (simp add: stale_single outdated_def up_to_date_def)
  obtain t1 where t1: "work_run list_client (rev_server ''r1'') (poll_state [polled t0] ?q) (poll_state [polled t1] [])"
    using polled_turn [of "''r1''" t0 ?q] by auto
  have "poll_run list_client {rev_server ''r1''} (poll_state [polled t0] [], count_tick checker_init, [polled t0])
      (poll_state [polled t0] ?q, ck, [])"
    using checks_run [OF _ check, of "{rev_server ''r1''}" list_client "poll_state [polled t0] []"] trig
    by (simp add: receive_def poll_state_def)
  from poll_run_trans [OF work_run_polls [OF t1] this]
  have follow: "poll_run list_client {rev_server ''r1''} (poll_state [polled t0] [], count_tick checker_init, [polled t0])
      (poll_state [polled t1] [], ck, [])" by simp
  have cache: "indexed_cache (set (wkStore (poll_state [polled t0] []))) (ckCache ?env (ckTicks checker_init))"
    using list_cache_indexed [of "[polled t0]"] by (simp add: poll_state_def)
  have "\<not> spSticky (coSpec (polled t1))" using polled_simps(5) [of t1] by (simp add: follows_source_def)
  from polling_corrects [OF _ _ past _ cache list follow _ _ _ _ this]
  have "up_to_date (polled t1) ''d1'' ''r1''"
    using rev_server_run [of "''r1''"] by (simp add: poll_state_def)
  with past t0(1) follow show ?thesis by blast
qed

section \<open>An orphan\<close>

text \<open>
  The blueprint \<open>ns/app\<close> is gone; \<open>ns/other\<close> is there, and its reconciliation deletes its version, which nobody uses.
\<close>

definition other_app :: Blueprint where
  "other_app = sample_app\<lparr>bpMeta := sample_meta ''ns'' ''other''\<rparr>"

definition orphan_env :: "BlueprintVersion list blueprint_env" where
  "orphan_env = newReconciler
     \<lparr>blKey = slash_key, blAddFinalizer = (\<lambda>b f. (b, False)), blRemoveFinalizer = (\<lambda>b f. (b, True))\<rparr>
     (list_client\<lparr>clGetBlueprint := (\<lambda>s n. if n = blueprint_key other_app then Inr other_app else Inl (NotFound [])),
        clListVersions := (\<lambda>s ns n. Inr (filter (\<lambda>v. version_owner v = \<lparr>nnNamespace = ns, nnName = n\<rparr>) s))\<rparr>)
     (list_cache [])"

lemma orphan_env_tidy: "tidy_env set orphan_env"
  unfolding tidy_env_def
proof (intro conjI)
  show "\<forall>s v. set s - {v} \<subseteq> set (fst (clDeleteVersion (beClient orphan_env) s v))"
    by (auto simp: orphan_env_def newReconciler_def) (metis in_set_remove1)
qed (auto simp: orphan_env_def newReconciler_def)

theorem orphaned_version_stays_witness:
  "\<exists>b. clGetBlueprint list_client [] (WithDefaultNamespace app_ref (coNamespace sample_c1)) = Inr b \<and>
    make_version b \<in> set (reconcile_all [(orphan_env, blueprint_key sample_app), (orphan_env, blueprint_key other_app)]
      [make_version sample_app])"
proof (rule orphaned_version_stays [OF load_c1])
  show "\<forall>(env, req) \<in> set [(orphan_env, blueprint_key sample_app), (orphan_env, blueprint_key other_app)].
      tidy_env set env \<and> (\<forall>s. \<exists>err. clGetBlueprint (beClient env) s (WithDefaultNamespace app_ref (coNamespace sample_c1)) = Inl err)"
    using orphan_env_tidy by (simp add: orphan_env_def newReconciler_def blueprint_key_def other_app_def sample_meta_def)
  show "srBlueprint (coSourceRef sample_c1) = Some app_ref" by (simp add: sample_c1_def spec_of_def)
qed (auto simp: blueprint_key_def split: if_splits)

end
