(* ===== verification/Spec2Isabelle.thy ===== *)
theory Spec2Isabelle
  imports InformerInterfaces SystemWitnesses
begin

text \<open>
  A model of the component operator of SAP (\<open>component-operator\<close>, a Kubernetes operator written
  in Go), with theorems about it. All paths are below \<open>src/\<close>.

  The program. A \<^emph>\<open>component\<close> is an object that names a source of manifests: a blueprint
  (an object holding files), a generic http repository, or one of four kinds of flux sources.

  \<^item> The component controller loads the source of a component (\<open>SourceReference.Load\<close>),
    runs hooks around each reconciliation (dependencies, deletion order, recording what was attempted and
    applied) and renders the manifests with the resource generator, which downloads, decrypts and caches
    sources.

  \<^item> For a blueprint source, loading stores the blueprint's contents in an immutable
    \<^emph>\<open>blueprint version\<close> named by its digest; the blueprint controller deletes versions
    that no component uses any more.

  \<^item> Event handlers queue the components concerned by a change of a component, a blueprint or a flux
    source; they and the controllers find these by the indexes of the component cache.

  \<^item> For http repositories, which send no events, a checker polls every 30 seconds.

  \<^item> \<open>main\<close> and \<open>pkg/operator\<close> put these parts together.

  \<^item> The generated parts are deep copies of the API types and a client with informers and listers.

  Conventions. Strings are lists of bytes. A call that can fail returns \<open>error + 'a\<close>; where a
  Go panic is possible, the \<open>result\<close> type of \<open>Prelude\<close> has \<open>Err\<close> for
  errors and \<open>Panic\<close> for panics. State is passed explicitly: the cluster behind a
  \<open>client\<close> record of functions, the file system, the store of generators. Go maps are
  association lists in the order of an iteration, or HOL maps where no order is visible. The Kubernetes
  client and cache, helm, kustomize, sops, age, PGP, the YAML decoder, the REST library and the manager are
  parameters, with what the program relies on as named hypotheses (\<open>indexed_cache\<close>,
  \<open>import_confined\<close>, \<open>keeps_versions\<close> and the like); the standard library's part
  that matters (SHA-256, hex, JSON encoding, paths, rooted file access, walking, header names, stable
  sorting) is modelled.

  Foundations.

  \<^item> \<open>Prelude\<close>: errors, panics, and shared lemmas. \<open>Sha256\<close>,
    \<open>Json\<close>: the hash and \<open>encoding/json\<close> of the values that are hashed, with
    injectivity of the encoding. \<open>GoPath\<close>, \<open>FileSystem\<close>:
    \<open>path/filepath\<close>, and a tree of files with the calls of \<open>os\<close> the program uses;
    \<open>works_below\<close> confines a change to a directory. \<open>GoHeap\<close>: a heap of typed
    cells, and the locale \<open>deep_copier\<close>.

  The data.

  \<^item> \<open>ApiTypes\<close>: the types and pure methods of \<open>api/v1alpha1/types.go\<close>,
    digests (\<open>util.go\<close>). \<open>ApiClient\<close>: readiness of objects
    (\<open>internal/object\<close>), the client. \<open>SourceRef\<close>:
    \<open>SourceReference.Load\<close>; its lemmas say what is loaded from each kind of source, when
    loading fails, and that digests determine what they are made from up to collisions of SHA-256.
    \<open>VersionNames\<close>: the length of version names against the limit for object names.

  The controllers.

  \<^item> \<open>ComponentCache\<close>: the indexes (\<open>internal/cache/component/cache.go\<close>) and
    the locales through which their users query them.

  \<^item> \<open>Handlers\<close>, \<open>Hooks\<close>: event handlers and hooks
    (\<open>internal/controllers/component\<close>), with exactly whom an event queues and when a hook
    passes.

  \<^item> \<open>BlueprintController\<close>: \<open>internal/controllers/blueprint\<close>, a refinement
    of an abstract requeue decision, and what reconciliations that end without error leave of the versions, for
    an API server that does what \<open>deletes_versions\<close> says.

  \<^item> \<open>HttpUtil\<close>, \<open>Checker\<close>: \<open>internal/httprepository\<close>.

  \<^item> \<open>Operator\<close>: \<open>pkg/operator\<close>,
    \<open>internal/controllers/component/reconciler.go\<close> and \<open>main.go\<close>.

  \<^item> \<open>System\<close>: loads, status writes, blueprint reconciliations and edits of components as
    interleaved steps, for the life of blueprint versions.

  \<^item> \<open>Convergence\<close>: events, the work queue, workers and changes as interleaved steps: components
    end up at the contents their blueprints have, and the two cases in which a change is missed. The steps
    restrict neither the blueprints nor the edits nor the statuses that workers write; \<open>lawful_run\<close> adds what
    the API server and the framework guarantee: generations never return, and only a worker makes a
    generation ready.

  \<^item> \<open>Polling\<close>: the steps of the checker's ticks, listing and checks one by one, interleaved with those of
    \<open>Convergence\<close>; uninterrupted they are \<open>checker_tick\<close>. The locale
    \<open>worker_goal\<close> says what the workers need to bring components to a goal; its two interpretations are being
    ready at anything, and being ready at what the http repository offers. Polling needs no event to be seen:
    a tick that lists while nobody works sets everyone right, whatever happened before.

  \<^item> \<open>Orphans\<close>: a blueprint reconciliation spares the versions of other blueprints, so that a version
    applied after its blueprint is gone stays.

  \<^item> \<open>Dependencies\<close>: the hooks composed over all components of a cluster. Rollouts and deletions are
    sequences of turns, in which one component runs through its hooks and its status is written or it is
    removed; without cycles they end after as many rounds of turns as there are components (the locale
    \<open>ranked_rounds\<close>, ranks being the numbers of components reachable). On cycles nothing can happen.

  The resource generator.

  \<^item> \<open>Decrypt\<close>: \<open>internal/decrypt/sops.go\<close>. \<open>Downloads\<close>,
    \<open>Factory\<close>: \<open>internal/generator/factory.go\<close>, that is downloading and unpacking,
    decryption in place, and the cache with its expiry; a run is a sequence of calls and ticks, one after
    the other as the mutex has them. \<open>Merge\<close>: \<open>util.go\<close>. \<open>Generator\<close>:
    \<open>generator.go\<close>. \<open>Provenance\<close>: which call built a cached generator, and that it was built
    from the files of the blueprint that was loaded, on clusters whose versions \<open>Load\<close> has written
    (\<open>operated\<close>).

  The generated code.

  \<^item> \<open>DeepCopy\<close>, \<open>CopyContracts\<close>: \<open>zz_generated.deepcopy.go\<close>; a
    copy has the contents of the original and shares no cell with it.

  \<^item> \<open>Informers\<close>, \<open>InformerRuns\<close>, \<open>Listers\<close>, \<open>InformerInterfaces\<close>:
    \<open>pkg/client/informers\<close> and \<open>pkg/client/listers\<close>; the informer factory as a
    state machine whose steps are labelled with what \<open>StartWithContext\<close> launches. Interfaces are records of methods, and their implementations structures with a function that gives
    these records; so they are in \<open>Clientset\<close>.

  \<^item> \<open>Clientset\<close>, \<open>FakeClient\<close>: \<open>pkg/client/clientset\<close>.
    \<open>Schemes\<close>: the registration of the API types there, in \<open>api/v1alpha1\<close> and in
    \<open>pkg/operator\<close>.

  \<open>Witnesses\<close> and \<open>SystemWitnesses\<close> apply the theorems to concrete objects, and this theory adds the properties that
  span components.

  Loops. The redirects of a HEAD request have no bound in the code; \<open>head_loop\<close> is a
  \<open>partial_function\<close> in the option monad, \<open>None\<close> meaning that the call does not
  return, and both its termination and its divergence are theorems. The checker's loop and the expiry loop
  run for ever by design; they are functions of the finite sequence of their inputs so far, so that no bound
  is chosen. \<open>deepMerge\<close> terminates by the size of the merged value. All other loops are over
  lists.

  Not modelled. Log messages, and the texts of errors that come from libraries. The reconciler framework,
  which calls \<open>Load\<close>, the hooks and \<open>Generate\<close>: its order of calls is what
  \<open>System\<close>, \<open>Convergence\<close>, \<open>Dependencies\<close> and the theorems below assume. The periodic requeue of components is the framework's and
  not in \<open>Convergence\<close>. Time enters as the current time of a call. Concurrency
  inside a function is not modelled; the code that shares state does so under a mutex.
\<close>

section \<open>Across the components\<close>

text \<open>
  C14. What a component is rendered from is what its blueprint contained when it was loaded. A living component
  that does not keep an earlier source has loaded its blueprint, and then the artifact URL of the reference is
  downloaded successfully, in a state of the cluster in which the version that this \<open>Load\<close> applied is still
  found under its name with the specification that was applied: then the files of the target directory are
  those that were there, with exactly the blueprint's files written over them.
\<close>

theorem loaded_blueprint_downloads:
  assumes "Load clnt http s r c = Some (s', Inr (r', c'))"
    and "\<not> is_deleting c" "keep_source c = Inr None" "srBlueprint (coSourceRef c) = Some ref"
    and "\<And>n b. clGetBlueprint clnt s n = Inr b \<Longrightarrow> k8s_blueprint b"
    and "\<And>v. clApplyVersion clnt s v = (s', None) \<Longrightarrow>
      \<exists>w. clGetVersion clnt t \<lparr>nnNamespace = bvNamespace v, nnName = bvName v\<rparr> = Inr w \<and> bvSpec w = bvSpec v"
    and "target_dir fs target"
    and "downloadBlueprint clnt t fs (artUrl (srArtifact r')) target = (fs', None)"
  shows "\<exists>b. clGetBlueprint clnt s (WithDefaultNamespace ref (coNamespace c)) = Inr b \<and>
    file_at fs' = put_files (resolve target) (bsFiles (bpSpec b)) (file_at fs)"
proof -
  from Load_applies_version [OF assms(1-4)] obtain b
    where b: "clGetBlueprint clnt s (WithDefaultNamespace ref (coNamespace c)) = Inr b"
      "clApplyVersion clnt s (make_version b) = (s', None)" "srArtifact r' = blueprint_artifact b" by blast
  from assms(5) [OF b(1)] have k: "k8s_blueprint b" .
  have "version_key (make_version b) = \<lparr>nnNamespace = bpNamespace b, nnName = blueprint_version_name (bpName b) (GetDigest b)\<rparr>"
    by (simp add: version_key_def make_version_def)
  with assms(6) [OF b(2)] obtain w where
    w: "clGetVersion clnt t \<lparr>nnNamespace = bpNamespace b, nnName = blueprint_version_name (bpName b) (GetDigest b)\<rparr> = Inr w"
      "bvsSpec (bvSpec w) = bpSpec b" using made_version_files [of b] by (auto simp: version_key_def)
  have "match_blueprint_url (artUrl (srArtifact r')) = Some (bpNamespace b, bpName b, GetDigest b)"
    using k GetDigest_plain [of b] b(3) match_blueprint_url_url
    by (simp add: k8s_blueprint_def blueprint_artifact_def)
  with assms(8) w have "write_files fs target (bsFiles (bpSpec b)) = (fs', None)"
    by (simp add: downloadBlueprint_def blueprint_version_name_def)
  from write_files_works [OF assms(7) this] b(1) show ?thesis by blast
qed


section \<open>Witnesses across the components\<close>

definition app_download :: "file_sys \<times> error option" where
  "app_download = downloadBlueprint list_client [make_version sample_app] disk_t (artUrl (srArtifact loaded_ref)) ''/t''"

lemma app_download_ok: "snd app_download = None"
proof -
  have "snd (write_files disk_t ''/t'' [(''a.yaml'', ''x'')]) = None" by code_simp
  moreover have "artUrl (srArtifact loaded_ref) = blueprint_url ''ns'' ''app'' (GetDigest sample_app)"
    by (simp add: loaded_ref_def app_status_def blueprint_artifact_def)
  moreover have "bsFiles (bvsSpec (bvSpec (make_version sample_app))) = [(''a.yaml'', ''x'')]"
    by (simp add: make_version_def sample_app_def)
  ultimately show ?thesis
    using app_version_found match_blueprint_url_url [of "''ns''" "''app''" "GetDigest sample_app"] GetDigest_plain [of sample_app]
    by (simp add: app_download_def downloadBlueprint_def blueprint_version_name_def)
qed

theorem loaded_blueprint_downloads_witness:
  "\<exists>b. clGetBlueprint list_client [] (WithDefaultNamespace app_ref (coNamespace sample_c1)) = Inr b \<and>
    file_at (fst app_download) = put_files (resolve ''/t'') (bsFiles (bpSpec b)) (file_at disk_t)"
proof (rule loaded_blueprint_downloads [OF load_c1])
  show "k8s_blueprint b" if "clGetBlueprint list_client [] n = Inr b" for n b
    using that by (auto simp: k8s_blueprint_def split: if_splits)
  show "\<exists>w. clGetVersion list_client [make_version sample_app] \<lparr>nnNamespace = bvNamespace v, nnName = bvName v\<rparr> = Inr w \<and>
      bvSpec w = bvSpec v"
    if "clApplyVersion list_client [] v = ([make_version sample_app], None)" for v
    using that by (auto simp: list_client_get version_key_def)
  show "downloadBlueprint list_client [make_version sample_app] disk_t (artUrl (srArtifact loaded_ref)) ''/t'' = (fst app_download, None)"
    using app_download_ok by (metis app_download_def prod.collapse)
qed simp_all

definition in_hooks :: Component where
  "in_hooks = loaded_c1\<lparr>coSpec := (coSpec loaded_c1)\<lparr>spSourceRef := loaded_ref\<rparr>\<rparr>"

lemma in_hooks_reconcile:
  "makeFuncPreReconcile (\<lambda>n. Inl (NotFound [])) in_hooks = (set_attempted in_hooks (blueprint_artifact sample_app), Inr ())"
  by (simp add: makeFuncPreReconcile_def SourceReference_Artifact_def Let_def in_hooks_def loaded_ref_def
      loaded_c1_def set_status_source_def app_status_def sample_c1_def spec_of_def)


text \<open>A component is created, not ready, taken up and becomes ready; then nothing is left to do.\<close>

definition idle_state :: "BlueprintVersion list work_state" where
  "idle_state = \<lparr>wkCluster = [], wkStore = [], wkEvents = [], wkQueue = [], wkActive = []\<rparr>"

definition created_c1 :: Component where
  "created_c1 = with_status ((csStatus new_status)\<lparr>rsReady := False\<rparr>) sample_c1"

definition taken_c1 :: Component where
  "taken_c1 = (set_status_source created_c1 app_status)\<lparr>coSpec := (coSpec created_c1)\<lparr>spSourceRef := loaded_ref\<rparr>\<rparr>"

definition worked_c1 :: Component where
  "worked_c1 = set_attempted taken_c1 (blueprint_artifact sample_app)"

definition followed_c1 :: Component where
  "followed_c1 = makeFuncPostReconcile (with_status (csStatus new_status) worked_c1)"

definition settled_state :: "BlueprintVersion list work_state" where
  "settled_state = \<lparr>wkCluster = [make_version sample_app], wkStore = write_status followed_c1 [created_c1], wkEvents = [],
     wkQueue = [], wkActive = []\<rparr>"

lemma created_c1_simps [simp]:
  "coMeta created_c1 = coMeta sample_c1" "coSpec created_c1 = coSpec sample_c1" "request_of created_c1 = request_of sample_c1"
  "\<not> Component_IsReady created_c1" "\<not> is_deleting created_c1" "keep_source created_c1 = Inr None"
  by (simp_all add: created_c1_def with_status_def request_of_def Component_IsReady_def is_deleting_def keep_source_def
      sample_c1_def spec_of_def sample_meta_def IsZero_def)

lemma load_created:
  "Load list_client demo_server [] app_source created_c1 =
    Some ([make_version sample_app], Inr (loaded_ref, set_status_source created_c1 app_status))"
  by (simp add: Load_fresh load_source_def load_blueprint_def loaded_ref_def app_status_def Let_def)

lemma worked_c1_simps [simp]:
  "coMeta worked_c1 = coMeta sample_c1" "request_of worked_c1 = request_of sample_c1"
  "same_generation created_c1 worked_c1"
  by (simp_all add: worked_c1_def taken_c1_def set_attempted_def set_status_source_def request_of_def same_generation_def
      blueprint_name_def loaded_ref_def sample_c1_def spec_of_def)

lemma worked_c1_hooks:
  "makeFuncPostRead taken_c1 = Inr ()" "makeFuncPreReconcile (\<lambda>n. Inl (NotFound [])) taken_c1 = (worked_c1, Inr ())"
  by (simp_all add: makeFuncPostRead_def makeFuncPreReconcile_def SourceReference_Artifact_def Let_def taken_c1_def worked_c1_def
      set_attempted_def loaded_ref_def set_status_source_def app_status_def sample_c1_def spec_of_def)

lemma followed_c1_ready: "Component_IsReady followed_c1"
  by (simp add: Component_IsReady_def followed_c1_def makeFuncPostReconcile_def with_status_def worked_c1_def taken_c1_def
      set_attempted_def set_status_source_def sample_c1_def sample_meta_def new_status_def)

lemma settled_run: "\<exists>H. lawful_run list_client demo_server idle_state H settled_state"
proof -
  let ?st1 = "idle_state\<lparr>wkStore := [created_c1], wkQueue := [request_of sample_c1]\<rparr>"
  let ?st2 = "?st1\<lparr>wkCluster := [make_version sample_app], wkQueue := [], wkActive := [worked_c1]\<rparr>"
  have never: "never_back list_client H s s'" for H s s' by (rule never_backI) (simp add: current_def fun_eq_iff)
  have "work_step list_client demo_server idle_state ?st1"
    using work_step.Editing [of "[created_c1]" list_client demo_server idle_state] by (simp add: idle_state_def)
  moreover have "earned_ready idle_state ?st1" by (simp add: earned_ready_def)
  moreover have "work_step list_client demo_server ?st1 ?st2"
    using work_step.Taking [of created_c1 ?st1 list_client demo_server "[make_version sample_app]" loaded_ref
        "set_status_source created_c1 app_status" taken_c1 "\<lambda>n. Inl (NotFound [])" worked_c1] load_created worked_c1_hooks
    by (simp add: idle_state_def busy_def taken_c1_def set_status_source_def take_request_def)
  moreover have "earned_ready ?st1 ?st2" by (simp add: earned_ready_def)
  moreover have "work_step list_client demo_server ?st2 settled_state"
    using work_step.Finishing [of worked_c1 ?st2 followed_c1 "csStatus new_status" list_client demo_server] followed_c1_ready
    by (simp add: followed_c1_def settled_state_def idle_state_def)
  moreover have "earned_ready ?st2 (?st2\<lparr>wkStore := write_status followed_c1 (wkStore ?st2), wkActive := remove1 worked_c1 (wkActive ?st2)\<rparr>)"
    by (rule finishing_earned [OF _ followed_c1_ready]) (simp_all add: followed_c1_def)
  then have "earned_ready ?st2 settled_state" by (simp add: settled_state_def idle_state_def)
  ultimately show ?thesis using never by (meson lawful_run.intros)
qed

theorem quiescent_components_follow_witness:
  "\<exists>c. wkStore settled_state = [c] \<and> up_to_date c (GetDigest sample_app) (GetRevision sample_app)"
proof -
  let ?c = "created_c1\<lparr>coStatus := coStatus followed_c1\<rparr>"
  have store: "wkStore settled_state = [?c]"
    by (simp add: settled_state_def write_status_def name_request followed_c1_def)
  have "keeps_blueprints list_client" by (auto simp: keeps_blueprints_def current_def list_client_def)
  moreover obtain H where "lawful_run list_client demo_server idle_state H settled_state" using settled_run by blast
  ultimately have "up_to_date ?c (GetDigest sample_app) (GetRevision sample_app)"
    using quiescent_components_follow [of list_client idle_state demo_server H settled_state ?c app_ref sample_app] store
    by (simp add: idle_state_def settled_state_def sample_c1_def spec_of_def app_source_def app_ref_def sample_meta_def
        is_deleting_def IsZero_def WithDefaultNamespace_def)
  with store show ?thesis by blast
qed

definition race_env :: "Component list \<Rightarrow> BlueprintVersion list blueprint_env" where
  "race_env store = (bp_env store sample_app)\<lparr>beClient := list_client\<rparr>"

lemma race_env_simps [simp]:
  "beClient (race_env store) = list_client" "beAddFinalizer (race_env store) b f = (b, False)"
  by (simp_all add: race_env_def)

definition app_key :: NamespacedName where "app_key = version_key (make_version sample_app)"

definition app_request :: NamespacedName where "app_request = \<lparr>nnNamespace = ''ns'', nnName = ''app''\<rparr>"

text \<open>
  C10. Between a load and the write of its status, the blueprint controller can take the version away: its
  creation queues the blueprint, whose reconciliation finds no component with the version in its status and
  deletes it. The status written afterwards names a version that does not exist, although the cache was
  never behind the stored components.
\<close>

theorem version_lost_before_status:
  "\<exists>s1 s2 store. operator_step list_client demo_server
       \<lparr>osCluster = [], osStore = [sample_c1], osLoading = []\<rparr>
       \<lparr>osCluster = s1, osStore = [sample_c1], osLoading = [loaded_c1]\<rparr> \<and>
     blueprintVersionHandler (CreateEvent (make_version sample_app)) [] = [app_request] \<and>
     s2 = fst (Reconcile (race_env [sample_c1]) s1 app_request) \<and>
     operator_step list_client demo_server
       \<lparr>osCluster = s1, osStore = [sample_c1], osLoading = [loaded_c1]\<rparr>
       \<lparr>osCluster = s2, osStore = [sample_c1], osLoading = [loaded_c1]\<rparr> \<and>
     operator_step list_client demo_server
       \<lparr>osCluster = s2, osStore = [sample_c1], osLoading = [loaded_c1]\<rparr>
       \<lparr>osCluster = s2, osStore = store, osLoading = []\<rparr> \<and>
     in_use store app_key \<and> \<not> version_exists list_client s2 app_key"
proof -
  let ?st = "\<lambda>s store l. \<lparr>osCluster = s, osStore = store, osLoading = l\<rparr>"
  let ?s1 = "[make_version sample_app]"
  have used: "in_use [loaded_c1] app_key"
    using app_version_in_use by (simp add: app_key_def version_in_use_key [symmetric] del: set_simps)
  have rec: "Reconcile (race_env [sample_c1]) ?s1 app_request = ([], [], Inr (1 * second))"
  proof -
    have q: "\<not> index_matches (pure_index indexByBlueprintVersion) k sample_c1" for k
      by (simp add: index_matches_def indexByBlueprintVersion_def pure_index_def
          sample_c1_def new_status_def)
    have "collect_versions (race_env [sample_c1]) ?s1 ?s1 0 = ([], Inr 1)"
      by (subst collect_unused [where s' = "[]"]) (simp_all add: race_env_def q make_version_def IsZero_def)
    moreover have "slash \<notin> set (bvNamespace (make_version sample_app))" by (simp add: make_version_def)
    ultimately show ?thesis
      by (simp add: Reconcile_def ensure_finalizer_def app_request_def)
  qed
  have "operator_step list_client demo_server (?st [] [sample_c1] []) (?st ?s1 [sample_c1] [loaded_c1])"
    using operator_step.Loading [of sample_c1 "?st [] [sample_c1] []" list_client demo_server ?s1 loaded_ref loaded_c1]
      load_c1 by simp
  moreover have "operator_step list_client demo_server (?st ?s1 [sample_c1] [loaded_c1]) (?st [] [sample_c1] [loaded_c1])"
    using operator_step.Reconciling [of "?st ?s1 [sample_c1] [loaded_c1]" "race_env [sample_c1]" list_client app_request] rec
      bp_env_serves [of "[sample_c1]" sample_app]
    by (simp add: serves_env_def race_env_def k8s_samples)
  moreover have "operator_step list_client demo_server (?st [] [sample_c1] [loaded_c1]) (?st [] [loaded_c1] [])"
    using operator_step.Writing [of loaded_c1 "?st [] [sample_c1] [loaded_c1]" list_client demo_server]
    by (simp add: write_status_def Component_NamespacedName_def loaded_c1_def set_status_source_def)
  moreover have "blueprintVersionHandler (CreateEvent (make_version sample_app)) [] = [app_request]"
    by (simp add: version_handlers q_Add_def make_version_def app_request_def)
  ultimately show ?thesis
    using used rec list_client_exists [of "[]" app_key]
    by (intro exI [of _ ?s1] exI [of _ "[]"] exI [of _ "[loaded_c1]"]) simp
qed

end
